theory Spec2Isabelle
  imports Main "HOL-Library.Sublist"
begin

section \<open>Shared helpers: JavaScript string rendering\<close>

text \<open>
  Template literals render a non-negative integer in decimal. \<open>string_of_nat\<close> is that
  rendering (\<open>digit_char\<close> is applied to numbers below ten only); \<open>join\<close> is \<^verbatim>\<open>Array.prototype.join\<close> on strings.
\<close>

definition digit_char :: "nat \<Rightarrow> char" where
  "digit_char d = ''0123456789'' ! d"

fun string_of_nat :: "nat \<Rightarrow> string" where
  "string_of_nat n =
     (if n < 10 then [digit_char n]
      else string_of_nat (n div 10) @ [digit_char (n mod 10)])"

declare string_of_nat.simps [simp del]

fun join :: "string \<Rightarrow> string list \<Rightarrow> string" where
  "join sep [] = []"
| "join sep [x] = x"
| "join sep (x # y # ys) = x @ sep @ join sep (y # ys)"

section \<open>Model fallback engine\<close>

text \<open>
  Source: \<^verbatim>\<open>runWithModelFallback\<close> and its local helpers \<^verbatim>\<open>isAbortError\<close> and
  \<^verbatim>\<open>shouldRethrowAbort\<close>.

  A thrown value has the TypeScript type \<^verbatim>\<open>unknown\<close>; it is a type variable \<open>'e\<close> here.
  The functions imported from \<^verbatim>\<open>failover-error.js\<close> and \<^verbatim>\<open>auth-profiles.js\<close> are not part
  of the sources at hand, so the engine takes them as parameters (the fields of
  \<open>fallback_env\<close>), together with the observations of a thrown value that the engine's
  own code makes (\<^verbatim>\<open>typeof\<close>, \<^verbatim>\<open>name\<close>, \<^verbatim>\<open>instanceof Error\<close>, truthiness).

  The callbacks \<^verbatim>\<open>run\<close> and \<^verbatim>\<open>onError\<close> are effectful: they take and return a world
  \<open>'w\<close>. A rejected promise is \<open>Inl\<close>, a fulfilled one \<open>Inr\<close>; \<^verbatim>\<open>onError\<close> returns
  \<open>Some e\<close> when it throws \<open>e\<close>.
\<close>

record ModelCandidate =
  provider :: string
  model :: string

record FallbackAttempt =
  att_provider :: string
  att_model :: string
  att_error :: string
  att_reason :: "string option"
  att_status :: "int option"
  att_code :: "string option"

record DescribedFailover =
  d_message :: string
  d_reason :: "string option"
  d_status :: "int option"
  d_code :: "string option"

record ('e, 'r, 'w) fallback_env =
  isFailoverError :: "'e \<Rightarrow> bool"
  isTimeoutError :: "'e \<Rightarrow> bool"
  coerceToFailoverError :: "'e \<Rightarrow> ModelCandidate \<Rightarrow> 'e option"
  describeFailoverError :: "'e \<Rightarrow> DescribedFailover"
  isObject :: "'e \<Rightarrow> bool"
  errName :: "'e \<Rightarrow> string"
  instanceofError :: "'e \<Rightarrow> bool"
  truthy :: "'e \<Rightarrow> bool"
  hasAuthStore :: bool
  resolveAuthProfileOrder :: "'w \<Rightarrow> string \<Rightarrow> string list"
  isProfileInCooldown :: "'w \<Rightarrow> string \<Rightarrow> bool"
  run :: "'w \<Rightarrow> string \<Rightarrow> string \<Rightarrow> ('e + 'r) \<times> 'w"
  onError :: "(string \<Rightarrow> string \<Rightarrow> 'e \<Rightarrow> nat \<Rightarrow> nat \<Rightarrow> 'w \<Rightarrow> 'e option \<times> 'w) option"

text \<open>
  \<^verbatim>\<open>isAbortError\<close>: the value is an object, is not a failover error, and its \<^verbatim>\<open>name\<close>
  is exactly \<^verbatim>\<open>"AbortError"\<close> (\<open>errName\<close> is \<^verbatim>\<open>"name" in err ? String(err.name) : ""\<close>).
\<close>

definition isAbortError :: "('e, 'r, 'w) fallback_env \<Rightarrow> 'e \<Rightarrow> bool" where
  "isAbortError env err =
     (if \<not> isObject env err then False
      else if isFailoverError env err then False
      else errName env err = ''AbortError'')"

definition shouldRethrowAbort :: "('e, 'r, 'w) fallback_env \<Rightarrow> 'e \<Rightarrow> bool" where
  "shouldRethrowAbort env err = (isAbortError env err \<and> \<not> isTimeoutError env err)"

text \<open>
  The state of one call: the local variables \<^verbatim>\<open>attempts\<close> and \<^verbatim>\<open>lastError\<close>, the
  world, and a ghost log \<open>runCalls\<close> of the loop indices at which \<^verbatim>\<open>params.run\<close> was
  invoked and \<open>errorCalls\<close> of those at which \<^verbatim>\<open>params.onError\<close> was invoked (the logs
  are not in the source: they let the theorems speak about which callbacks ran).
\<close>

record ('e, 'w) loop_state =
  attempts :: "FallbackAttempt list"
  lastError :: "'e option"
  world :: 'w
  runCalls :: "nat list"
  errorCalls :: "nat list"

datatype ('e, 'r) fallback_outcome =
    Returned 'r string string "FallbackAttempt list"
  | Rethrown 'e
  | AllFailed string "'e option"

text \<open>
  The cooldown pre-check of one candidate: an auth store exists, the provider has at
  least one profile, and none of them is available.
\<close>

definition cooldownSkip :: "('e, 'r, 'w) fallback_env \<Rightarrow> 'w \<Rightarrow> ModelCandidate \<Rightarrow> bool" where
  "cooldownSkip env w candidate =
     (hasAuthStore env \<and>
      (let profileIds = resolveAuthProfileOrder env w (provider candidate);
           isAnyProfileAvailable = (\<exists>pid \<in> set profileIds. \<not> isProfileInCooldown env w pid)
       in length profileIds > 0 \<and> \<not> isAnyProfileAvailable))"

definition cooldownAttempt :: "ModelCandidate \<Rightarrow> FallbackAttempt" where
  "cooldownAttempt candidate =
     \<lparr> att_provider = provider candidate,
       att_model = model candidate,
       att_error = ''Provider '' @ provider candidate @ '' is in cooldown (all profiles unavailable)'',
       att_reason = Some ''rate_limit'',
       att_status = None,
       att_code = None \<rparr>"

definition failedAttempt :: "ModelCandidate \<Rightarrow> DescribedFailover \<Rightarrow> FallbackAttempt" where
  "failedAttempt candidate described =
     \<lparr> att_provider = provider candidate,
       att_model = model candidate,
       att_error = d_message described,
       att_reason = d_reason described,
       att_status = d_status described,
       att_code = d_code described \<rparr>"

text \<open>\<^verbatim>\<open>coerceToFailoverError(err, {provider, model}) ?? err\<close>\<close>

definition normalizeError :: "('e, 'r, 'w) fallback_env \<Rightarrow> 'e \<Rightarrow> ModelCandidate \<Rightarrow> 'e" where
  "normalizeError env err candidate =
     (case coerceToFailoverError env err candidate of Some n \<Rightarrow> n | None \<Rightarrow> err)"

text \<open>\<^verbatim>\<open>await params.onError?.({provider, model, error, attempt: i + 1, total: candidates.length})\<close>\<close>

definition notifyError ::
  "('e, 'r, 'w) fallback_env \<Rightarrow> ModelCandidate \<Rightarrow> 'e \<Rightarrow> nat \<Rightarrow> nat \<Rightarrow> 'w \<Rightarrow> 'e option \<times> 'w" where
  "notifyError env candidate normalized i tot w =
     (case onError env of
        None \<Rightarrow> (None, w)
      | Some f \<Rightarrow> f (provider candidate) (model candidate) normalized (i + 1) tot w)"

text \<open>
  The code after the loop. The summary line of one attempt appends the reason only when
  it is truthy (defined and non-empty).
\<close>

definition attemptLine :: "FallbackAttempt \<Rightarrow> string" where
  "attemptLine attempt =
     att_provider attempt @ ''/'' @ att_model attempt @ '': '' @ att_error attempt @
     (case att_reason attempt of
        None \<Rightarrow> ''''
      | Some reason \<Rightarrow> if reason = [] then '''' else '' ('' @ reason @ '')'')"

definition summaryOf :: "FallbackAttempt list \<Rightarrow> string" where
  "summaryOf atts = (if length atts > 0 then join '' | '' (map attemptLine atts) else ''unknown'')"

definition aggregateError ::
  "('e, 'r, 'w) fallback_env \<Rightarrow> nat \<Rightarrow> ('e, 'w) loop_state \<Rightarrow> ('e, 'r) fallback_outcome" where
  "aggregateError env tot st =
     AllFailed
       (''All models failed ('' @
          string_of_nat (if length (attempts st) \<noteq> 0 then length (attempts st) else tot) @
          ''): '' @ summaryOf (attempts st))
       (case lastError st of
          Some l \<Rightarrow> if instanceofError env l then Some l else None
        | None \<Rightarrow> None)"

text \<open>\<^verbatim>\<open>if (attempts.length <= 1 && lastError) throw lastError;\<close> and then the aggregate.\<close>

definition exhausted ::
  "('e, 'r, 'w) fallback_env \<Rightarrow> nat \<Rightarrow> ('e, 'w) loop_state \<Rightarrow> ('e, 'r) fallback_outcome" where
  "exhausted env tot st =
     (case lastError st of
        Some e \<Rightarrow>
          if length (attempts st) \<le> 1 \<and> truthy env e then Rethrown e
          else aggregateError env tot st
      | None \<Rightarrow> aggregateError env tot st)"

text \<open>
  The three state updates of one iteration: after \<^verbatim>\<open>params.run\<close> was awaited, after a
  failover-eligible failure was recorded, and after \<^verbatim>\<open>params.onError\<close> was awaited.
\<close>

definition afterRun :: "('e, 'w) loop_state \<Rightarrow> 'w \<Rightarrow> nat \<Rightarrow> ('e, 'w) loop_state" where
  "afterRun st w1 i = st\<lparr>world := w1, runCalls := runCalls st @ [i]\<rparr>"

definition recordFailure ::
  "('e, 'r, 'w) fallback_env \<Rightarrow> ModelCandidate \<Rightarrow> 'e \<Rightarrow> ('e, 'w) loop_state \<Rightarrow> ('e, 'w) loop_state" where
  "recordFailure env candidate normalized st =
     st\<lparr>lastError := Some normalized,
        attempts := attempts st @ [failedAttempt candidate (describeFailoverError env normalized)]\<rparr>"

definition afterNotify ::
  "('e, 'r, 'w) fallback_env \<Rightarrow> ('e, 'w) loop_state \<Rightarrow> 'w \<Rightarrow> nat \<Rightarrow> ('e, 'w) loop_state" where
  "afterNotify env st w2 i =
     st\<lparr>world := w2,
        errorCalls := errorCalls st @ (case onError env of None \<Rightarrow> [] | Some f \<Rightarrow> [i])\<rparr>"

text \<open>
  The loop \<^verbatim>\<open>for (let i = 0; i < candidates.length; i += 1)\<close>, as a recursion on the
  candidates still to try; \<open>i\<close> is the loop index and \<open>tot\<close> is \<^verbatim>\<open>candidates.length\<close>.
  The result is \<open>Some\<close> outcome when the loop is left by \<^verbatim>\<open>return\<close> or \<^verbatim>\<open>throw\<close>, and
  \<open>None\<close> when it runs to its end.
\<close>

fun fallbackLoop ::
  "('e, 'r, 'w) fallback_env \<Rightarrow> nat \<Rightarrow> nat \<Rightarrow> ModelCandidate list \<Rightarrow> ('e, 'w) loop_state
     \<Rightarrow> ('e, 'r) fallback_outcome option \<times> ('e, 'w) loop_state" where
  "fallbackLoop env tot i [] st = (None, st)"
| "fallbackLoop env tot i (candidate # rest) st =
     (if cooldownSkip env (world st) candidate then
        fallbackLoop env tot (Suc i) rest
          (st\<lparr>attempts := attempts st @ [cooldownAttempt candidate]\<rparr>)
      else
        (case run env (world st) (provider candidate) (model candidate) of
           (Inr result, w1) \<Rightarrow>
             (Some (Returned result (provider candidate) (model candidate) (attempts st)),
              afterRun st w1 i)
         | (Inl err, w1) \<Rightarrow>
             if shouldRethrowAbort env err then (Some (Rethrown err), afterRun st w1 i)
             else
               (let normalized = normalizeError env err candidate in
                if \<not> isFailoverError env normalized then (Some (Rethrown err), afterRun st w1 i)
                else
                  (let st1 = recordFailure env candidate normalized (afterRun st w1 i)
                   in case notifyError env candidate normalized i tot w1 of
                        (Some thrown, w2) \<Rightarrow> (Some (Rethrown thrown), afterNotify env st1 w2 i)
                      | (None, w2) \<Rightarrow>
                          fallbackLoop env tot (Suc i) rest (afterNotify env st1 w2 i)))))"

definition initialLoopState :: "'w \<Rightarrow> ('e, 'w) loop_state" where
  "initialLoopState w =
     \<lparr> attempts = [], lastError = None, world = w, runCalls = [], errorCalls = [] \<rparr>"

text \<open>
  \<^verbatim>\<open>runWithModelFallback\<close> on the candidate list that \<^verbatim>\<open>resolveFallbackCandidates\<close>
  produced (that resolution is configuration lookup and plays no part below).
\<close>

definition runWithModelFallback ::
  "('e, 'r, 'w) fallback_env \<Rightarrow> ModelCandidate list \<Rightarrow> 'w
     \<Rightarrow> ('e, 'r) fallback_outcome \<times> ('e, 'w) loop_state" where
  "runWithModelFallback env candidates w =
     (case fallbackLoop env (length candidates) 0 candidates (initialLoopState w) of
        (Some outcome, st) \<Rightarrow> (outcome, st)
      | (None, st) \<Rightarrow> (exhausted env (length candidates) st, st))"

subsection \<open>A concrete instance of the parameters\<close>

text \<open>
  Thrown values of three shapes: an ordinary \<^verbatim>\<open>Error\<close> with a name and a message, a
  failover error with a message and a reason, and a thrown string. Coercion wraps an
  ordinary error into a failover error when its name or message classifies it, keeps a
  failover error as it is, and returns nothing otherwise.
\<close>

datatype sample_error =
    PlainError string string
  | FailoverErr string string
  | ThrownString string

definition sampleCoerce :: "sample_error \<Rightarrow> ModelCandidate \<Rightarrow> sample_error option" where
  "sampleCoerce err candidate =
     (case err of
        FailoverErr m r \<Rightarrow> Some err
      | PlainError n m \<Rightarrow>
          if n = ''TimeoutError'' then Some (FailoverErr m ''timeout'')
          else if m = ''429 rate limited'' then Some (FailoverErr m ''rate_limit'')
          else None
      | ThrownString s \<Rightarrow> None)"

definition sampleDescribe :: "sample_error \<Rightarrow> DescribedFailover" where
  "sampleDescribe err =
     (case err of
        FailoverErr m r \<Rightarrow> \<lparr> d_message = m, d_reason = Some r, d_status = None, d_code = None \<rparr>
      | PlainError n m \<Rightarrow> \<lparr> d_message = m, d_reason = None, d_status = None, d_code = None \<rparr>
      | ThrownString s \<Rightarrow> \<lparr> d_message = s, d_reason = None, d_status = None, d_code = None \<rparr>)"

definition sampleRun :: "nat \<Rightarrow> string \<Rightarrow> string \<Rightarrow> (sample_error + string) \<times> nat" where
  "sampleRun w p m =
     (if p = ''anthropic'' then (Inl (PlainError ''Error'' ''429 rate limited''), Suc w)
      else if p = ''openai'' then (Inl (PlainError ''TimeoutError'' ''timed out''), Suc w)
      else if p = ''google'' then (Inr (''ok from '' @ m), Suc w)
      else if p = ''cancel'' then (Inl (PlainError ''AbortError'' ''aborted by user''), Suc w)
      else (Inl (PlainError ''TypeError'' ''bad input''), Suc w))"

definition sampleEnv :: "(sample_error, string, nat) fallback_env" where
  "sampleEnv =
     \<lparr> isFailoverError = (\<lambda>e. case e of FailoverErr m r \<Rightarrow> True | _ \<Rightarrow> False),
       isTimeoutError =
         (\<lambda>e. case e of PlainError n m \<Rightarrow> n = ''TimeoutError''
                       | FailoverErr m r \<Rightarrow> r = ''timeout''
                       | ThrownString s \<Rightarrow> False),
       coerceToFailoverError = sampleCoerce,
       describeFailoverError = sampleDescribe,
       isObject = (\<lambda>e. case e of ThrownString s \<Rightarrow> False | _ \<Rightarrow> True),
       errName =
         (\<lambda>e. case e of PlainError n m \<Rightarrow> n
                       | FailoverErr m r \<Rightarrow> ''FailoverError''
                       | ThrownString s \<Rightarrow> []),
       instanceofError = (\<lambda>e. case e of ThrownString s \<Rightarrow> False | _ \<Rightarrow> True),
       truthy = (\<lambda>e. case e of ThrownString s \<Rightarrow> s \<noteq> [] | _ \<Rightarrow> True),
       hasAuthStore = True,
       resolveAuthProfileOrder =
         (\<lambda>w p. if p = ''cooled'' then [''cooled:default'', ''cooled:backup'']
                else if p = ''google'' then [''google:default'']
                else []),
       isProfileInCooldown = (\<lambda>w pid. pid = ''cooled:default'' \<or> pid = ''cooled:backup''),
       run = sampleRun,
       onError = Some (\<lambda>p m e a t w. (None, w)) \<rparr>"

text \<open>The same parameters in a call without a configuration: no auth store is loaded.\<close>

definition sampleEnvNoStore :: "(sample_error, string, nat) fallback_env" where
  "sampleEnvNoStore = sampleEnv\<lparr>hasAuthStore := False\<rparr>"

definition cand :: "string \<Rightarrow> string \<Rightarrow> ModelCandidate" where
  "cand p m = \<lparr> provider = p, model = m \<rparr>"

text \<open>
  A predicate on the ghost log, used to state how a run of the loop extends it: the log
  \<open>after\<close> is \<open>before\<close> followed by strictly increasing indices, all within
  \<open>i \<le> x < i + n\<close>.
\<close>

definition callsExtend :: "nat list \<Rightarrow> nat list \<Rightarrow> nat \<Rightarrow> nat \<Rightarrow> bool" where
  "callsExtend before after i n =
     (\<exists>xs. after = before @ xs \<and> sorted_wrt (<) xs \<and> (\<forall>x\<in>set xs. i \<le> x \<and> x < i + n))"

section \<open>Gateway RPC client\<close>

text \<open>
  Source: \<^verbatim>\<open>buildGatewayConnectionDetails\<close> and \<^verbatim>\<open>callGateway\<close>.

  A string is the list of its characters, with character codes below 256. The white
  space that \<^verbatim>\<open>String.prototype.trim\<close> strips is, among these: tab, line feed, vertical
  tab, form feed, carriage return, space and the no-break space (code 0xA0).
\<close>

definition isSpace :: "char \<Rightarrow> bool" where
  "isSpace ch =
     (ch = CHR 0x09 \<or> ch = CHR 0x0A \<or> ch = CHR 0x0B \<or> ch = CHR 0x0C \<or> ch = CHR 0x0D \<or>
      ch = CHR 0x20 \<or> ch = CHR 0xA0)"

definition trim :: "string \<Rightarrow> string" where
  "trim s = rev (dropWhile isSpace (rev (dropWhile isSpace s)))"

text \<open>
  \<^verbatim>\<open>typeof v === "string" && v.trim().length > 0 ? v.trim() : undefined\<close>, for an optional
  string.
\<close>

definition trimmedNonEmpty :: "string option \<Rightarrow> string option" where
  "trimmedNonEmpty v =
     (case v of
        None \<Rightarrow> None
      | Some s \<Rightarrow> if length (trim s) > 0 then Some (trim s) else None)"

text \<open>
  The part of the configuration that the client reads (\<^verbatim>\<open>config.gateway\<close>), and the
  values of the functions that are not part of the sources at hand: the local port
  (\<^verbatim>\<open>resolveGatewayPort\<close>), the tailnet address (\<^verbatim>\<open>pickPrimaryTailnetIPv4\<close>) and the
  configuration path shown in messages.
\<close>

record GatewayConfig =
  gw_mode :: "string option"
  gw_remote_url :: "string option"
  gw_tls_enabled :: bool
  gw_bind :: "string option"
  gw_localPort :: nat
  gw_tailnetIPv4 :: "string option"
  gw_configPath :: string

record GatewayConnectionDetails =
  gcd_url :: string
  gcd_urlSource :: string
  gcd_bindDetail :: "string option"
  gcd_remoteFallbackNote :: "string option"
  gcd_message :: string

definition newline :: string where
  "newline = [CHR 0x0A]"

text \<open>\<^verbatim>\<open>[...].filter(Boolean)\<close> on optional strings keeps the defined, non-empty ones.\<close>

definition filterBoolean :: "string option list \<Rightarrow> string list" where
  "filterBoolean xs = concat (map (\<lambda>x. case x of None \<Rightarrow> [] | Some s \<Rightarrow> if s = [] then [] else [s]) xs)"

definition buildGatewayConnectionDetails ::
  "GatewayConfig \<Rightarrow> string option \<Rightarrow> GatewayConnectionDetails" where
  "buildGatewayConnectionDetails config optUrl =
     (let configPath = gw_configPath config;
          isRemoteMode = (gw_mode config = Some ''remote'');
          remoteUrlRaw = (if isRemoteMode then gw_remote_url config else None);
          tlsEnabled = gw_tls_enabled config;
          localPort = gw_localPort config;
          tailnetIPv4 = gw_tailnetIPv4 config;
          tailnetTruthy = (case tailnetIPv4 of None \<Rightarrow> False | Some a \<Rightarrow> a \<noteq> []);
          bindMode = (case gw_bind config of None \<Rightarrow> ''loopback'' | Some b \<Rightarrow> b);
          preferTailnet = (bindMode = ''tailnet'' \<and> tailnetTruthy);
          scheme = (if tlsEnabled then ''wss'' else ''ws'');
          localUrl =
            (if preferTailnet
             then scheme @ ''://'' @ (case tailnetIPv4 of None \<Rightarrow> [] | Some a \<Rightarrow> a) @ '':'' @
                  string_of_nat localPort
             else scheme @ ''://127.0.0.1:'' @ string_of_nat localPort);
          urlOverride = trimmedNonEmpty optUrl;
          remoteUrl = trimmedNonEmpty remoteUrlRaw;
          remoteMisconfigured = (isRemoteMode \<and> urlOverride = None \<and> remoteUrl = None);
          url = (case urlOverride of
                   Some u \<Rightarrow> u
                 | None \<Rightarrow> (case remoteUrl of Some r \<Rightarrow> r | None \<Rightarrow> localUrl));
          urlSource =
            (if urlOverride \<noteq> None then ''cli --url''
             else if remoteUrl \<noteq> None then ''config gateway.remote.url''
             else if remoteMisconfigured then ''missing gateway.remote.url (fallback local)''
             else if preferTailnet
                  then ''local tailnet '' @ (case tailnetIPv4 of None \<Rightarrow> [] | Some a \<Rightarrow> a)
                  else ''local loopback'');
          remoteFallbackNote =
            (if remoteMisconfigured
             then Some ''Warn: gateway.mode=remote but gateway.remote.url is missing; set gateway.remote.url or switch gateway.mode=local.''
             else None);
          bindDetail =
            (if urlOverride = None \<and> remoteUrl = None then Some (''Bind: '' @ bindMode) else None);
          message =
            join newline
              (filterBoolean
                 [Some (''Gateway target: '' @ url),
                  Some (''Source: '' @ urlSource),
                  Some (''Config: '' @ configPath),
                  bindDetail,
                  remoteFallbackNote])
      in \<lparr> gcd_url = url, gcd_urlSource = urlSource, gcd_bindDetail = bindDetail,
           gcd_remoteFallbackNote = remoteFallbackNote, gcd_message = message \<rparr>)"

text \<open>
  \<^verbatim>\<open>formatCloseError\<close> and \<^verbatim>\<open>formatTimeoutError\<close>, closures of \<^verbatim>\<open>callGateway\<close> over the
  connection details and the timeout. The close reason may be undefined (\<^verbatim>\<open>reason?.trim()\<close>).
\<close>

definition formatCloseError :: "GatewayConnectionDetails \<Rightarrow> nat \<Rightarrow> string option \<Rightarrow> string" where
  "formatCloseError connectionDetails code reason =
     (let reasonText =
            (case reason of
               None \<Rightarrow> ''no close reason''
             | Some r \<Rightarrow> if trim r = [] then ''no close reason'' else trim r);
          hint =
            (if code = 1006 then ''abnormal closure (no close frame)''
             else if code = 1000 then ''normal closure''
             else []);
          suffix = (if hint = [] then [] else '' '' @ hint)
      in ''gateway closed ('' @ string_of_nat code @ suffix @ ''): '' @ reasonText @ newline @
         gcd_message connectionDetails)"

definition formatTimeoutError :: "GatewayConnectionDetails \<Rightarrow> nat \<Rightarrow> string" where
  "formatTimeoutError connectionDetails timeoutMs =
     ''gateway timeout after '' @ string_of_nat timeoutMs @ ''ms'' @ newline @
     gcd_message connectionDetails"

text \<open>
  The promise that \<^verbatim>\<open>callGateway\<close> returns. Its executor keeps two flags, \<^verbatim>\<open>settled\<close>
  and \<^verbatim>\<open>ignoreClose\<close>; the model adds the promise's outcome (\<open>None\<close> while pending),
  whether the timer was cleared, and how often \<^verbatim>\<open>client.stop()\<close> was called.

  A value the promise is rejected with is either \<^verbatim>\<open>new Error(message)\<close> made by
  \<^verbatim>\<open>callGateway\<close> itself, or the value caught from \<^verbatim>\<open>client.request\<close>.
\<close>

datatype 'e gw_error = NewError string | Caught 'e

datatype ('a, 'e) gw_outcome = Resolved "'a option" | Rejected "'e gw_error"

record ('a, 'e) call_state =
  settled :: bool
  ignoreClose :: bool
  timerCleared :: bool
  clientStops :: nat
  outcome :: "('a, 'e) gw_outcome option"

text \<open>
  \<^verbatim>\<open>stop(err?, value?)\<close>: nothing when already settled; otherwise it settles, clears the
  timer and rejects with \<open>err\<close> when that is truthy, else resolves with \<open>value\<close>.
  \<open>None\<close> for \<open>err\<close> is a falsy argument, \<open>None\<close> for \<open>value\<close> is \<^verbatim>\<open>undefined\<close>.
\<close>

definition stop ::
  "'e gw_error option \<Rightarrow> 'a option \<Rightarrow> ('a, 'e) call_state \<Rightarrow> ('a, 'e) call_state" where
  "stop err val s =
     (if settled s then s
      else s\<lparr>settled := True, timerCleared := True,
             outcome := Some (case err of Some e \<Rightarrow> Rejected e | None \<Rightarrow> Resolved val)\<rparr>)"

definition clientStop :: "('a, 'e) call_state \<Rightarrow> ('a, 'e) call_state" where
  "clientStop s = s\<lparr>clientStops := Suc (clientStops s)\<rparr>"

text \<open>
  What can happen to a pending call, one constructor for each callback body: the awaited
  \<^verbatim>\<open>client.request\<close> fulfils with a result; it rejects with a truthy value; it rejects with a
  falsy value (then \<^verbatim>\<open>stop(err)\<close> resolves); the connection closes with a code and a
  reason; the timer fires. Callbacks run one at a time, to completion.
\<close>

datatype ('a, 'e) gw_event =
    RequestFulfilled 'a
  | RequestRejected 'e
  | RequestRejectedFalsy
  | ConnectionClosed nat "string option"
  | TimerFired

fun gwStep ::
  "GatewayConnectionDetails \<Rightarrow> nat \<Rightarrow> ('a, 'e) call_state \<Rightarrow> ('a, 'e) gw_event
     \<Rightarrow> ('a, 'e) call_state" where
  "gwStep details timeoutMs s (RequestFulfilled result) =
     clientStop (stop None (Some result) (s\<lparr>ignoreClose := True\<rparr>))"
| "gwStep details timeoutMs s (RequestRejected err) =
     stop (Some (Caught err)) None (clientStop (s\<lparr>ignoreClose := True\<rparr>))"
| "gwStep details timeoutMs s RequestRejectedFalsy =
     stop None None (clientStop (s\<lparr>ignoreClose := True\<rparr>))"
| "gwStep details timeoutMs s (ConnectionClosed code reason) =
     (if settled s \<or> ignoreClose s then s
      else stop (Some (NewError (formatCloseError details code reason))) None
             (clientStop (s\<lparr>ignoreClose := True\<rparr>)))"
| "gwStep details timeoutMs s TimerFired =
     stop (Some (NewError (formatTimeoutError details timeoutMs))) None
       (clientStop (s\<lparr>ignoreClose := True\<rparr>))"

definition initialCallState :: "('a, 'e) call_state" where
  "initialCallState =
     \<lparr> settled = False, ignoreClose = False, timerCleared = False, clientStops = 0,
       outcome = None \<rparr>"

text \<open>
  \<^verbatim>\<open>callGateway\<close>: the configuration error is thrown before the promise exists; otherwise
  the promise starts pending and the events of the connection drive it. The result is the
  state after the given events; its \<open>outcome\<close> is \<open>None\<close> while the call has not settled.
\<close>

definition callGateway ::
  "GatewayConfig \<Rightarrow> string option \<Rightarrow> nat option \<Rightarrow> ('a, 'e) gw_event list
     \<Rightarrow> string + ('a, 'e) call_state" where
  "callGateway config optUrl optTimeoutMs events =
     (let timeoutMs = (case optTimeoutMs of None \<Rightarrow> 10000 | Some t \<Rightarrow> t);
          isRemoteMode = (gw_mode config = Some ''remote'');
          remoteUrlRaw = (if isRemoteMode then gw_remote_url config else None);
          urlOverride = trimmedNonEmpty optUrl;
          remoteUrl = trimmedNonEmpty remoteUrlRaw
      in if isRemoteMode \<and> urlOverride = None \<and> remoteUrl = None then
           Inl (join newline
                  [''gateway remote mode misconfigured: gateway.remote.url missing'',
                   ''Config: '' @ gw_configPath config,
                   ''Fix: set gateway.remote.url, or set gateway.mode=local.''])
         else
           (let connectionDetails = buildGatewayConnectionDetails config urlOverride
            in Inr (foldl (gwStep connectionDetails timeoutMs) initialCallState events)))"

text \<open>
  The invariant of the executor's flags between callbacks: \<^verbatim>\<open>ignoreClose\<close> is only
  set in a callback that also settles, and the promise has an outcome exactly when
  \<^verbatim>\<open>settled\<close> is set.
\<close>

definition callInv :: "('a, 'e) call_state \<Rightarrow> bool" where
  "callInv s = ((ignoreClose s \<longrightarrow> settled s) \<and> (settled s \<longleftrightarrow> outcome s \<noteq> None))"

subsection \<open>A concrete configuration\<close>

definition sampleGatewayConfig :: GatewayConfig where
  "sampleGatewayConfig =
     \<lparr> gw_mode = Some ''local'', gw_remote_url = None, gw_tls_enabled = False,
       gw_bind = None, gw_localPort = 18789, gw_tailnetIPv4 = None,
       gw_configPath = ''/home/u/.clawdbot/config.json'' \<rparr>"

section \<open>Session store\<close>

text \<open>
  Source: \<^verbatim>\<open>loadSessionStore\<close>, \<^verbatim>\<open>saveSessionStoreUnlocked\<close>, \<^verbatim>\<open>withSessionStoreLock\<close>,
  \<^verbatim>\<open>updateSessionStore\<close>, \<^verbatim>\<open>updateSessionStoreEntry\<close>, \<^verbatim>\<open>updateLastRoute\<close> and their local
  helpers.

  The store file holds arbitrary JSON, and the code inspects it with \<^verbatim>\<open>typeof\<close> and
  \<^verbatim>\<open>in\<close>; so store and entries are JavaScript values here, not typed records. An
  object is the list of its properties in insertion order. Numbers are integers
  (timestamps in milliseconds), and \<^verbatim>\<open>NaN\<close>.
\<close>

datatype jsval =
    JUndefined
  | JNull
  | JBool bool
  | JNum int
  | JNaN
  | JStr string
  | JArr "jsval list"
  | JObj "(string \<times> jsval) list"

type_synonym jsobject = "(string \<times> jsval) list"

text \<open>\<^verbatim>\<open>obj[k]\<close>, \<^verbatim>\<open>k in obj\<close>, \<^verbatim>\<open>obj[k] = v\<close> and \<^verbatim>\<open>delete obj[k]\<close> on an object.\<close>

definition getProp :: "jsobject \<Rightarrow> string \<Rightarrow> jsval" where
  "getProp obj k = (case map_of obj k of Some v \<Rightarrow> v | None \<Rightarrow> JUndefined)"

definition hasProp :: "jsobject \<Rightarrow> string \<Rightarrow> bool" where
  "hasProp obj k = (map_of obj k \<noteq> None)"

fun setProp :: "jsobject \<Rightarrow> string \<Rightarrow> jsval \<Rightarrow> jsobject" where
  "setProp [] k v = [(k, v)]"
| "setProp ((k', v') # rest) k v =
     (if k' = k then (k, v) # rest else (k', v') # setProp rest k v)"

definition deleteProp :: "jsobject \<Rightarrow> string \<Rightarrow> jsobject" where
  "deleteProp obj k = filter (\<lambda>(k', v'). k' \<noteq> k) obj"

text \<open>
  Property access on any value, as in \<^verbatim>\<open>x?.k\<close> and in \<^verbatim>\<open>x.k\<close> for a truthy \<open>x\<close>:
  \<^verbatim>\<open>undefined\<close> unless \<open>x\<close> is an object with that property. Object spread
  \<^verbatim>\<open>{...a, ...b}\<close> lays the properties of \<open>b\<close> over those of \<open>a\<close>; the properties of a
  value that is not an object are taken to be none.
\<close>

definition jsGet :: "jsval \<Rightarrow> string \<Rightarrow> jsval" where
  "jsGet x k = (case x of JObj obj \<Rightarrow> getProp obj k | _ \<Rightarrow> JUndefined)"

definition propsOf :: "jsval \<Rightarrow> jsobject" where
  "propsOf x = (case x of JObj obj \<Rightarrow> obj | _ \<Rightarrow> [])"

definition spread :: "jsobject \<Rightarrow> jsobject \<Rightarrow> jsobject" where
  "spread a b = foldl (\<lambda>acc (k, v). setProp acc k v) a b"

definition isString :: "jsval \<Rightarrow> bool" where
  "isString x = (case x of JStr s \<Rightarrow> True | _ \<Rightarrow> False)"

definition jsTruthy :: "jsval \<Rightarrow> bool" where
  "jsTruthy x =
     (case x of
        JUndefined \<Rightarrow> False
      | JNull \<Rightarrow> False
      | JBool b \<Rightarrow> b
      | JNum n \<Rightarrow> n \<noteq> 0
      | JNaN \<Rightarrow> False
      | JStr s \<Rightarrow> s \<noteq> []
      | JArr xs \<Rightarrow> True
      | JObj obj \<Rightarrow> True)"

text \<open>\<^verbatim>\<open>x ?? undefined\<close>\<close>

definition nullishToUndefined :: "jsval \<Rightarrow> jsval" where
  "nullishToUndefined x = (if x = JNull then JUndefined else x)"

subsection \<open>The world: files, the process-wide cache, the clock\<close>

text \<open>
  A file has a content and a modification time. The content type \<open>'txt\<close> is a
  parameter, with the parser and the printer (\<^verbatim>\<open>JSON5.parse\<close>, \<^verbatim>\<open>JSON.stringify\<close>) as
  parameters of the store; \<open>None\<close> from the parser is a thrown syntax error.
  \<^verbatim>\<open>Date.now()\<close> reads \<open>clock\<close>; a written file gets the clock as its modification time.
  The model is of one process: what other processes left behind (a store file, a lock
  file) is part of the world a call starts in. Directories always exist after
  \<^verbatim>\<open>mkdir\<close>, so the \<^verbatim>\<open>ENOENT\<close> branches of the source are not reached.
\<close>

record 'txt fs_file =
  f_content :: 'txt
  f_mtimeMs :: int

record SessionStoreCacheEntry =
  c_store :: jsobject
  c_loadedAt :: int
  c_storePath :: string
  c_mtimeMs :: "int option"

record 'txt store_world =
  files :: "string \<Rightarrow> 'txt fs_file option"
  cache :: "string \<Rightarrow> SessionStoreCacheEntry option"
  clock :: int

text \<open>
  The parameters: the functions imported from \<^verbatim>\<open>cache-utils.js\<close>,
  \<^verbatim>\<open>delivery-context.js\<close> and \<^verbatim>\<open>metadata.js\<close> are not part of the sources at hand.
  \<open>cacheEnabled\<close> is \<^verbatim>\<open>isCacheEnabled(getSessionStoreTtl())\<close> and \<open>cacheTtlMs\<close> is
  \<^verbatim>\<open>getSessionStoreTtl()\<close>. \<open>coerceToNumber\<close> is the number that the language makes of a
  string, an array or an object where a number is expected (\<open>None\<close> is \<^verbatim>\<open>NaN\<close>).
\<close>

record 'txt store_env =
  json5_parse :: "'txt \<Rightarrow> jsval option"
  json_stringify :: "jsval \<Rightarrow> 'txt"
  cacheEnabled :: bool
  cacheTtlMs :: int
  processPid :: int
  normalizeSessionDeliveryFields :: "jsval \<Rightarrow> jsval"
  normalizeDeliveryContext :: "jsval \<Rightarrow> jsval"
  mergeDeliveryContext :: "jsval \<Rightarrow> jsval \<Rightarrow> jsval"
  deliveryContextFromSession :: "jsval \<Rightarrow> jsval"
  deriveSessionMetaPatch :: "jsval \<Rightarrow> string \<Rightarrow> jsval \<Rightarrow> jsval \<Rightarrow> jsobject option"
  coerceToNumber :: "jsval \<Rightarrow> int option"

definition getFileMtimeMs :: "'txt store_world \<Rightarrow> string \<Rightarrow> int option" where
  "getFileMtimeMs w storePath = map_option f_mtimeMs (files w storePath)"

definition isSessionStoreRecord :: "jsval \<Rightarrow> bool" where
  "isSessionStoreRecord x = (case x of JObj obj \<Rightarrow> True | _ \<Rightarrow> False)"

definition isSessionStoreCacheValid ::
  "'txt store_env \<Rightarrow> 'txt store_world \<Rightarrow> SessionStoreCacheEntry \<Rightarrow> bool" where
  "isSessionStoreCacheValid env w entry = (clock w - c_loadedAt entry \<le> cacheTtlMs env)"

definition invalidateSessionStoreCache :: "string \<Rightarrow> 'txt store_world \<Rightarrow> 'txt store_world" where
  "invalidateSessionStoreCache storePath w = w\<lparr>cache := (cache w)(storePath := None)\<rparr>"

subsection \<open>Loading, with the migration of legacy field names\<close>

text \<open>
  The body of the migration loop for one entry that is an object: \<^verbatim>\<open>provider\<close> to
  \<^verbatim>\<open>channel\<close>, \<^verbatim>\<open>lastProvider\<close> to \<^verbatim>\<open>lastChannel\<close>, \<^verbatim>\<open>room\<close> to \<^verbatim>\<open>groupChannel\<close>.
\<close>

definition migrateRecord :: "jsobject \<Rightarrow> jsobject" where
  "migrateRecord raw =
     (let rec1 =
            (if \<not> isString (getProp raw ''channel'') \<and> isString (getProp raw ''provider'')
             then deleteProp (setProp raw ''channel'' (getProp raw ''provider'')) ''provider''
             else raw);
          rec2 =
            (if \<not> isString (getProp rec1 ''lastChannel'') \<and> isString (getProp rec1 ''lastProvider'')
             then deleteProp (setProp rec1 ''lastChannel'' (getProp rec1 ''lastProvider'')) ''lastProvider''
             else rec1)
      in if \<not> isString (getProp rec2 ''groupChannel'') \<and> isString (getProp rec2 ''room'')
         then deleteProp (setProp rec2 ''groupChannel'' (getProp rec2 ''room'')) ''room''
         else if hasProp rec2 ''room'' then deleteProp rec2 ''room''
         else rec2)"

text \<open>
  \<^verbatim>\<open>if (!entry || typeof entry !== "object") continue;\<close> leaves everything but objects and
  arrays alone, and an array has none of the named properties.
\<close>

definition migrateEntry :: "jsval \<Rightarrow> jsval" where
  "migrateEntry entry = (case entry of JObj raw \<Rightarrow> JObj (migrateRecord raw) | _ \<Rightarrow> entry)"

definition migrateStore :: "jsobject \<Rightarrow> jsobject" where
  "migrateStore store = map (\<lambda>(k, entry). (k, migrateEntry entry)) store"

text \<open>
  The \<^verbatim>\<open>try\<close> block: read, parse, accept an object; any failure leaves the empty store.
  The result is the store and the modification time to remember.
\<close>

definition readStoreFile ::
  "'txt store_env \<Rightarrow> string \<Rightarrow> 'txt store_world \<Rightarrow> jsobject \<times> int option" where
  "readStoreFile env storePath w =
     (let mtimeMs = getFileMtimeMs w storePath
      in case files w storePath of
           None \<Rightarrow> ([], mtimeMs)
         | Some f \<Rightarrow>
             (case json5_parse env (f_content f) of
                None \<Rightarrow> ([], mtimeMs)
              | Some parsed \<Rightarrow>
                  (if isSessionStoreRecord parsed then propsOf parsed else [],
                   case getFileMtimeMs w storePath of Some m \<Rightarrow> Some m | None \<Rightarrow> mtimeMs)))"

text \<open>Step 2 of \<^verbatim>\<open>loadSessionStore\<close>: from disk, migrate, cache when caching applies.\<close>

definition loadFromDisk ::
  "'txt store_env \<Rightarrow> string \<Rightarrow> bool \<Rightarrow> 'txt store_world \<Rightarrow> jsobject \<times> 'txt store_world" where
  "loadFromDisk env storePath skipCache w =
     (case readStoreFile env storePath w of
        (parsed, mtimeMs) \<Rightarrow>
          (let store = migrateStore parsed
           in (store,
               if \<not> skipCache \<and> cacheEnabled env
               then w\<lparr>cache := (cache w)(storePath \<mapsto>
                        \<lparr> c_store = store, c_loadedAt = clock w, c_storePath = storePath,
                          c_mtimeMs = mtimeMs \<rparr>)\<rparr>
               else w)))"

text \<open>
  \<^verbatim>\<open>loadSessionStore(storePath, {skipCache})\<close>. \<^verbatim>\<open>structuredClone\<close> is the identity on
  values.
\<close>

definition loadSessionStore ::
  "'txt store_env \<Rightarrow> string \<Rightarrow> bool \<Rightarrow> 'txt store_world \<Rightarrow> jsobject \<times> 'txt store_world" where
  "loadSessionStore env storePath skipCache w =
     (if \<not> skipCache \<and> cacheEnabled env then
        (case cache w storePath of
           Some cached \<Rightarrow>
             if isSessionStoreCacheValid env w cached then
               (if getFileMtimeMs w storePath = c_mtimeMs cached then (c_store cached, w)
                else loadFromDisk env storePath skipCache (invalidateSessionStoreCache storePath w))
             else loadFromDisk env storePath skipCache w
         | None \<Rightarrow> loadFromDisk env storePath skipCache w)
      else loadFromDisk env storePath skipCache w)"

subsection \<open>Saving\<close>

text \<open>
  \<^verbatim>\<open>normalizeSessionEntryDelivery\<close>: the entry itself when the normalized delivery fields
  equal its own, else the entry with the five fields replaced. The compared values are
  strings and numbers, on which \<^verbatim>\<open>===\<close> is equality of values, except that \<^verbatim>\<open>NaN\<close>
  differs from itself.
\<close>

definition strictEquals :: "jsval \<Rightarrow> jsval \<Rightarrow> bool" where
  "strictEquals a b = (a = b \<and> a \<noteq> JNaN)"

definition normalizeSessionEntryDelivery :: "'txt store_env \<Rightarrow> jsval \<Rightarrow> jsval" where
  "normalizeSessionEntryDelivery env entry =
     (let normalized = normalizeSessionDeliveryFields env entry;
          nextDelivery = jsGet normalized ''deliveryContext'';
          sameDelivery =
            (strictEquals (nullishToUndefined (jsGet (jsGet entry ''deliveryContext'') ''channel''))
               (jsGet nextDelivery ''channel'') \<and>
             strictEquals (nullishToUndefined (jsGet (jsGet entry ''deliveryContext'') ''to''))
               (jsGet nextDelivery ''to'') \<and>
             strictEquals (nullishToUndefined (jsGet (jsGet entry ''deliveryContext'') ''accountId''))
               (jsGet nextDelivery ''accountId'') \<and>
             strictEquals (nullishToUndefined (jsGet (jsGet entry ''deliveryContext'') ''threadId''))
               (jsGet nextDelivery ''threadId''));
          sameLast =
            (strictEquals (jsGet entry ''lastChannel'') (jsGet normalized ''lastChannel'') \<and>
             strictEquals (jsGet entry ''lastTo'') (jsGet normalized ''lastTo'') \<and>
             strictEquals (jsGet entry ''lastAccountId'') (jsGet normalized ''lastAccountId'') \<and>
             strictEquals (jsGet entry ''lastThreadId'') (jsGet normalized ''lastThreadId''))
      in if sameDelivery \<and> sameLast then entry
         else JObj (spread (propsOf entry)
                [(''deliveryContext'', nextDelivery),
                 (''lastChannel'', jsGet normalized ''lastChannel''),
                 (''lastTo'', jsGet normalized ''lastTo''),
                 (''lastAccountId'', jsGet normalized ''lastAccountId''),
                 (''lastThreadId'', jsGet normalized ''lastThreadId'')]))"

definition normalizeSessionStore :: "'txt store_env \<Rightarrow> jsobject \<Rightarrow> jsobject" where
  "normalizeSessionStore env store =
     map (\<lambda>(k, entry). (k, if \<not> jsTruthy entry then entry else normalizeSessionEntryDelivery env entry))
       store"

text \<open>
  \<^verbatim>\<open>saveSessionStoreUnlocked\<close>: invalidate the cache entry, normalize, print, write. On
  Windows the text is written to the store file directly; elsewhere it is written to a
  temporary file named after the process id and a fresh UUID, which is then renamed onto
  the store file. Either way the store file ends up with the text and nothing else
  remains, which is what the model records. The normalized store is returned with the
  world (the source normalizes the caller's object in place).
\<close>

definition saveSessionStoreUnlocked ::
  "'txt store_env \<Rightarrow> string \<Rightarrow> jsobject \<Rightarrow> 'txt store_world \<Rightarrow> jsobject \<times> 'txt store_world" where
  "saveSessionStoreUnlocked env storePath store w =
     (let w1 = invalidateSessionStoreCache storePath w;
          normalizedStore = normalizeSessionStore env store;
          json = json_stringify env (JObj normalizedStore)
      in (normalizedStore,
          w1\<lparr>files := (files w1)(storePath \<mapsto> \<lparr> f_content = json, f_mtimeMs = clock w1 \<rparr>)\<rparr>))"

subsection \<open>The lock\<close>

text \<open>
  No caller passes lock options, so the defaults apply: 10 s timeout, 25 ms poll
  interval, 30 s staleness.
\<close>

definition lockTimeoutMs :: int where "lockTimeoutMs = 10000"
definition lockPollIntervalMs :: int where "lockPollIntervalMs = 25"
definition lockStaleMs :: int where "lockStaleMs = 30000"

datatype 'x store_error = LockTimeoutError string | CallbackError 'x

text \<open>
  The \<^verbatim>\<open>while (true)\<close> loop of \<^verbatim>\<open>withSessionStoreLock\<close>. Exclusive creation succeeds when
  the lock file is absent. Otherwise: time out, or evict a stale lock and retry at once,
  or sleep one poll interval (the clock advances) and retry. The result is the error
  thrown, if any, and the world.
\<close>

function acquireLock ::
  "'txt store_env \<Rightarrow> string \<Rightarrow> int \<Rightarrow> 'txt store_world \<Rightarrow> 'x store_error option \<times> 'txt store_world" where
  "acquireLock env lockPath startedAt w =
     (case files w lockPath of
        None \<Rightarrow>
          (None,
           w\<lparr>files := (files w)(lockPath \<mapsto>
                \<lparr> f_content =
                    json_stringify env
                      (JObj [(''pid'', JNum (processPid env)), (''startedAt'', JNum (clock w))]),
                  f_mtimeMs = clock w \<rparr>)\<rparr>)
      | Some lockFile \<Rightarrow>
          (let now = clock w
           in if now - startedAt > lockTimeoutMs then
                (Some (LockTimeoutError (''timeout acquiring session store lock: '' @ lockPath)), w)
              else if now - f_mtimeMs lockFile > lockStaleMs then
                acquireLock env lockPath startedAt (w\<lparr>files := (files w)(lockPath := None)\<rparr>)
              else
                acquireLock env lockPath startedAt (w\<lparr>clock := clock w + lockPollIntervalMs\<rparr>)))"
  by pat_completeness auto
termination
  by (relation "measure (\<lambda>(env, lockPath, startedAt, w).
        (case files w lockPath of
           None \<Rightarrow> 0
         | Some lockFile \<Rightarrow> 1 + nat (lockTimeoutMs + 1 - (clock w - startedAt))))")
     (auto simp: lockPollIntervalMs_def lockTimeoutMs_def)

declare acquireLock.simps [simp del]

text \<open>
  \<^verbatim>\<open>withSessionStoreLock(storePath, fn)\<close>: acquire, run \<open>fn\<close>, and in the \<^verbatim>\<open>finally\<close> block
  remove the lock file. \<open>fn\<close> returns \<open>Inl\<close> when it throws.
\<close>

definition withSessionStoreLock ::
  "'txt store_env \<Rightarrow> string \<Rightarrow> ('txt store_world \<Rightarrow> ('x store_error + 'a) \<times> 'txt store_world)
     \<Rightarrow> 'txt store_world \<Rightarrow> ('x store_error + 'a) \<times> 'txt store_world" where
  "withSessionStoreLock env storePath fn w =
     (let lockPath = storePath @ ''.lock'';
          startedAt = clock w
      in case acquireLock env lockPath startedAt w of
           (Some err, w1) \<Rightarrow> (Inl err, w1)
         | (None, w1) \<Rightarrow>
             (case fn w1 of
                (result, w2) \<Rightarrow> (result, w2\<lparr>files := (files w2)(lockPath := None)\<rparr>)))"

subsection \<open>Locked mutations\<close>

text \<open>
  Modelled from the spec: \<^verbatim>\<open>mergeSessionEntry\<close> (imported from \<^verbatim>\<open>./types.js\<close>, which is not
  part of the sources at hand). The spec says that the update "merges the updater's
  partial result onto the existing entry": the properties of the patch laid over those
  of the existing entry.
\<close>

definition mergeSessionEntry :: "jsval \<Rightarrow> jsobject \<Rightarrow> jsval" where
  "mergeSessionEntry existing patch = JObj (spread (propsOf existing) patch)"

text \<open>
  The function that \<^verbatim>\<open>updateSessionStore\<close> runs under the lock. The mutator changes the
  store in place and returns a result, or throws: it maps the store to \<open>Inl\<close> the thrown
  value or \<open>Inr\<close> the result and the changed store.
\<close>

definition updateSessionStoreLocked ::
  "'txt store_env \<Rightarrow> string \<Rightarrow> (jsobject \<Rightarrow> 'x + 'a \<times> jsobject) \<Rightarrow> 'txt store_world
     \<Rightarrow> ('x store_error + 'a) \<times> 'txt store_world" where
  "updateSessionStoreLocked env storePath mutator w =
     (case loadSessionStore env storePath True w of
        (store, w1) \<Rightarrow>
          (case mutator store of
             Inl thrown \<Rightarrow> (Inl (CallbackError thrown), w1)
           | Inr (result, store') \<Rightarrow>
               (case saveSessionStoreUnlocked env storePath store' w1 of
                  (saved, w2) \<Rightarrow> (Inr result, w2))))"

definition updateSessionStore ::
  "'txt store_env \<Rightarrow> string \<Rightarrow> (jsobject \<Rightarrow> 'x + 'a \<times> jsobject) \<Rightarrow> 'txt store_world
     \<Rightarrow> ('x store_error + 'a) \<times> 'txt store_world" where
  "updateSessionStore env storePath mutator w =
     withSessionStoreLock env storePath (updateSessionStoreLocked env storePath mutator) w"

text \<open>
  The function that \<^verbatim>\<open>updateSessionStoreEntry\<close> runs under the lock. The updater maps the
  existing entry to \<open>Inl\<close> a thrown value, or to \<open>Inr\<close> a patch, \<open>None\<close> for
  \<^verbatim>\<open>null\<close>. The result is \<open>None\<close> for \<^verbatim>\<open>null\<close>.
\<close>

definition updateSessionStoreEntryLocked ::
  "'txt store_env \<Rightarrow> string \<Rightarrow> string \<Rightarrow> (jsval \<Rightarrow> 'x + jsobject option) \<Rightarrow> 'txt store_world
     \<Rightarrow> ('x store_error + jsval option) \<times> 'txt store_world" where
  "updateSessionStoreEntryLocked env storePath sessionKey update w =
     (case loadSessionStore env storePath False w of
        (store, w1) \<Rightarrow>
          (let existing = getProp store sessionKey
           in if \<not> jsTruthy existing then (Inr None, w1)
              else
                (case update existing of
                   Inl thrown \<Rightarrow> (Inl (CallbackError thrown), w1)
                 | Inr None \<Rightarrow> (Inr (Some existing), w1)
                 | Inr (Some patch) \<Rightarrow>
                     (let next = mergeSessionEntry existing patch
                      in case saveSessionStoreUnlocked env storePath (setProp store sessionKey next) w1 of
                           (saved, w2) \<Rightarrow> (Inr (Some next), w2)))))"

definition updateSessionStoreEntry ::
  "'txt store_env \<Rightarrow> string \<Rightarrow> string \<Rightarrow> (jsval \<Rightarrow> 'x + jsobject option) \<Rightarrow> 'txt store_world
     \<Rightarrow> ('x store_error + jsval option) \<times> 'txt store_world" where
  "updateSessionStoreEntry env storePath sessionKey update w =
     withSessionStoreLock env storePath
       (updateSessionStoreEntryLocked env storePath sessionKey update) w"

text \<open>
  The parameters of \<^verbatim>\<open>updateLastRoute\<close>. An absent optional parameter is \<^verbatim>\<open>undefined\<close>;
  \<open>rp_ctx\<close> is \<open>None\<close> when no message context is given.
\<close>

record RouteParams =
  rp_storePath :: string
  rp_sessionKey :: string
  rp_channel :: jsval
  rp_to :: jsval
  rp_accountId :: jsval
  rp_threadId :: jsval
  rp_deliveryContext :: jsval
  rp_ctx :: "jsval option"
  rp_groupResolution :: jsval

text \<open>
  \<^verbatim>\<open>Math.max(a, b)\<close> turns both arguments into numbers and returns the larger one, or
  \<^verbatim>\<open>NaN\<close> when either is \<^verbatim>\<open>NaN\<close>. \<open>toNumber\<close> is that conversion: a number is
  itself, \<^verbatim>\<open>undefined\<close> is \<^verbatim>\<open>NaN\<close>, \<^verbatim>\<open>null\<close> is 0, \<^verbatim>\<open>true\<close> is 1 and \<^verbatim>\<open>false\<close> is 0;
  strings, arrays and objects are converted by the parameter \<open>coerceToNumber\<close>.
\<close>

definition toNumber :: "'txt store_env \<Rightarrow> jsval \<Rightarrow> int option" where
  "toNumber env x =
     (case x of
        JUndefined \<Rightarrow> None
      | JNull \<Rightarrow> Some 0
      | JBool b \<Rightarrow> Some (if b then 1 else 0)
      | JNum n \<Rightarrow> Some n
      | JNaN \<Rightarrow> None
      | _ \<Rightarrow> coerceToNumber env x)"

definition mathMax :: "'txt store_env \<Rightarrow> jsval \<Rightarrow> jsval \<Rightarrow> jsval" where
  "mathMax env a b =
     (case toNumber env a of
        None \<Rightarrow> JNaN
      | Some x \<Rightarrow> (case toNumber env b of None \<Rightarrow> JNaN | Some y \<Rightarrow> JNum (max x y)))"

text \<open>\<^verbatim>\<open>existing?.updatedAt ?? 0\<close>: the field, or 0 when it is \<^verbatim>\<open>undefined\<close> or \<^verbatim>\<open>null\<close>.\<close>

definition updatedAtOrZero :: "jsval \<Rightarrow> jsval" where
  "updatedAtOrZero existing =
     (let updatedAt = jsGet existing ''updatedAt''
      in if updatedAt = JUndefined \<or> updatedAt = JNull then JNum 0 else updatedAt)"

definition updateLastRouteLocked ::
  "'txt store_env \<Rightarrow> RouteParams \<Rightarrow> 'txt store_world
     \<Rightarrow> ('x store_error + jsval) \<times> 'txt store_world" where
  "updateLastRouteLocked env params w =
     (case loadSessionStore env (rp_storePath params) False w of
        (store, w1) \<Rightarrow>
          (let existing = getProp store (rp_sessionKey params);
               now = clock w1;
               explicitContext = normalizeDeliveryContext env (rp_deliveryContext params);
               inlineContext =
                 normalizeDeliveryContext env
                   (JObj [(''channel'', rp_channel params), (''to'', rp_to params),
                          (''accountId'', rp_accountId params), (''threadId'', rp_threadId params)]);
               mergedInput = mergeDeliveryContext env explicitContext inlineContext;
               merged = mergeDeliveryContext env mergedInput (deliveryContextFromSession env existing);
               normalized =
                 normalizeSessionDeliveryFields env
                   (JObj [(''deliveryContext'',
                           JObj [(''channel'', jsGet merged ''channel''), (''to'', jsGet merged ''to''),
                                 (''accountId'', jsGet merged ''accountId''),
                                 (''threadId'', jsGet merged ''threadId'')])]);
               metaPatch =
                 (case rp_ctx params of
                    Some ctx \<Rightarrow>
                      deriveSessionMetaPatch env ctx (rp_sessionKey params) existing
                        (rp_groupResolution params)
                  | None \<Rightarrow> None);
               basePatch =
                 [(''updatedAt'', mathMax env (updatedAtOrZero existing) (JNum now)),
                  (''deliveryContext'', jsGet normalized ''deliveryContext''),
                  (''lastChannel'', jsGet normalized ''lastChannel''),
                  (''lastTo'', jsGet normalized ''lastTo''),
                  (''lastAccountId'', jsGet normalized ''lastAccountId''),
                  (''lastThreadId'', jsGet normalized ''lastThreadId'')];
               next =
                 mergeSessionEntry existing
                   (case metaPatch of Some mp \<Rightarrow> spread basePatch mp | None \<Rightarrow> basePatch)
           in case saveSessionStoreUnlocked env (rp_storePath params)
                     (setProp store (rp_sessionKey params) next) w1 of
                (saved, w2) \<Rightarrow> (Inr next, w2)))"

definition updateLastRoute ::
  "'txt store_env \<Rightarrow> RouteParams \<Rightarrow> 'txt store_world
     \<Rightarrow> ('x store_error + jsval) \<times> 'txt store_world" where
  "updateLastRoute env params w =
     withSessionStoreLock env (rp_storePath params) (updateLastRouteLocked env params) w"

subsection \<open>A concrete store\<close>

text \<open>
  An instance of the parameters with an idealised codec: a text is either the JSON value
  it denotes or garbage. The delivery helpers return nothing, so normalisation leaves
  entries without delivery fields as they are; the metadata patch records the message
  context as \<^verbatim>\<open>origin\<close>. The number coercion is given on strings of decimal digits (the
  empty string is 0); the stores below hold numbers wherever a number is read.
\<close>

datatype sample_text = JsonText jsval | GarbageText

fun decimalValue :: "string \<Rightarrow> int \<Rightarrow> int option" where
  "decimalValue [] acc = Some acc"
| "decimalValue (ch # rest) acc =
     (if 48 \<le> (of_char ch :: nat) \<and> (of_char ch :: nat) \<le> 57
      then decimalValue rest (10 * acc + int (of_char ch) - 48)
      else None)"

definition sampleCoerceToNumber :: "jsval \<Rightarrow> int option" where
  "sampleCoerceToNumber x = (case x of JStr s \<Rightarrow> decimalValue s 0 | _ \<Rightarrow> None)"

definition sampleStoreEnv :: "sample_text store_env" where
  "sampleStoreEnv =
     \<lparr> json5_parse = (\<lambda>t. case t of JsonText v \<Rightarrow> Some v | GarbageText \<Rightarrow> None),
       json_stringify = JsonText,
       cacheEnabled = True,
       cacheTtlMs = 45000,
       processPid = 4242,
       normalizeSessionDeliveryFields = (\<lambda>entry. JObj []),
       normalizeDeliveryContext = (\<lambda>c. JUndefined),
       mergeDeliveryContext = (\<lambda>a b. JUndefined),
       deliveryContextFromSession = (\<lambda>entry. JUndefined),
       deriveSessionMetaPatch = (\<lambda>ctx k entry g. Some [(''origin'', ctx)]),
       coerceToNumber = sampleCoerceToNumber \<rparr>"

text \<open>What the environment does between calls: another process writes a file; time passes.\<close>

definition otherProcessWrites :: "string \<Rightarrow> 'txt \<Rightarrow> 'txt store_world \<Rightarrow> 'txt store_world" where
  "otherProcessWrites path content w =
     w\<lparr>files := (files w)(path \<mapsto> \<lparr> f_content = content, f_mtimeMs = clock w \<rparr>)\<rparr>"

definition timePasses :: "int \<Rightarrow> 'txt store_world \<Rightarrow> 'txt store_world" where
  "timePasses d w = w\<lparr>clock := clock w + d\<rparr>"

text \<open>A session entry with a counter, a store holding it under the key \<^verbatim>\<open>main\<close>.\<close>

definition counterEntry :: "int \<Rightarrow> int \<Rightarrow> jsval" where
  "counterEntry n t = JObj [(''sessionId'', JStr ''s1''), (''updatedAt'', JNum t), (''counter'', JNum n)]"

definition counterStore :: "int \<Rightarrow> int \<Rightarrow> jsobject" where
  "counterStore n t = [(''main'', counterEntry n t)]"

definition counterOf :: "jsval \<Rightarrow> int" where
  "counterOf entry = (case jsGet entry ''counter'' of JNum n \<Rightarrow> n | _ \<Rightarrow> 0)"

text \<open>The updater and the mutator that add one to the counter of an entry.\<close>

definition bumpEntry :: "jsval \<Rightarrow> unit + jsobject option" where
  "bumpEntry entry = Inr (Some [(''counter'', JNum (counterOf entry + 1))])"

definition bumpStore :: "jsobject \<Rightarrow> unit + unit \<times> jsobject" where
  "bumpStore store =
     Inr ((), setProp store ''main''
                (mergeSessionEntry (getProp store ''main'')
                   [(''counter'', JNum (counterOf (getProp store ''main'') + 1))]))"

text \<open>
  A world with the store file written at time 1000 and nothing cached; and the world
  after this process has loaded the store, another process has replaced the file within
  the same millisecond, and 10 ms have passed.
\<close>

definition freshWorld :: "sample_text store_world" where
  "freshWorld =
     \<lparr> files = (\<lambda>p. None)(''sessions.json'' \<mapsto>
                  \<lparr> f_content = JsonText (JObj (counterStore 1 900)), f_mtimeMs = 1000 \<rparr>),
       cache = (\<lambda>p. None),
       clock = 1000 \<rparr>"

definition staleCacheWorld :: "sample_text store_world" where
  "staleCacheWorld =
     timePasses 10
       (otherProcessWrites ''sessions.json'' (JsonText (JObj (counterStore 2 1000)))
          (snd (loadSessionStore sampleStoreEnv ''sessions.json'' False freshWorld)))"

text \<open>
  A store file with one entry that has both \<^verbatim>\<open>channel\<close> and \<^verbatim>\<open>provider\<close>, and one with
  the legacy names only.
\<close>

definition legacyWorld :: "sample_text store_world" where
  "legacyWorld =
     \<lparr> files = (\<lambda>p. None)(''sessions.json'' \<mapsto>
                  \<lparr> f_content =
                      JsonText (JObj
                        [(''both'', JObj [(''channel'', JStr ''telegram''), (''provider'', JStr ''whatsapp'')]),
                         (''old'', JObj [(''provider'', JStr ''whatsapp''), (''room'', JStr ''lobby'')])]),
                    f_mtimeMs = 1000 \<rparr>),
       cache = (\<lambda>p. None),
       clock = 1000 \<rparr>"

subsection \<open>What a migrated store looks like\<close>

text \<open>
  The state of an entry after the migration loop: no \<^verbatim>\<open>room\<close> property, and a string
  \<^verbatim>\<open>provider\<close> (or \<^verbatim>\<open>lastProvider\<close>) only next to a string \<^verbatim>\<open>channel\<close> (or
  \<^verbatim>\<open>lastChannel\<close>). A cache is migrated when every cached store is.
\<close>

definition entryMigrated :: "jsval \<Rightarrow> bool" where
  "entryMigrated entry =
     (case entry of
        JObj raw \<Rightarrow>
          \<not> hasProp raw ''room'' \<and>
          (isString (getProp raw ''provider'') \<longrightarrow> isString (getProp raw ''channel'')) \<and>
          (isString (getProp raw ''lastProvider'') \<longrightarrow> isString (getProp raw ''lastChannel''))
      | _ \<Rightarrow> True)"

definition storeMigrated :: "jsobject \<Rightarrow> bool" where
  "storeMigrated store = list_all (\<lambda>(k, entry). entryMigrated entry) store"

definition cacheMigrated :: "'txt store_world \<Rightarrow> bool" where
  "cacheMigrated w = (\<forall>p c. cache w p = Some c \<longrightarrow> storeMigrated (c_store c))"


text \<open>Parameters of \<^verbatim>\<open>updateLastRoute\<close> for the key \<^verbatim>\<open>main\<close>, with a message context.\<close>

definition sampleRouteParams :: RouteParams where
  "sampleRouteParams =
     \<lparr> rp_storePath = ''sessions.json'', rp_sessionKey = ''main'',
       rp_channel = JStr ''telegram'', rp_to = JStr ''+15551234567'',
       rp_accountId = JUndefined, rp_threadId = JUndefined,
       rp_deliveryContext = JUndefined, rp_ctx = Some (JStr ''inbound''),
       rp_groupResolution = JUndefined \<rparr>"

text \<open>A world whose stored entry has a timestamp in the future (5000, at time 1000).\<close>

definition futureWorld :: "sample_text store_world" where
  "futureWorld =
     \<lparr> files = (\<lambda>p. None)(''sessions.json'' \<mapsto>
                  \<lparr> f_content = JsonText (JObj (counterStore 1 5000)), f_mtimeMs = 1000 \<rparr>),
       cache = (\<lambda>p. None),
       clock = 1000 \<rparr>"

text \<open>
  The world after this process has loaded the store of \<open>freshWorld\<close> (timestamp 900),
  another process has replaced the file within the same millisecond by a store with the
  timestamp 5000, and 10 ms have passed; and the entry that a store file holds under a
  key.
\<close>

definition staleFutureWorld :: "sample_text store_world" where
  "staleFutureWorld =
     timePasses 10
       (otherProcessWrites ''sessions.json'' (JsonText (JObj (counterStore 2 5000)))
          (snd (loadSessionStore sampleStoreEnv ''sessions.json'' False freshWorld)))"

definition storedEntry :: "sample_text store_world \<Rightarrow> string \<Rightarrow> string \<Rightarrow> jsval" where
  "storedEntry w storePath sessionKey =
     (case files w storePath of
        None \<Rightarrow> JUndefined
      | Some f \<Rightarrow> (case f_content f of JsonText v \<Rightarrow> jsGet v sessionKey | GarbageText \<Rightarrow> JUndefined))"

text \<open>
  The entry with counter \<open>n\<close> as \<^verbatim>\<open>updateLastRoute\<close> with these parameters returns it
  with the timestamp \<open>t\<close>: the delivery fields are \<^verbatim>\<open>undefined\<close> (the delivery helpers of
  the instance return nothing) and the message context is recorded as \<^verbatim>\<open>origin\<close>.
\<close>

definition routedEntry :: "int \<Rightarrow> int \<Rightarrow> jsval" where
  "routedEntry n t =
     JObj [(''sessionId'', JStr ''s1''), (''updatedAt'', JNum t), (''counter'', JNum n),
           (''deliveryContext'', JUndefined), (''lastChannel'', JUndefined),
           (''lastTo'', JUndefined), (''lastAccountId'', JUndefined),
           (''lastThreadId'', JUndefined), (''origin'', JStr ''inbound'')]"

section \<open>Model fallback engine: properties\<close>


subsection \<open>One iteration, branch by branch\<close>

lemma loop_skip:
  "cooldownSkip env (world st) c \<Longrightarrow>
   fallbackLoop env tot i (c # cs) st =
     fallbackLoop env tot (Suc i) cs (st\<lparr>attempts := attempts st @ [cooldownAttempt c]\<rparr>)"
  by simp

lemma loop_success:
  "\<not> cooldownSkip env (world st) c \<Longrightarrow> run env (world st) (provider c) (model c) = (Inr r, wb) \<Longrightarrow>
   fallbackLoop env tot i (c # cs) st =
     (Some (Returned r (provider c) (model c) (attempts st)), afterRun st wb i)"
  by simp

lemma loop_abort:
  "\<not> cooldownSkip env (world st) c \<Longrightarrow> run env (world st) (provider c) (model c) = (Inl err, wb) \<Longrightarrow>
   shouldRethrowAbort env err \<Longrightarrow>
   fallbackLoop env tot i (c # cs) st = (Some (Rethrown err), afterRun st wb i)"
  by simp

lemma loop_nonfailover:
  "\<not> cooldownSkip env (world st) c \<Longrightarrow> run env (world st) (provider c) (model c) = (Inl err, wb) \<Longrightarrow>
   \<not> shouldRethrowAbort env err \<Longrightarrow> \<not> isFailoverError env (normalizeError env err c) \<Longrightarrow>
   fallbackLoop env tot i (c # cs) st = (Some (Rethrown err), afterRun st wb i)"
  by simp

lemma loop_observer_throws:
  "\<not> cooldownSkip env (world st) c \<Longrightarrow> run env (world st) (provider c) (model c) = (Inl err, wb) \<Longrightarrow>
   \<not> shouldRethrowAbort env err \<Longrightarrow> isFailoverError env (normalizeError env err c) \<Longrightarrow>
   notifyError env c (normalizeError env err c) i tot wb = (Some thrown, wc) \<Longrightarrow>
   fallbackLoop env tot i (c # cs) st =
     (Some (Rethrown thrown),
      afterNotify env (recordFailure env c (normalizeError env err c) (afterRun st wb i)) wc i)"
  by (simp add: Let_def)

lemma loop_advance:
  "\<not> cooldownSkip env (world st) c \<Longrightarrow> run env (world st) (provider c) (model c) = (Inl err, wb) \<Longrightarrow>
   \<not> shouldRethrowAbort env err \<Longrightarrow> isFailoverError env (normalizeError env err c) \<Longrightarrow>
   notifyError env c (normalizeError env err c) i tot wb = (None, wc) \<Longrightarrow>
   fallbackLoop env tot i (c # cs) st =
     fallbackLoop env tot (Suc i) cs
       (afterNotify env (recordFailure env c (normalizeError env err c) (afterRun st wb i)) wc i)"
  by (simp add: Let_def)

text \<open>The six branches are all there are.\<close>

lemma loop_cases [case_names skip success abort nonfailover observer advance]:
  assumes "cooldownSkip env (world st) c \<Longrightarrow> P"
    and "\<And>r wb. \<not> cooldownSkip env (world st) c \<Longrightarrow>
           run env (world st) (provider c) (model c) = (Inr r, wb) \<Longrightarrow> P"
    and "\<And>err wb. \<not> cooldownSkip env (world st) c \<Longrightarrow>
           run env (world st) (provider c) (model c) = (Inl err, wb) \<Longrightarrow>
           shouldRethrowAbort env err \<Longrightarrow> P"
    and "\<And>err wb. \<not> cooldownSkip env (world st) c \<Longrightarrow>
           run env (world st) (provider c) (model c) = (Inl err, wb) \<Longrightarrow>
           \<not> shouldRethrowAbort env err \<Longrightarrow> \<not> isFailoverError env (normalizeError env err c) \<Longrightarrow> P"
    and "\<And>err wb thrown wc. \<not> cooldownSkip env (world st) c \<Longrightarrow>
           run env (world st) (provider c) (model c) = (Inl err, wb) \<Longrightarrow>
           \<not> shouldRethrowAbort env err \<Longrightarrow> isFailoverError env (normalizeError env err c) \<Longrightarrow>
           notifyError env c (normalizeError env err c) i tot wb = (Some thrown, wc) \<Longrightarrow> P"
    and "\<And>err wb wc. \<not> cooldownSkip env (world st) c \<Longrightarrow>
           run env (world st) (provider c) (model c) = (Inl err, wb) \<Longrightarrow>
           \<not> shouldRethrowAbort env err \<Longrightarrow> isFailoverError env (normalizeError env err c) \<Longrightarrow>
           notifyError env c (normalizeError env err c) i tot wb = (None, wc) \<Longrightarrow> P"
  shows P
proof (cases "cooldownSkip env (world st) c")
  case True
  then show ?thesis by (rule assms(1))
next
  case nskip: False
  obtain out wb where r: "run env (world st) (provider c) (model c) = (out, wb)"
    by (cases "run env (world st) (provider c) (model c)")
  show ?thesis
  proof (cases out)
    case (Inr res)
    with nskip r show ?thesis by (auto intro: assms(2))
  next
    case (Inl err)
    note r' = r[unfolded Inl]
    show ?thesis
    proof (cases "shouldRethrowAbort env err")
      case True
      with nskip r' show ?thesis by (rule assms(3))
    next
      case nabort: False
      show ?thesis
      proof (cases "isFailoverError env (normalizeError env err c)")
        case False
        with nskip r' nabort show ?thesis by (rule assms(4))
      next
        case fo: True
        obtain thrown wc where n: "notifyError env c (normalizeError env err c) i tot wb = (thrown, wc)"
          by (cases "notifyError env c (normalizeError env err c) i tot wb")
        show ?thesis
        proof (cases thrown)
          case None
          with nskip r' nabort fo n show ?thesis by (auto intro: assms(6))
        next
          case (Some e)
          with nskip r' nabort fo n show ?thesis by (auto intro: assms(5))
        qed
      qed
    qed
  qed
qed


declare fallbackLoop.simps(2) [simp del]

subsection \<open>The log of run calls\<close>

lemma callsExtend_refl: "callsExtend b b i n"
  by (simp add: callsExtend_def)

lemma callsExtend_stop: "callsExtend b (b @ [i]) i (Suc n)"
  by (simp add: callsExtend_def)

lemma callsExtend_skip: "callsExtend b a (Suc i) n \<Longrightarrow> callsExtend b a i (Suc n)"
proof -
  assume "callsExtend b a (Suc i) n"
  then obtain xs where xs: "a = b @ xs" "sorted_wrt (<) xs" "\<forall>x\<in>set xs. Suc i \<le> x \<and> x < Suc i + n"
    by (auto simp: callsExtend_def)
  have "\<forall>x\<in>set xs. i \<le> x \<and> x < i + Suc n"
  proof
    fix x assume "x \<in> set xs"
    with xs(3) have "Suc i \<le> x \<and> x < Suc i + n" by blast
    then show "i \<le> x \<and> x < i + Suc n" by arith
  qed
  with xs(1,2) show ?thesis unfolding callsExtend_def by blast
qed

lemma callsExtend_step: "callsExtend (b @ [i]) a (Suc i) n \<Longrightarrow> callsExtend b a i (Suc n)"
proof -
  assume "callsExtend (b @ [i]) a (Suc i) n"
  then obtain xs where xs: "a = (b @ [i]) @ xs" "sorted_wrt (<) xs" "\<forall>x\<in>set xs. Suc i \<le> x \<and> x < Suc i + n"
    by (auto simp: callsExtend_def)
  have "a = b @ (i # xs)" using xs(1) by simp
  moreover have "sorted_wrt (<) (i # xs)" using xs(2,3) by auto
  moreover have "\<forall>x\<in>set (i # xs). i \<le> x \<and> x < i + Suc n" using xs(3) by auto
  ultimately show ?thesis unfolding callsExtend_def by blast
qed

lemma runCalls_afterRun [simp]: "runCalls (afterRun st wb i) = runCalls st @ [i]"
  by (simp add: afterRun_def)

lemma runCalls_recordFailure [simp]: "runCalls (recordFailure env c e st) = runCalls st"
  by (simp add: recordFailure_def)

lemma runCalls_afterNotify [simp]: "runCalls (afterNotify env st wc i) = runCalls st"
  by (simp add: afterNotify_def)

lemma attempts_afterRun [simp]: "attempts (afterRun st wb i) = attempts st"
  by (simp add: afterRun_def)

lemma attempts_recordFailure [simp]:
  "attempts (recordFailure env c e st) = attempts st @ [failedAttempt c (describeFailoverError env e)]"
  by (simp add: recordFailure_def)

lemma attempts_afterNotify [simp]: "attempts (afterNotify env st wc i) = attempts st"
  by (simp add: afterNotify_def)

lemma lastError_afterRun [simp]: "lastError (afterRun st wb i) = lastError st"
  by (simp add: afterRun_def)

lemma lastError_recordFailure [simp]: "lastError (recordFailure env c e st) = Some e"
  by (simp add: recordFailure_def)

lemma lastError_afterNotify [simp]: "lastError (afterNotify env st wc i) = lastError st"
  by (simp add: afterNotify_def)

lemma world_afterRun [simp]: "world (afterRun st wb i) = wb"
  by (simp add: afterRun_def)

lemma world_afterNotify [simp]: "world (afterNotify env st wc i) = wc"
  by (simp add: afterNotify_def)

lemma errorCalls_afterRun [simp]: "errorCalls (afterRun st wb i) = errorCalls st"
  by (simp add: afterRun_def)

lemma errorCalls_recordFailure [simp]: "errorCalls (recordFailure env c e st) = errorCalls st"
  by (simp add: recordFailure_def)

lemma runCalls_shape:
  "callsExtend (runCalls st) (runCalls (snd (fallbackLoop env tot i cs st))) i (length cs)"
proof (induction cs arbitrary: i st)
  case Nil
  show ?case by (simp add: callsExtend_refl)
next
  case (Cons c cs)
  show ?case
  proof (cases rule: loop_cases[where env=env and st=st and c=c and i=i and tot=tot])
    case skip
    then show ?thesis
      using Cons.IH[of "st\<lparr>attempts := attempts st @ [cooldownAttempt c]\<rparr>" "Suc i"]
      by (simp add: loop_skip callsExtend_skip)
  next
    case (success r wb)
    then show ?thesis by (simp add: loop_success callsExtend_stop)
  next
    case (abort err wb)
    then show ?thesis by (simp add: loop_abort callsExtend_stop)
  next
    case (nonfailover err wb)
    then show ?thesis by (simp add: loop_nonfailover callsExtend_stop)
  next
    case (observer err wb thrown wc)
    then show ?thesis by (simp add: loop_observer_throws callsExtend_stop)
  next
    case (advance err wb wc)
    let ?stb = "afterNotify env (recordFailure env c (normalizeError env err c) (afterRun st wb i)) wc i"
    have "callsExtend (runCalls st @ [i]) (runCalls (snd (fallbackLoop env tot (Suc i) cs ?stb))) (Suc i) (length cs)"
      using Cons.IH[of ?stb "Suc i"] by simp
    then show ?thesis using advance by (simp add: loop_advance callsExtend_step)
  qed
qed

lemma attempts_grow:
  "prefix (attempts st) (attempts (snd (fallbackLoop env tot i cs st)))"
proof (induction cs arbitrary: i st)
  case Nil
  show ?case by simp
next
  case (Cons c cs)
  show ?case
  proof (cases rule: loop_cases[where env=env and st=st and c=c and i=i and tot=tot])
    case skip
    have "prefix (attempts st @ [cooldownAttempt c])
            (attempts (snd (fallbackLoop env tot (Suc i) cs (st\<lparr>attempts := attempts st @ [cooldownAttempt c]\<rparr>))))"
      using Cons.IH[of "st\<lparr>attempts := attempts st @ [cooldownAttempt c]\<rparr>" "Suc i"] by simp
    then show ?thesis using skip by (simp add: loop_skip append_prefixD)
  next
    case (success r wb)
    then show ?thesis by (simp add: loop_success)
  next
    case (abort err wb)
    then show ?thesis by (simp add: loop_abort)
  next
    case (nonfailover err wb)
    then show ?thesis by (simp add: loop_nonfailover)
  next
    case (observer err wb thrown wc)
    then show ?thesis by (simp add: loop_observer_throws)
  next
    case (advance err wb wc)
    let ?stb = "afterNotify env (recordFailure env c (normalizeError env err c) (afterRun st wb i)) wc i"
    have "prefix (attempts st @ [failedAttempt c (describeFailoverError env (normalizeError env err c))])
            (attempts (snd (fallbackLoop env tot (Suc i) cs ?stb)))"
      using Cons.IH[of ?stb "Suc i"] by simp
    then show ?thesis using advance by (simp add: loop_advance append_prefixD)
  qed
qed


lemma returned_shape:
  "fallbackLoop env tot i cs st = (Some (Returned r p m atts), st') \<Longrightarrow>
   \<exists>k<length cs. p = provider (cs ! k) \<and> m = model (cs ! k) \<and>
      atts = attempts st' \<and> length atts = length (attempts st) + k \<and>
      (\<exists>pre. runCalls st' = runCalls st @ pre @ [i + k] \<and> sorted_wrt (<) pre \<and>
             (\<forall>x\<in>set pre. i \<le> x \<and> x < i + k)) \<and>
      (\<exists>wa. run env wa p m = (Inr r, world st'))"
proof (induction cs arbitrary: i st)
  case Nil
  then show ?case by simp
next
  case (Cons c cs)
  show ?case
  proof (cases rule: loop_cases[where env=env and st=st and c=c and i=i and tot=tot])
    case skip
    let ?sta = "st\<lparr>attempts := attempts st @ [cooldownAttempt c]\<rparr>"
    from skip Cons.prems have "fallbackLoop env tot (Suc i) cs ?sta = (Some (Returned r p m atts), st')"
      by (simp add: loop_skip)
    from Cons.IH[OF this] obtain k pre wa where k: "k < length cs" "p = provider (cs ! k)" "m = model (cs ! k)"
      "atts = attempts st'" "length atts = length (attempts ?sta) + k"
      "runCalls st' = runCalls ?sta @ pre @ [Suc i + k]" "sorted_wrt (<) pre"
      "\<forall>x\<in>set pre. Suc i \<le> x \<and> x < Suc i + k" "run env wa p m = (Inr r, world st')"
      by blast
    have "\<forall>x\<in>set pre. i \<le> x \<and> x < i + Suc k"
    proof
      fix x assume "x \<in> set pre"
      with k(8) have "Suc i \<le> x \<and> x < Suc i + k" by blast
      then show "i \<le> x \<and> x < i + Suc k" by arith
    qed
    with k have "Suc k < length (c # cs) \<and> p = provider ((c # cs) ! Suc k) \<and> m = model ((c # cs) ! Suc k) \<and>
      atts = attempts st' \<and> length atts = length (attempts st) + Suc k \<and>
      (\<exists>pre. runCalls st' = runCalls st @ pre @ [i + Suc k] \<and> sorted_wrt (<) pre \<and>
             (\<forall>x\<in>set pre. i \<le> x \<and> x < i + Suc k)) \<and>
      (\<exists>wa. run env wa p m = (Inr r, world st'))"
      by auto
    then show ?thesis by blast
  next
    case (success r' wb)
    with Cons.prems have eq: "r = r'" "p = provider c" "m = model c" "atts = attempts st" "st' = afterRun st wb i"
      by (simp_all add: loop_success)
    have "0 < length (c # cs) \<and> p = provider ((c # cs) ! 0) \<and> m = model ((c # cs) ! 0) \<and>
      atts = attempts st' \<and> length atts = length (attempts st) + 0 \<and>
      (\<exists>pre. runCalls st' = runCalls st @ pre @ [i + 0] \<and> sorted_wrt (<) pre \<and>
             (\<forall>x\<in>set pre. i \<le> x \<and> x < i + 0)) \<and>
      (\<exists>wa. run env wa p m = (Inr r, world st'))"
      using eq success(2) by auto
    then show ?thesis by blast
  next
    case (abort err wb)
    with Cons.prems show ?thesis by (simp add: loop_abort)
  next
    case (nonfailover err wb)
    with Cons.prems show ?thesis by (simp add: loop_nonfailover)
  next
    case (observer err wb thrown wc)
    with Cons.prems show ?thesis by (simp add: loop_observer_throws)
  next
    case (advance err wb wc)
    let ?stb = "afterNotify env (recordFailure env c (normalizeError env err c) (afterRun st wb i)) wc i"
    from advance Cons.prems have "fallbackLoop env tot (Suc i) cs ?stb = (Some (Returned r p m atts), st')"
      by (simp add: loop_advance)
    from Cons.IH[OF this] obtain k pre wa where k: "k < length cs" "p = provider (cs ! k)" "m = model (cs ! k)"
      "atts = attempts st'" "length atts = length (attempts ?stb) + k"
      "runCalls st' = runCalls ?stb @ pre @ [Suc i + k]" "sorted_wrt (<) pre"
      "\<forall>x\<in>set pre. Suc i \<le> x \<and> x < Suc i + k" "run env wa p m = (Inr r, world st')"
      by blast
    have b: "\<forall>x\<in>set (i # pre). i \<le> x \<and> x < i + Suc k"
    proof
      fix x assume "x \<in> set (i # pre)"
      then have "x = i \<or> x \<in> set pre" by simp
      then show "i \<le> x \<and> x < i + Suc k"
      proof
        assume "x = i" then show ?thesis by simp
      next
        assume "x \<in> set pre"
        with k(8) have "Suc i \<le> x \<and> x < Suc i + k" by blast
        then show ?thesis by arith
      qed
    qed
    have s: "sorted_wrt (<) (i # pre)" using k(7,8) by auto
    have rc: "runCalls st' = runCalls st @ (i # pre) @ [i + Suc k]" using k(6) by simp
    have "Suc k < length (c # cs) \<and> p = provider ((c # cs) ! Suc k) \<and> m = model ((c # cs) ! Suc k) \<and>
      atts = attempts st' \<and> length atts = length (attempts st) + Suc k \<and>
      (\<exists>pre. runCalls st' = runCalls st @ pre @ [i + Suc k] \<and> sorted_wrt (<) pre \<and>
             (\<forall>x\<in>set pre. i \<le> x \<and> x < i + Suc k)) \<and>
      (\<exists>wa. run env wa p m = (Inr r, world st'))"
      using k(1-5,9) b s rc by (intro conjI exI[of _ "i # pre"] exI[of _ wa]) simp_all
    then show ?thesis by blast
  qed
qed


lemma loop_append:
  "fallbackLoop env tot i pre st = (None, sta) \<Longrightarrow>
   fallbackLoop env tot i (pre @ cs) st = fallbackLoop env tot (i + length pre) cs sta"
proof (induction pre arbitrary: i st)
  case Nil
  then show ?case by simp
next
  case (Cons c pre)
  show ?case
  proof (cases rule: loop_cases[where env=env and st=st and c=c and i=i and tot=tot])
    case skip
    with Cons.prems
    have "fallbackLoop env tot (Suc i) pre (st\<lparr>attempts := attempts st @ [cooldownAttempt c]\<rparr>) = (None, sta)"
      by (simp add: loop_skip)
    from Cons.IH[OF this] skip show ?thesis by (simp add: loop_skip)
  next
    case (success r wb)
    with Cons.prems show ?thesis by (simp add: loop_success)
  next
    case (abort err wb)
    with Cons.prems show ?thesis by (simp add: loop_abort)
  next
    case (nonfailover err wb)
    with Cons.prems show ?thesis by (simp add: loop_nonfailover)
  next
    case (observer err wb thrown wc)
    with Cons.prems show ?thesis by (simp add: loop_observer_throws)
  next
    case (advance err wb wc)
    with Cons.prems
    have "fallbackLoop env tot (Suc i) pre
            (afterNotify env (recordFailure env c (normalizeError env err c) (afterRun st wb i)) wc i) = (None, sta)"
      by (simp add: loop_advance)
    from Cons.IH[OF this] advance show ?thesis by (simp add: loop_advance)
  qed
qed

lemma fellthrough_shape:
  "fallbackLoop env tot i cs st = (None, st') \<Longrightarrow>
   length (attempts st') = length (attempts st) + length cs \<and>
   (lastError st' = lastError st \<and> runCalls st' = runCalls st \<or>
    (\<exists>k<length cs. \<exists>wa err wb.
        run env wa (provider (cs ! k)) (model (cs ! k)) = (Inl err, wb) \<and>
        \<not> shouldRethrowAbort env err \<and>
        isFailoverError env (normalizeError env err (cs ! k)) \<and>
        lastError st' = Some (normalizeError env err (cs ! k)) \<and>
        runCalls st' \<noteq> [] \<and> last (runCalls st') = i + k))"
proof (induction cs arbitrary: i st)
  case Nil
  then show ?case by simp
next
  case (Cons c cs)
  show ?case
  proof (cases rule: loop_cases[where env=env and st=st and c=c and i=i and tot=tot])
    case skip
    let ?sta = "st\<lparr>attempts := attempts st @ [cooldownAttempt c]\<rparr>"
    from skip Cons.prems have "fallbackLoop env tot (Suc i) cs ?sta = (None, st')"
      by (simp add: loop_skip)
    from Cons.IH[OF this] have len: "length (attempts st') = length (attempts ?sta) + length cs"
      and d: "lastError st' = lastError ?sta \<and> runCalls st' = runCalls ?sta \<or>
        (\<exists>k<length cs. \<exists>wa err wb.
        run env wa (provider (cs ! k)) (model (cs ! k)) = (Inl err, wb) \<and>
        \<not> shouldRethrowAbort env err \<and>
        isFailoverError env (normalizeError env err (cs ! k)) \<and>
        lastError st' = Some (normalizeError env err (cs ! k)) \<and>
        runCalls st' \<noteq> [] \<and> last (runCalls st') = Suc i + k)"
      by blast+
    from d show ?thesis
    proof
      assume "lastError st' = lastError ?sta \<and> runCalls st' = runCalls ?sta"
      with len show ?thesis by simp
    next
      assume "\<exists>k<length cs. \<exists>wa err wb.
        run env wa (provider (cs ! k)) (model (cs ! k)) = (Inl err, wb) \<and>
        \<not> shouldRethrowAbort env err \<and>
        isFailoverError env (normalizeError env err (cs ! k)) \<and>
        lastError st' = Some (normalizeError env err (cs ! k)) \<and>
        runCalls st' \<noteq> [] \<and> last (runCalls st') = Suc i + k"
      then obtain k wa err wb where k: "k < length cs"
        "run env wa (provider (cs ! k)) (model (cs ! k)) = (Inl err, wb)"
        "\<not> shouldRethrowAbort env err"
        "isFailoverError env (normalizeError env err (cs ! k))"
        "lastError st' = Some (normalizeError env err (cs ! k))"
        "runCalls st' \<noteq> []" "last (runCalls st') = Suc i + k" by blast
      then have "Suc k < length (c # cs) \<and>
        run env wa (provider ((c # cs) ! Suc k)) (model ((c # cs) ! Suc k)) = (Inl err, wb) \<and>
        \<not> shouldRethrowAbort env err \<and>
        isFailoverError env (normalizeError env err ((c # cs) ! Suc k)) \<and>
        lastError st' = Some (normalizeError env err ((c # cs) ! Suc k)) \<and>
        runCalls st' \<noteq> [] \<and> last (runCalls st') = i + Suc k" by simp
      then have "\<exists>k<length (c # cs). \<exists>wa err wb.
        run env wa (provider ((c # cs) ! k)) (model ((c # cs) ! k)) = (Inl err, wb) \<and>
        \<not> shouldRethrowAbort env err \<and>
        isFailoverError env (normalizeError env err ((c # cs) ! k)) \<and>
        lastError st' = Some (normalizeError env err ((c # cs) ! k)) \<and>
        runCalls st' \<noteq> [] \<and> last (runCalls st') = i + k" by blast
      with len show ?thesis by simp
    qed
  next
    case (success r wb)
    with Cons.prems show ?thesis by (simp add: loop_success)
  next
    case (abort err wb)
    with Cons.prems show ?thesis by (simp add: loop_abort)
  next
    case (nonfailover err wb)
    with Cons.prems show ?thesis by (simp add: loop_nonfailover)
  next
    case (observer err wb thrown wc)
    with Cons.prems show ?thesis by (simp add: loop_observer_throws)
  next
    case (advance err wb wc)
    let ?stb = "afterNotify env (recordFailure env c (normalizeError env err c) (afterRun st wb i)) wc i"
    from advance Cons.prems have "fallbackLoop env tot (Suc i) cs ?stb = (None, st')"
      by (simp add: loop_advance)
    from Cons.IH[OF this] have len: "length (attempts st') = length (attempts ?stb) + length cs"
      and d: "lastError st' = lastError ?stb \<and> runCalls st' = runCalls ?stb \<or>
        (\<exists>k<length cs. \<exists>wa err wb.
        run env wa (provider (cs ! k)) (model (cs ! k)) = (Inl err, wb) \<and>
        \<not> shouldRethrowAbort env err \<and>
        isFailoverError env (normalizeError env err (cs ! k)) \<and>
        lastError st' = Some (normalizeError env err (cs ! k)) \<and>
        runCalls st' \<noteq> [] \<and> last (runCalls st') = Suc i + k)"
      by blast+
    have "\<exists>k<length (c # cs). \<exists>wa err wb.
        run env wa (provider ((c # cs) ! k)) (model ((c # cs) ! k)) = (Inl err, wb) \<and>
        \<not> shouldRethrowAbort env err \<and>
        isFailoverError env (normalizeError env err ((c # cs) ! k)) \<and>
        lastError st' = Some (normalizeError env err ((c # cs) ! k)) \<and>
        runCalls st' \<noteq> [] \<and> last (runCalls st') = i + k"
      using d
    proof
      assume "lastError st' = lastError ?stb \<and> runCalls st' = runCalls ?stb"
      then have "0 < length (c # cs) \<and>
        run env (world st) (provider ((c # cs) ! 0)) (model ((c # cs) ! 0)) = (Inl err, wb) \<and>
        \<not> shouldRethrowAbort env err \<and>
        isFailoverError env (normalizeError env err ((c # cs) ! 0)) \<and>
        lastError st' = Some (normalizeError env err ((c # cs) ! 0)) \<and>
        runCalls st' \<noteq> [] \<and> last (runCalls st') = i + 0"
        using advance by simp
      then show ?thesis by blast
    next
      assume "\<exists>k<length cs. \<exists>wa err wb.
        run env wa (provider (cs ! k)) (model (cs ! k)) = (Inl err, wb) \<and>
        \<not> shouldRethrowAbort env err \<and>
        isFailoverError env (normalizeError env err (cs ! k)) \<and>
        lastError st' = Some (normalizeError env err (cs ! k)) \<and>
        runCalls st' \<noteq> [] \<and> last (runCalls st') = Suc i + k"
      then obtain k wa err wb where k: "k < length cs"
        "run env wa (provider (cs ! k)) (model (cs ! k)) = (Inl err, wb)"
        "\<not> shouldRethrowAbort env err"
        "isFailoverError env (normalizeError env err (cs ! k))"
        "lastError st' = Some (normalizeError env err (cs ! k))"
        "runCalls st' \<noteq> []" "last (runCalls st') = Suc i + k" by blast
      then have "Suc k < length (c # cs) \<and>
        run env wa (provider ((c # cs) ! Suc k)) (model ((c # cs) ! Suc k)) = (Inl err, wb) \<and>
        \<not> shouldRethrowAbort env err \<and>
        isFailoverError env (normalizeError env err ((c # cs) ! Suc k)) \<and>
        lastError st' = Some (normalizeError env err ((c # cs) ! Suc k)) \<and>
        runCalls st' \<noteq> [] \<and> last (runCalls st') = i + Suc k" by simp
      then show ?thesis by blast
    qed
    with len show ?thesis by simp
  qed
qed


lemma snd_runWithModelFallback:
  "snd (runWithModelFallback env cands w) =
     snd (fallbackLoop env (length cands) 0 cands (initialLoopState w))"
  by (simp add: runWithModelFallback_def split: prod.splits option.splits)

lemma run_logged:
  "\<not> cooldownSkip env (world st) c \<Longrightarrow> i \<in> set (runCalls (snd (fallbackLoop env tot i (c # cs) st)))"
proof (cases rule: loop_cases[where env=env and st=st and c=c and i=i and tot=tot])
  case skip
  assume "\<not> cooldownSkip env (world st) c"
  with skip show ?thesis by simp
next
  case (success r wb)
  then show ?thesis by (simp add: loop_success)
next
  case (abort err wb)
  then show ?thesis by (simp add: loop_abort)
next
  case (nonfailover err wb)
  then show ?thesis by (simp add: loop_nonfailover)
next
  case (observer err wb thrown wc)
  then show ?thesis by (simp add: loop_observer_throws)
next
  case (advance err wb wc)
  let ?stb = "afterNotify env (recordFailure env c (normalizeError env err c) (afterRun st wb i)) wc i"
  from runCalls_shape[of ?stb env tot "Suc i" cs]
  obtain xs where "runCalls (snd (fallbackLoop env tot (Suc i) cs ?stb)) = runCalls ?stb @ xs"
    by (auto simp: callsExtend_def)
  then show ?thesis using advance by (simp add: loop_advance)
qed

text \<open>
  Claim C5. Candidates are tried strictly in order, and the first successful run ends the
  call. When the loop has reached candidate \<open>c\<close> (the candidates \<open>pre\<close> before it were
  skipped or failed over, so none of them succeeded) and \<^verbatim>\<open>run\<close> succeeds for \<open>c\<close>, the
  call returns at once with that result, the provider and model of \<open>c\<close> and the attempts
  recorded so far, one for each earlier candidate; \<^verbatim>\<open>run\<close> was invoked at strictly
  increasing indices before that of \<open>c\<close>, then for \<open>c\<close>, and for no candidate of
  \<open>rest\<close>. Conversely, whenever the call returns, the result, provider and model are
  those of one candidate \<open>k\<close>, the returned attempts are one for each of the \<open>k\<close> earlier
  candidates, and \<^verbatim>\<open>run\<close> was invoked at strictly increasing indices ending in \<open>k\<close>. With
  candidates \<open>[A, B, C]\<close> where \<open>A\<close> and \<open>B\<close> fail with failover-eligible errors and \<open>C\<close>
  succeeds, the result uses \<open>C\<close> and the attempts are the two failures.
\<close>

theorem fallback_returns_first_success:
  "(fallbackLoop env (length (pre @ c # rest)) 0 pre (initialLoopState ws) = (None, st) \<and>
    \<not> cooldownSkip env (world st) c \<and>
    run env (world st) (provider c) (model c) = (Inr rv, wr) \<longrightarrow>
      runWithModelFallback env (pre @ c # rest) ws =
        (Returned rv (provider c) (model c) (attempts st), afterRun st wr (length pre)) \<and>
      length (attempts st) = length pre \<and>
      runCalls (afterRun st wr (length pre)) = runCalls st @ [length pre] \<and>
      sorted_wrt (<) (runCalls st) \<and>
      (\<forall>x\<in>set (runCalls st). x < length pre)) \<and>
   (runWithModelFallback env cands w = (Returned r p m atts, st') \<longrightarrow>
      (\<exists>k<length cands. p = provider (cands ! k) \<and> m = model (cands ! k) \<and>
          atts = attempts st' \<and> length atts = k \<and>
          (\<exists>xs. runCalls st' = xs @ [k] \<and> sorted_wrt (<) xs \<and> (\<forall>x\<in>set xs. x < k)) \<and>
          (\<exists>wa. run env wa p m = (Inr r, world st')))) \<and>
   (\<not> cooldownSkip env wa A \<and> run env wa (provider A) (model A) = (Inl eA, wb) \<and>
    \<not> shouldRethrowAbort env eA \<and> isFailoverError env (normalizeError env eA A) \<and>
    notifyError env A (normalizeError env eA A) 0 3 wb = (None, wc) \<and>
    \<not> cooldownSkip env wc B \<and> run env wc (provider B) (model B) = (Inl eB, wd) \<and>
    \<not> shouldRethrowAbort env eB \<and> isFailoverError env (normalizeError env eB B) \<and>
    notifyError env B (normalizeError env eB B) 1 3 wd = (None, we) \<and>
    \<not> cooldownSkip env we C \<and> run env we (provider C) (model C) = (Inr res, wg) \<longrightarrow>
      fst (runWithModelFallback env [A, B, C] wa) =
        Returned res (provider C) (model C)
          [failedAttempt A (describeFailoverError env (normalizeError env eA A)),
           failedAttempt B (describeFailoverError env (normalizeError env eB B))] \<and>
      runCalls (snd (runWithModelFallback env [A, B, C] wa)) = [0, 1, 2])"
proof (intro conjI impI)
  assume h: "fallbackLoop env (length (pre @ c # rest)) 0 pre (initialLoopState ws) = (None, st) \<and>
    \<not> cooldownSkip env (world st) c \<and>
    run env (world st) (provider c) (model c) = (Inr rv, wr)"
  then have "fallbackLoop env (length (pre @ c # rest)) 0 (pre @ c # rest) (initialLoopState ws) =
               fallbackLoop env (length (pre @ c # rest)) (0 + length pre) (c # rest) st"
    by (intro loop_append) simp
  also have "\<dots> = (Some (Returned rv (provider c) (model c) (attempts st)), afterRun st wr (length pre))"
    using h by (simp add: loop_success)
  finally show "runWithModelFallback env (pre @ c # rest) ws =
        (Returned rv (provider c) (model c) (attempts st), afterRun st wr (length pre))"
    unfolding runWithModelFallback_def by simp
next
  assume h: "fallbackLoop env (length (pre @ c # rest)) 0 pre (initialLoopState ws) = (None, st) \<and>
    \<not> cooldownSkip env (world st) c \<and>
    run env (world st) (provider c) (model c) = (Inr rv, wr)"
  from fellthrough_shape[of env "length (pre @ c # rest)" 0 pre "initialLoopState ws" st] h
  show "length (attempts st) = length pre" by (simp add: initialLoopState_def)
next
  show "runCalls (afterRun st wr (length pre)) = runCalls st @ [length pre]" by simp
next
  assume h: "fallbackLoop env (length (pre @ c # rest)) 0 pre (initialLoopState ws) = (None, st) \<and>
    \<not> cooldownSkip env (world st) c \<and>
    run env (world st) (provider c) (model c) = (Inr rv, wr)"
  then have st: "st = snd (fallbackLoop env (length (pre @ c # rest)) 0 pre (initialLoopState ws))"
    by simp
  have "callsExtend (runCalls (initialLoopState ws :: ('a, 'c) loop_state)) (runCalls st) 0 (length pre)"
    unfolding st by (rule runCalls_shape)
  then show "sorted_wrt (<) (runCalls st)"
    by (auto simp: callsExtend_def initialLoopState_def)
next
  assume h: "fallbackLoop env (length (pre @ c # rest)) 0 pre (initialLoopState ws) = (None, st) \<and>
    \<not> cooldownSkip env (world st) c \<and>
    run env (world st) (provider c) (model c) = (Inr rv, wr)"
  then have st: "st = snd (fallbackLoop env (length (pre @ c # rest)) 0 pre (initialLoopState ws))"
    by simp
  have "callsExtend (runCalls (initialLoopState ws :: ('a, 'c) loop_state)) (runCalls st) 0 (length pre)"
    unfolding st by (rule runCalls_shape)
  then show "\<forall>x\<in>set (runCalls st). x < length pre"
    by (auto simp: callsExtend_def initialLoopState_def)
next
  assume a: "runWithModelFallback env cands w = (Returned r p m atts, st')"
  obtain out sta where l: "fallbackLoop env (length cands) 0 cands (initialLoopState w) = (out, sta)"
    by (cases "fallbackLoop env (length cands) 0 cands (initialLoopState w)")
  have ex: "exhausted env (length cands) sta \<noteq> Returned r p m atts"
    by (simp add: exhausted_def aggregateError_def split: option.splits)
  from a l ex have "fallbackLoop env (length cands) 0 cands (initialLoopState w) = (Some (Returned r p m atts), st')"
    by (cases out) (auto simp: runWithModelFallback_def)
  from returned_shape[OF this]
  show "\<exists>k<length cands. p = provider (cands ! k) \<and> m = model (cands ! k) \<and>
          atts = attempts st' \<and> length atts = k \<and>
          (\<exists>xs. runCalls st' = xs @ [k] \<and> sorted_wrt (<) xs \<and> (\<forall>x\<in>set xs. x < k)) \<and>
          (\<exists>wa. run env wa p m = (Inr r, world st'))"
    by (auto simp: initialLoopState_def)
next
  assume h: "\<not> cooldownSkip env wa A \<and> run env wa (provider A) (model A) = (Inl eA, wb) \<and>
    \<not> shouldRethrowAbort env eA \<and> isFailoverError env (normalizeError env eA A) \<and>
    notifyError env A (normalizeError env eA A) 0 3 wb = (None, wc) \<and>
    \<not> cooldownSkip env wc B \<and> run env wc (provider B) (model B) = (Inl eB, wd) \<and>
    \<not> shouldRethrowAbort env eB \<and> isFailoverError env (normalizeError env eB B) \<and>
    notifyError env B (normalizeError env eB B) 1 3 wd = (None, we) \<and>
    \<not> cooldownSkip env we C \<and> run env we (provider C) (model C) = (Inr res, wg)"
  let ?sa = "initialLoopState wa :: ('a, 'c) loop_state"
  let ?sb = "afterNotify env (recordFailure env A (normalizeError env eA A) (afterRun ?sa wb 0)) wc 0"
  let ?sc = "afterNotify env (recordFailure env B (normalizeError env eB B) (afterRun ?sb wd (Suc 0))) we (Suc 0)"
  have wa: "world ?sa = wa" by (simp add: initialLoopState_def)
  have 1: "fallbackLoop env 3 0 [A, B, C] ?sa = fallbackLoop env 3 (Suc 0) [B, C] ?sb"
    using h by (intro loop_advance) (simp_all add: wa)
  have 2: "fallbackLoop env 3 (Suc 0) [B, C] ?sb = fallbackLoop env 3 (Suc (Suc 0)) [C] ?sc"
    using h by (intro loop_advance) simp_all
  have 3: "fallbackLoop env 3 (Suc (Suc 0)) [C] ?sc =
             (Some (Returned res (provider C) (model C) (attempts ?sc)), afterRun ?sc wg (Suc (Suc 0)))"
    using h by (intro loop_success) simp_all
  have all: "runWithModelFallback env [A, B, C] wa =
               (Returned res (provider C) (model C) (attempts ?sc), afterRun ?sc wg (Suc (Suc 0)))"
  proof -
    have len: "length [A, B, C] = 3" by simp
    show ?thesis unfolding runWithModelFallback_def len 1 2 3 by simp
  qed
  show "fst (runWithModelFallback env [A, B, C] wa) =
        Returned res (provider C) (model C)
          [failedAttempt A (describeFailoverError env (normalizeError env eA A)),
           failedAttempt B (describeFailoverError env (normalizeError env eB B))]"
    by (simp add: all initialLoopState_def)
  show "runCalls (snd (runWithModelFallback env [A, B, C] wa)) = [0, 1, 2]"
    by (simp add: all initialLoopState_def numeral_2_eq_2)
qed

text \<open>
  Claim C6. When the loop has reached candidate \<open>c\<close> (the candidates \<open>pre\<close> before it
  were skipped or failed over) and \<^verbatim>\<open>run\<close> throws an error that is an explicit
  cancellation and not a timeout, the call rethrows that error at once: no attempt is
  recorded for \<open>c\<close>, the error observer is not called, and \<^verbatim>\<open>run\<close> is called for no
  later candidate. A cancellation is an object that is not a failover error and whose name
  is \<^verbatim>\<open>AbortError\<close>. A timeout error is never treated as cancellation; when it is
  failover-eligible, the loop goes on with the next candidate.
\<close>

theorem abort_rethrown_without_fallback:
  "(fallbackLoop env (length (pre @ c # rest)) 0 pre (initialLoopState w) = (None, st) \<and>
    \<not> cooldownSkip env (world st) c \<and>
    run env (world st) (provider c) (model c) = (Inl err, wb) \<and>
    shouldRethrowAbort env err \<longrightarrow>
      runWithModelFallback env (pre @ c # rest) w = (Rethrown err, afterRun st wb (length pre)) \<and>
      attempts (afterRun st wb (length pre)) = attempts st \<and>
      errorCalls (afterRun st wb (length pre)) = errorCalls st \<and>
      runCalls (afterRun st wb (length pre)) = runCalls st @ [length pre]) \<and>
   (shouldRethrowAbort env err \<longleftrightarrow>
      isObject env err \<and> \<not> isFailoverError env err \<and> errName env err = ''AbortError'' \<and>
      \<not> isTimeoutError env err) \<and>
   (fallbackLoop env (length (pre @ c # rest)) 0 pre (initialLoopState w) = (None, st) \<and>
    \<not> cooldownSkip env (world st) c \<and>
    run env (world st) (provider c) (model c) = (Inl err, wb) \<and>
    isTimeoutError env err \<and>
    isFailoverError env (normalizeError env err c) \<and>
    notifyError env c (normalizeError env err c) (length pre) (length (pre @ c # rest)) wb = (None, wc) \<longrightarrow>
      fallbackLoop env (length (pre @ c # rest)) 0 (pre @ c # rest) (initialLoopState w) =
        fallbackLoop env (length (pre @ c # rest)) (Suc (length pre)) rest
          (afterNotify env (recordFailure env c (normalizeError env err c) (afterRun st wb (length pre)))
             wc (length pre)))"
proof (intro conjI impI)
  assume h: "fallbackLoop env (length (pre @ c # rest)) 0 pre (initialLoopState w) = (None, st) \<and>
    \<not> cooldownSkip env (world st) c \<and>
    run env (world st) (provider c) (model c) = (Inl err, wb) \<and>
    shouldRethrowAbort env err"
  then have "fallbackLoop env (length (pre @ c # rest)) 0 (pre @ c # rest) (initialLoopState w) =
               fallbackLoop env (length (pre @ c # rest)) (0 + length pre) (c # rest) st"
    by (intro loop_append) simp
  also have "\<dots> = (Some (Rethrown err), afterRun st wb (length pre))"
    using h by (simp add: loop_abort)
  finally show "runWithModelFallback env (pre @ c # rest) w = (Rethrown err, afterRun st wb (length pre))"
    unfolding runWithModelFallback_def by simp
next
  show "attempts (afterRun st wb (length pre)) = attempts st" by simp
next
  show "errorCalls (afterRun st wb (length pre)) = errorCalls st" by simp
next
  show "runCalls (afterRun st wb (length pre)) = runCalls st @ [length pre]" by simp
next
  show "shouldRethrowAbort env err \<longleftrightarrow>
      isObject env err \<and> \<not> isFailoverError env err \<and> errName env err = ''AbortError'' \<and>
      \<not> isTimeoutError env err"
    by (simp add: shouldRethrowAbort_def isAbortError_def)
next
  assume h: "fallbackLoop env (length (pre @ c # rest)) 0 pre (initialLoopState w) = (None, st) \<and>
    \<not> cooldownSkip env (world st) c \<and>
    run env (world st) (provider c) (model c) = (Inl err, wb) \<and>
    isTimeoutError env err \<and>
    isFailoverError env (normalizeError env err c) \<and>
    notifyError env c (normalizeError env err c) (length pre) (length (pre @ c # rest)) wb = (None, wc)"
  then have na: "\<not> shouldRethrowAbort env err" by (simp add: shouldRethrowAbort_def)
  from h have "fallbackLoop env (length (pre @ c # rest)) 0 (pre @ c # rest) (initialLoopState w) =
               fallbackLoop env (length (pre @ c # rest)) (0 + length pre) (c # rest) st"
    by (intro loop_append) simp
  also have "\<dots> = fallbackLoop env (length (pre @ c # rest)) (Suc (length pre)) rest
          (afterNotify env (recordFailure env c (normalizeError env err c) (afterRun st wb (length pre)))
             wc (length pre))"
    using h na loop_advance[where env=env and st=st and c=c and err=err and wb=wb and wc=wc
        and i="length pre" and tot="length (pre @ c # rest)" and cs=rest]
    by simp
  finally show "fallbackLoop env (length (pre @ c # rest)) 0 (pre @ c # rest) (initialLoopState w) =
        fallbackLoop env (length (pre @ c # rest)) (Suc (length pre)) rest
          (afterNotify env (recordFailure env c (normalizeError env err c) (afterRun st wb (length pre)))
             wc (length pre))" .
qed

lemma loop_skip_all:
  "\<forall>m\<in>set mid. cooldownSkip env (world st) m \<Longrightarrow>
   fallbackLoop env tot i (mid @ cs) st =
     fallbackLoop env tot (i + length mid) cs
       (st\<lparr>attempts := attempts st @ map cooldownAttempt mid\<rparr>)"
proof (induction mid arbitrary: i st)
  case Nil
  show ?case by simp
next
  case (Cons m mid)
  let ?sta = "st\<lparr>attempts := attempts st @ [cooldownAttempt m]\<rparr>"
  from Cons.prems have sk: "cooldownSkip env (world st) m"
    and rest: "\<forall>x\<in>set mid. cooldownSkip env (world ?sta) x"
    by simp_all
  have "fallbackLoop env tot i ((m # mid) @ cs) st = fallbackLoop env tot (Suc i) (mid @ cs) ?sta"
    using sk by (simp add: loop_skip)
  also have "\<dots> = fallbackLoop env tot (Suc i + length mid) cs
                      (?sta\<lparr>attempts := attempts ?sta @ map cooldownAttempt mid\<rparr>)"
    by (rule Cons.IH[OF rest])
  finally show ?case by simp
qed

text \<open>
  Claim C7, as amended. The cooldown check runs only when an auth store is loaded, which
  the source does only when a configuration is given. When the loop has reached candidate
  \<open>c\<close>, an auth store is loaded and the provider of \<open>c\<close> has at least one auth profile,
  all of them in cooldown, then the loop records the synthetic cooldown attempt for \<open>c\<close>
  (reason \<^verbatim>\<open>rate_limit\<close>) and goes on with the next candidate: \<^verbatim>\<open>run\<close> is never invoked
  at the index of \<open>c\<close>, the attempt at that index of the final attempt list is the
  cooldown attempt, and \<^verbatim>\<open>run\<close> is invoked for the next candidate whose provider has a
  profile that is not in cooldown, the candidates \<open>mid\<close> between the two being skipped in
  the same way. When no auth store is loaded, \<^verbatim>\<open>run\<close> is invoked for every candidate the
  loop reaches, whatever the cooldown state of its profiles.
\<close>

theorem cooldown_candidate_skipped:
  "(fallbackLoop env (length (pre @ c # rest)) 0 pre (initialLoopState w) = (None, st) \<and>
    hasAuthStore env \<and>
    resolveAuthProfileOrder env (world st) (provider c) \<noteq> [] \<and>
    (\<forall>pid\<in>set (resolveAuthProfileOrder env (world st) (provider c)).
        isProfileInCooldown env (world st) pid) \<longrightarrow>
      fallbackLoop env (length (pre @ c # rest)) 0 (pre @ c # rest) (initialLoopState w) =
        fallbackLoop env (length (pre @ c # rest)) (Suc (length pre)) rest
          (st\<lparr>attempts := attempts st @ [cooldownAttempt c]\<rparr>) \<and>
      att_provider (cooldownAttempt c) = provider c \<and>
      att_model (cooldownAttempt c) = model c \<and>
      att_reason (cooldownAttempt c) = Some ''rate_limit'' \<and>
      length pre \<notin> set (runCalls (snd (runWithModelFallback env (pre @ c # rest) w))) \<and>
      attempts (snd (runWithModelFallback env (pre @ c # rest) w)) ! length pre = cooldownAttempt c \<and>
      (\<forall>mid nxt rest'. rest = mid @ nxt # rest' \<and>
         (\<forall>m\<in>set mid.
             resolveAuthProfileOrder env (world st) (provider m) \<noteq> [] \<and>
             (\<forall>pid\<in>set (resolveAuthProfileOrder env (world st) (provider m)).
                 isProfileInCooldown env (world st) pid)) \<and>
         (\<exists>pid\<in>set (resolveAuthProfileOrder env (world st) (provider nxt)).
             \<not> isProfileInCooldown env (world st) pid) \<longrightarrow>
         Suc (length pre) + length mid \<in>
           set (runCalls (snd (runWithModelFallback env (pre @ c # rest) w))) \<and>
         (\<forall>j. length pre \<le> j \<and> j < Suc (length pre) + length mid \<longrightarrow>
              j \<notin> set (runCalls (snd (runWithModelFallback env (pre @ c # rest) w)))))) \<and>
   (fallbackLoop env (length (pre @ c # rest)) 0 pre (initialLoopState w) = (None, st) \<and>
    \<not> hasAuthStore env \<longrightarrow>
      length pre \<in> set (runCalls (snd (runWithModelFallback env (pre @ c # rest) w))))"
proof (rule conjI; rule impI)
  let ?tot = "length (pre @ c # rest)"
  let ?sta = "st\<lparr>attempts := attempts st @ [cooldownAttempt c]\<rparr>"
  let ?fin = "snd (fallbackLoop env ?tot (Suc (length pre)) rest ?sta)"
  assume h: "fallbackLoop env ?tot 0 pre (initialLoopState w) = (None, st) \<and>
   hasAuthStore env \<and>
   resolveAuthProfileOrder env (world st) (provider c) \<noteq> [] \<and>
   (\<forall>pid\<in>set (resolveAuthProfileOrder env (world st) (provider c)).
       isProfileInCooldown env (world st) pid)"
  then have skip: "cooldownSkip env (world st) c"
    by (simp add: cooldownSkip_def Let_def)
  from h have "fallbackLoop env ?tot 0 (pre @ c # rest) (initialLoopState w) =
                 fallbackLoop env ?tot (0 + length pre) (c # rest) st"
    by (intro loop_append) simp
  also have "\<dots> = fallbackLoop env ?tot (Suc (length pre)) rest ?sta"
    using skip by (simp add: loop_skip)
  finally have eq: "fallbackLoop env ?tot 0 (pre @ c # rest) (initialLoopState w) =
                      fallbackLoop env ?tot (Suc (length pre)) rest ?sta" .
  have fin: "snd (runWithModelFallback env (pre @ c # rest) w) = ?fin"
    by (simp only: snd_runWithModelFallback eq)
  from h have st: "st = snd (fallbackLoop env ?tot 0 pre (initialLoopState w))" by simp
  have "callsExtend (runCalls (initialLoopState w :: ('a, 'c) loop_state)) (runCalls st) 0 (length pre)"
    unfolding st by (rule runCalls_shape)
  then have before: "\<forall>x\<in>set (runCalls st). x < length pre"
    by (auto simp: callsExtend_def initialLoopState_def)
  from runCalls_shape[of ?sta env ?tot "Suc (length pre)" rest]
  obtain xs where xs: "runCalls ?fin = runCalls st @ xs" "\<forall>x\<in>set xs. Suc (length pre) \<le> x"
    by (auto simp: callsExtend_def)
  have notin: "length pre \<notin> set (runCalls ?fin)"
  proof
    assume "length pre \<in> set (runCalls ?fin)"
    then have "length pre \<in> set (runCalls st) \<or> length pre \<in> set xs" using xs(1) by simp
    then show False using before xs(2) by auto
  qed
  from fellthrough_shape[of env ?tot 0 pre "initialLoopState w" st] h
  have len: "length (attempts st) = length pre" by (simp add: initialLoopState_def)
  have "prefix (attempts ?sta) (attempts ?fin)" by (rule attempts_grow)
  then obtain zs where "attempts ?fin = (attempts st @ [cooldownAttempt c]) @ zs"
    by (auto simp: prefix_def)
  then have nth: "attempts ?fin ! length pre = cooldownAttempt c"
    using len by (simp add: nth_append)
  have nxt: "\<forall>mid nxt rest'. rest = mid @ nxt # rest' \<and>
         (\<forall>m\<in>set mid.
             resolveAuthProfileOrder env (world st) (provider m) \<noteq> [] \<and>
             (\<forall>pid\<in>set (resolveAuthProfileOrder env (world st) (provider m)).
                 isProfileInCooldown env (world st) pid)) \<and>
         (\<exists>pid\<in>set (resolveAuthProfileOrder env (world st) (provider nxt)).
             \<not> isProfileInCooldown env (world st) pid) \<longrightarrow>
         Suc (length pre) + length mid \<in> set (runCalls ?fin) \<and>
         (\<forall>j. length pre \<le> j \<and> j < Suc (length pre) + length mid \<longrightarrow> j \<notin> set (runCalls ?fin))"
  proof (intro allI impI)
    fix mid nxt rest'
    assume a: "rest = mid @ nxt # rest' \<and>
         (\<forall>m\<in>set mid.
             resolveAuthProfileOrder env (world st) (provider m) \<noteq> [] \<and>
             (\<forall>pid\<in>set (resolveAuthProfileOrder env (world st) (provider m)).
                 isProfileInCooldown env (world st) pid)) \<and>
         (\<exists>pid\<in>set (resolveAuthProfileOrder env (world st) (provider nxt)).
             \<not> isProfileInCooldown env (world st) pid)"
    let ?stm = "?sta\<lparr>attempts := attempts ?sta @ map cooldownAttempt mid\<rparr>"
    let ?i = "Suc (length pre) + length mid"
    from a h have "\<forall>m\<in>set mid. cooldownSkip env (world ?sta) m"
      by (simp add: cooldownSkip_def Let_def)
    from loop_skip_all[OF this, of ?tot "Suc (length pre)" "nxt # rest'"] a
    have mid: "fallbackLoop env ?tot (Suc (length pre)) rest ?sta =
                 fallbackLoop env ?tot ?i (nxt # rest') ?stm"
      by simp
    from a have "\<not> cooldownSkip env (world ?stm) nxt"
      by (auto simp: cooldownSkip_def Let_def)
    from run_logged[OF this, where tot="?tot" and i="?i" and cs=rest']
    have inv: "?i \<in> set (runCalls ?fin)"
      unfolding mid .
    from runCalls_shape[of ?stm env ?tot ?i "nxt # rest'"]
    obtain ys where ys: "runCalls ?fin = runCalls st @ ys" "\<forall>x\<in>set ys. ?i \<le> x"
      unfolding mid by (auto simp: callsExtend_def)
    have none: "\<forall>j. length pre \<le> j \<and> j < ?i \<longrightarrow> j \<notin> set (runCalls ?fin)"
    proof (intro allI impI notI)
      fix j
      assume j: "length pre \<le> j \<and> j < ?i" and "j \<in> set (runCalls ?fin)"
      then have "j \<in> set (runCalls st) \<or> j \<in> set ys" using ys(1) by simp
      then show False using before ys(2) j by auto
    qed
    from inv none
    show "?i \<in> set (runCalls ?fin) \<and> (\<forall>j. length pre \<le> j \<and> j < ?i \<longrightarrow> j \<notin> set (runCalls ?fin))"
      by (rule conjI)
  qed
  show "fallbackLoop env ?tot 0 (pre @ c # rest) (initialLoopState w) =
       fallbackLoop env ?tot (Suc (length pre)) rest ?sta \<and>
     att_provider (cooldownAttempt c) = provider c \<and>
     att_model (cooldownAttempt c) = model c \<and>
     att_reason (cooldownAttempt c) = Some ''rate_limit'' \<and>
     length pre \<notin> set (runCalls (snd (runWithModelFallback env (pre @ c # rest) w))) \<and>
     attempts (snd (runWithModelFallback env (pre @ c # rest) w)) ! length pre = cooldownAttempt c \<and>
     (\<forall>mid nxt rest'. rest = mid @ nxt # rest' \<and>
         (\<forall>m\<in>set mid.
             resolveAuthProfileOrder env (world st) (provider m) \<noteq> [] \<and>
             (\<forall>pid\<in>set (resolveAuthProfileOrder env (world st) (provider m)).
                 isProfileInCooldown env (world st) pid)) \<and>
         (\<exists>pid\<in>set (resolveAuthProfileOrder env (world st) (provider nxt)).
             \<not> isProfileInCooldown env (world st) pid) \<longrightarrow>
         Suc (length pre) + length mid \<in>
           set (runCalls (snd (runWithModelFallback env (pre @ c # rest) w))) \<and>
         (\<forall>j. length pre \<le> j \<and> j < Suc (length pre) + length mid \<longrightarrow>
              j \<notin> set (runCalls (snd (runWithModelFallback env (pre @ c # rest) w)))))"
    unfolding fin
    by (rule conjI[OF eq conjI[OF _ conjI[OF _ conjI[OF _ conjI[OF notin conjI[OF nth nxt]]]]]])
       (simp_all add: cooldownAttempt_def)
next
  let ?tot = "length (pre @ c # rest)"
  assume h: "fallbackLoop env ?tot 0 pre (initialLoopState w) = (None, st) \<and> \<not> hasAuthStore env"
  then have nskip: "\<not> cooldownSkip env (world st) c"
    by (simp add: cooldownSkip_def)
  from h have eq: "fallbackLoop env ?tot 0 (pre @ c # rest) (initialLoopState w) =
                 fallbackLoop env ?tot (0 + length pre) (c # rest) st"
    by (intro loop_append) simp
  have fin: "snd (runWithModelFallback env (pre @ c # rest) w) =
               snd (fallbackLoop env ?tot (0 + length pre) (c # rest) st)"
    by (simp only: snd_runWithModelFallback eq)
  from run_logged[OF nskip, where tot="?tot" and i="length pre" and cs=rest]
  show "length pre \<in> set (runCalls (snd (runWithModelFallback env (pre @ c # rest) w)))"
    unfolding fin by simp
qed


text \<open>
  Claim C2, as amended. When the loop runs to its end, every candidate has one recorded
  attempt. If exactly one attempt was recorded and it came from a failed run (the last
  error is set and truthy), the call throws that run's normalized error, which is the
  result of \<^verbatim>\<open>coerceToFailoverError\<close> or, when that returns nothing, the original error
  itself; it does not throw an aggregate. If two or more attempts were recorded, the call
  throws one aggregate error whose message is \<^verbatim>\<open>All models failed (n): \<close> followed by the
  lines \<^verbatim>\<open>provider/model: message (reason)\<close> of all attempts joined by \<^verbatim>\<open> | \<close>, and
  whose cause is the last normalized run error when that is an \<^verbatim>\<open>Error\<close> instance.
\<close>

theorem exhausted_single_or_aggregate:
  "fallbackLoop env (length cands) 0 cands (initialLoopState w) = (None, st') \<longrightarrow>
     length (attempts st') = length cands \<and>
     (length (attempts st') = 1 \<and> lastError st' = Some e \<and> truthy env e \<longrightarrow>
        runWithModelFallback env cands w = (Rethrown e, st') \<and>
        (\<exists>c err wb. cands = [c] \<and> run env w (provider c) (model c) = (Inl err, wb) \<and>
                    e = normalizeError env err c \<and> isFailoverError env e)) \<and>
     (2 \<le> length (attempts st') \<longrightarrow>
        runWithModelFallback env cands w =
          (AllFailed
             (''All models failed ('' @ string_of_nat (length (attempts st')) @ ''): '' @
                join '' | '' (map attemptLine (attempts st')))
             (case lastError st' of
                Some l \<Rightarrow> if instanceofError env l then Some l else None
              | None \<Rightarrow> None),
           st')) \<and>
     (lastError st' = Some e \<longrightarrow>
        (\<exists>k<length cands. \<exists>wa err wb.
            run env wa (provider (cands ! k)) (model (cands ! k)) = (Inl err, wb) \<and>
            e = normalizeError env err (cands ! k) \<and> isFailoverError env e \<and>
            runCalls st' \<noteq> [] \<and> last (runCalls st') = k)) \<and>
     (\<forall>a r. att_reason a = Some r \<and> r \<noteq> [] \<longrightarrow>
        attemptLine a =
          att_provider a @ ''/'' @ att_model a @ '': '' @ att_error a @ '' ('' @ r @ '')'')"
proof (intro impI)
  assume l: "fallbackLoop env (length cands) 0 cands (initialLoopState w) = (None, st')"
  from fellthrough_shape[OF l]
  have len: "length (attempts st') = length cands"
    and d: "lastError st' = None \<and> runCalls st' = [] \<or>
      (\<exists>k<length cands. \<exists>wa err wb.
        run env wa (provider (cands ! k)) (model (cands ! k)) = (Inl err, wb) \<and>
        \<not> shouldRethrowAbort env err \<and>
        isFailoverError env (normalizeError env err (cands ! k)) \<and>
        lastError st' = Some (normalizeError env err (cands ! k)) \<and>
        runCalls st' \<noteq> [] \<and> last (runCalls st') = k)"
    by (simp_all add: initialLoopState_def)
  have single: "length (attempts st') = 1 \<and> lastError st' = Some e \<and> truthy env e \<longrightarrow>
        runWithModelFallback env cands w = (Rethrown e, st') \<and>
        (\<exists>c err wb. cands = [c] \<and> run env w (provider c) (model c) = (Inl err, wb) \<and>
                    e = normalizeError env err c \<and> isFailoverError env e)"
  proof (intro impI conjI)
    assume a: "length (attempts st') = 1 \<and> lastError st' = Some e \<and> truthy env e"
    then show "runWithModelFallback env cands w = (Rethrown e, st')"
      by (simp add: runWithModelFallback_def l exhausted_def)
    from a len obtain c where c: "cands = [c]" by (cases cands) auto
    let ?sa = "initialLoopState w :: ('a, 'c) loop_state"
    have wsa: "world ?sa = w" by (simp add: initialLoopState_def)
    note l' = l[unfolded c]
    show "\<exists>c err wb. cands = [c] \<and> run env w (provider c) (model c) = (Inl err, wb) \<and>
                    e = normalizeError env err c \<and> isFailoverError env e"
    proof (cases rule: loop_cases[where env=env and st="?sa" and c=c and i=0 and tot="length [c]"])
      case skip
      with l' a show ?thesis by (auto simp: loop_skip initialLoopState_def)
    next
      case (success r wb)
      with l' show ?thesis by (simp add: loop_success)
    next
      case (abort err wb)
      with l' show ?thesis by (simp add: loop_abort)
    next
      case (nonfailover err wb)
      with l' show ?thesis by (simp add: loop_nonfailover)
    next
      case (observer err wb thrown wc)
      with l' show ?thesis by (simp add: loop_observer_throws)
    next
      case (advance err wb wc)
      with l' have "st' = afterNotify env (recordFailure env c (normalizeError env err c) (afterRun ?sa wb 0)) wc 0"
        by (simp add: loop_advance)
      with a have "e = normalizeError env err c" by simp
      with advance c wsa show ?thesis by auto
    qed
  qed
  have multi: "2 \<le> length (attempts st') \<longrightarrow>
        runWithModelFallback env cands w =
          (AllFailed
             (''All models failed ('' @ string_of_nat (length (attempts st')) @ ''): '' @
                join '' | '' (map attemptLine (attempts st')))
             (case lastError st' of
                Some l \<Rightarrow> if instanceofError env l then Some l else None
              | None \<Rightarrow> None),
           st')"
    by (auto simp: runWithModelFallback_def l exhausted_def aggregateError_def summaryOf_def
             split: option.splits)
  have origin: "lastError st' = Some e \<longrightarrow>
        (\<exists>k<length cands. \<exists>wa err wb.
            run env wa (provider (cands ! k)) (model (cands ! k)) = (Inl err, wb) \<and>
            e = normalizeError env err (cands ! k) \<and> isFailoverError env e \<and>
            runCalls st' \<noteq> [] \<and> last (runCalls st') = k)"
  proof
    assume le: "lastError st' = Some e"
    with d obtain k wa err wb where k: "k < length cands"
      "run env wa (provider (cands ! k)) (model (cands ! k)) = (Inl err, wb)"
      "isFailoverError env (normalizeError env err (cands ! k))"
      "lastError st' = Some (normalizeError env err (cands ! k))"
      "runCalls st' \<noteq> []" "last (runCalls st') = k"
      by auto
    from k(4) le have "e = normalizeError env err (cands ! k)" by simp
    with k show "\<exists>k<length cands. \<exists>wa err wb.
            run env wa (provider (cands ! k)) (model (cands ! k)) = (Inl err, wb) \<and>
            e = normalizeError env err (cands ! k) \<and> isFailoverError env e \<and>
            runCalls st' \<noteq> [] \<and> last (runCalls st') = k"
      by blast
  qed
  have line: "\<forall>a r. att_reason a = Some r \<and> r \<noteq> [] \<longrightarrow>
        attemptLine a =
          att_provider a @ ''/'' @ att_model a @ '': '' @ att_error a @ '' ('' @ r @ '')''"
    by (simp add: attemptLine_def)
  from len single multi origin line
  show "length (attempts st') = length cands \<and>
     (length (attempts st') = 1 \<and> lastError st' = Some e \<and> truthy env e \<longrightarrow>
        runWithModelFallback env cands w = (Rethrown e, st') \<and>
        (\<exists>c err wb. cands = [c] \<and> run env w (provider c) (model c) = (Inl err, wb) \<and>
                    e = normalizeError env err c \<and> isFailoverError env e)) \<and>
     (2 \<le> length (attempts st') \<longrightarrow>
        runWithModelFallback env cands w =
          (AllFailed
             (''All models failed ('' @ string_of_nat (length (attempts st')) @ ''): '' @
                join '' | '' (map attemptLine (attempts st')))
             (case lastError st' of
                Some l \<Rightarrow> if instanceofError env l then Some l else None
              | None \<Rightarrow> None),
           st')) \<and>
     (lastError st' = Some e \<longrightarrow>
        (\<exists>k<length cands. \<exists>wa err wb.
            run env wa (provider (cands ! k)) (model (cands ! k)) = (Inl err, wb) \<and>
            e = normalizeError env err (cands ! k) \<and> isFailoverError env e \<and>
            runCalls st' \<noteq> [] \<and> last (runCalls st') = k)) \<and>
     (\<forall>a r. att_reason a = Some r \<and> r \<noteq> [] \<longrightarrow>
        attemptLine a =
          att_provider a @ ''/'' @ att_model a @ '': '' @ att_error a @ '' ('' @ r @ '')'')"
    by blast
qed

subsection \<open>Evaluation at the concrete instance\<close>

lemmas sample_simps =
  sampleEnv_def cand_def cooldownSkip_def sampleRun_def shouldRethrowAbort_def isAbortError_def
  normalizeError_def sampleCoerce_def notifyError_def afterRun_def recordFailure_def
  afterNotify_def failedAttempt_def cooldownAttempt_def sampleDescribe_def initialLoopState_def
  runWithModelFallback_def exhausted_def aggregateError_def summaryOf_def attemptLine_def
  fallbackLoop.simps(2) Let_def

text \<open>
  Claim C2 as stated fails: with the single candidate \<^verbatim>\<open>anthropic/a\<close>, \<^verbatim>\<open>run\<close> throws an
  ordinary error, coercion wraps it into a failover error, and the call throws the
  wrapper, not the original error.
\<close>

theorem single_failure_rethrows_wrapped_counterexample:
  "fst (run sampleEnv 0 ''anthropic'' ''a'') = Inl (PlainError ''Error'' ''429 rate limited'') \<and>
   runCalls (snd (runWithModelFallback sampleEnv [cand ''anthropic'' ''a''] 0)) = [0] \<and>
   length (attempts (snd (runWithModelFallback sampleEnv [cand ''anthropic'' ''a''] 0))) = 1 \<and>
   fst (runWithModelFallback sampleEnv [cand ''anthropic'' ''a''] 0) =
     Rethrown (FailoverErr ''429 rate limited'' ''rate_limit'') \<and>
   fst (runWithModelFallback sampleEnv [cand ''anthropic'' ''a''] 0) \<noteq>
     Rethrown (PlainError ''Error'' ''429 rate limited'')"
  by (simp add: sample_simps)


text \<open>The amended claim C2 at one failing candidate and at two failing candidates.\<close>

theorem exhausted_single_or_aggregate_witness:
  "fst (fallbackLoop sampleEnv (length [cand ''anthropic'' ''a'']) 0 [cand ''anthropic'' ''a'']
          (initialLoopState 0)) = None \<and>
   fst (runWithModelFallback sampleEnv [cand ''anthropic'' ''a''] 0) =
     Rethrown (FailoverErr ''429 rate limited'' ''rate_limit'') \<and>
   fst (fallbackLoop sampleEnv (length [cand ''anthropic'' ''a'', cand ''openai'' ''b'']) 0
          [cand ''anthropic'' ''a'', cand ''openai'' ''b''] (initialLoopState 0)) = None \<and>
   fst (runWithModelFallback sampleEnv [cand ''anthropic'' ''a'', cand ''openai'' ''b''] 0) =
     AllFailed
       ''All models failed (2): anthropic/a: 429 rate limited (rate_limit) | openai/b: timed out (timeout)''
       (Some (FailoverErr ''timed out'' ''timeout''))"
proof -
  let ?one = "[cand ''anthropic'' ''a'']"
  let ?two = "[cand ''anthropic'' ''a'', cand ''openai'' ''b'']"
  let ?sa = "snd (fallbackLoop sampleEnv (length ?one) 0 ?one (initialLoopState 0))"
  let ?sb = "snd (fallbackLoop sampleEnv (length ?two) 0 ?two (initialLoopState 0))"
  have la: "fallbackLoop sampleEnv (length ?one) 0 ?one (initialLoopState 0) = (None, ?sa)"
    by (simp add: sample_simps)
  have lb: "fallbackLoop sampleEnv (length ?two) 0 ?two (initialLoopState 0) = (None, ?sb)"
    by (simp add: sample_simps)
  have ha: "length (attempts ?sa) = 1 \<and>
            lastError ?sa = Some (FailoverErr ''429 rate limited'' ''rate_limit'') \<and>
            truthy sampleEnv (FailoverErr ''429 rate limited'' ''rate_limit'')"
    by (simp add: sample_simps)
  have hb: "2 \<le> length (attempts ?sb)"
    by (simp add: sample_simps)
  from exhausted_single_or_aggregate[where env=sampleEnv and cands="?one" and w=0 and st'="?sa"
      and e="FailoverErr ''429 rate limited'' ''rate_limit''"] la ha
  have ra: "runWithModelFallback sampleEnv ?one 0 =
              (Rethrown (FailoverErr ''429 rate limited'' ''rate_limit''), ?sa)"
    by blast
  from exhausted_single_or_aggregate[where env=sampleEnv and cands="?two" and w=0 and st'="?sb"] lb hb
  have rb: "runWithModelFallback sampleEnv ?two 0 =
          (AllFailed
             (''All models failed ('' @ string_of_nat (length (attempts ?sb)) @ ''): '' @
                join '' | '' (map attemptLine (attempts ?sb)))
             (case lastError ?sb of
                Some l \<Rightarrow> if instanceofError sampleEnv l then Some l else None
              | None \<Rightarrow> None),
           ?sb)"
    by blast
  have va: "fst (runWithModelFallback sampleEnv ?one 0) =
              Rethrown (FailoverErr ''429 rate limited'' ''rate_limit'')"
    unfolding ra by simp
  have vb: "fst (runWithModelFallback sampleEnv ?two 0) =
     AllFailed
       ''All models failed (2): anthropic/a: 429 rate limited (rate_limit) | openai/b: timed out (timeout)''
       (Some (FailoverErr ''timed out'' ''timeout''))"
    unfolding rb by (simp add: sample_simps string_of_nat.simps digit_char_def)
  have fa: "fst (fallbackLoop sampleEnv (length ?one) 0 ?one (initialLoopState 0)) = None"
    using la by (metis fst_conv)
  have fb: "fst (fallbackLoop sampleEnv (length ?two) 0 ?two (initialLoopState 0)) = None"
    using lb by (metis fst_conv)
  show ?thesis by (rule conjI[OF fa conjI[OF va conjI[OF fb vb]]])
qed


text \<open>
  Claim C5 at three candidates, the first two failing and the third succeeding; and at
  three candidates of which the second succeeds, so that the third is never run.
\<close>

theorem fallback_returns_first_success_witness:
  "runWithModelFallback sampleEnv
     [cand ''anthropic'' ''a'', cand ''openai'' ''b'', cand ''google'' ''c''] 0 =
     (Returned ''ok from c'' ''google'' ''c''
        [failedAttempt (cand ''anthropic'' ''a'')
           (sampleDescribe (FailoverErr ''429 rate limited'' ''rate_limit'')),
         failedAttempt (cand ''openai'' ''b'')
           (sampleDescribe (FailoverErr ''timed out'' ''timeout''))],
      snd (runWithModelFallback sampleEnv
             [cand ''anthropic'' ''a'', cand ''openai'' ''b'', cand ''google'' ''c''] 0)) \<and>
   runCalls (snd (runWithModelFallback sampleEnv
             [cand ''anthropic'' ''a'', cand ''openai'' ''b'', cand ''google'' ''c''] 0)) = [0, 1, 2] \<and>
   (\<exists>k<3. ''google'' = provider ([cand ''anthropic'' ''a'', cand ''openai'' ''b'', cand ''google'' ''c''] ! k) \<and>
          k = 2) \<and>
   fst (fallbackLoop sampleEnv 3 0 [cand ''openai'' ''b''] (initialLoopState 0)) = None \<and>
   run sampleEnv 1 ''google'' ''c'' = (Inr ''ok from c'', 2) \<and>
   fst (runWithModelFallback sampleEnv
          [cand ''openai'' ''b'', cand ''google'' ''c'', cand ''anthropic'' ''a''] 0) =
     Returned ''ok from c'' ''google'' ''c''
       [failedAttempt (cand ''openai'' ''b'') (sampleDescribe (FailoverErr ''timed out'' ''timeout''))] \<and>
   runCalls (snd (runWithModelFallback sampleEnv
          [cand ''openai'' ''b'', cand ''google'' ''c'', cand ''anthropic'' ''a''] 0)) = [0, 1]"
proof -
  let ?A = "cand ''anthropic'' ''a''"
  let ?B = "cand ''openai'' ''b''"
  let ?C = "cand ''google'' ''c''"
  let ?atts = "[failedAttempt ?A (sampleDescribe (FailoverErr ''429 rate limited'' ''rate_limit'')),
                failedAttempt ?B (sampleDescribe (FailoverErr ''timed out'' ''timeout''))]"
  let ?fin = "snd (runWithModelFallback sampleEnv [?A, ?B, ?C] 0)"
  have hyp: "\<not> cooldownSkip sampleEnv 0 ?A \<and>
    run sampleEnv 0 (provider ?A) (model ?A) = (Inl (PlainError ''Error'' ''429 rate limited''), 1) \<and>
    \<not> shouldRethrowAbort sampleEnv (PlainError ''Error'' ''429 rate limited'') \<and>
    isFailoverError sampleEnv (normalizeError sampleEnv (PlainError ''Error'' ''429 rate limited'') ?A) \<and>
    notifyError sampleEnv ?A (normalizeError sampleEnv (PlainError ''Error'' ''429 rate limited'') ?A) 0 3 1 = (None, 1) \<and>
    \<not> cooldownSkip sampleEnv 1 ?B \<and>
    run sampleEnv 1 (provider ?B) (model ?B) = (Inl (PlainError ''TimeoutError'' ''timed out''), 2) \<and>
    \<not> shouldRethrowAbort sampleEnv (PlainError ''TimeoutError'' ''timed out'') \<and>
    isFailoverError sampleEnv (normalizeError sampleEnv (PlainError ''TimeoutError'' ''timed out'') ?B) \<and>
    notifyError sampleEnv ?B (normalizeError sampleEnv (PlainError ''TimeoutError'' ''timed out'') ?B) 1 3 2 = (None, 2) \<and>
    \<not> cooldownSkip sampleEnv 2 ?C \<and>
    run sampleEnv 2 (provider ?C) (model ?C) = (Inr ''ok from c'', 3)"
    by (simp add: sample_simps)
  note inst = fallback_returns_first_success[where env=sampleEnv and A="?A" and B="?B" and C="?C"
      and wa=0 and wb=1 and wc=1 and wd=2 and we=2 and wg=3
      and eA="PlainError ''Error'' ''429 rate limited''"
      and eB="PlainError ''TimeoutError'' ''timed out''" and res="''ok from c''"
      and cands="[?A, ?B, ?C]" and w=0 and r="''ok from c''" and p="''google''" and m="''c''"
      and atts="?atts" and st'="?fin"]
  note abc = inst[THEN conjunct2, THEN conjunct2, THEN mp, OF hyp]
  from abc have sc: "fst (runWithModelFallback sampleEnv [?A, ?B, ?C] 0) =
        Returned ''ok from c'' (provider ?C) (model ?C)
          [failedAttempt ?A (describeFailoverError sampleEnv
              (normalizeError sampleEnv (PlainError ''Error'' ''429 rate limited'') ?A)),
           failedAttempt ?B (describeFailoverError sampleEnv
              (normalizeError sampleEnv (PlainError ''TimeoutError'' ''timed out'') ?B))]"
     and calls: "runCalls ?fin = [0, 1, 2]"
    by blast+
  from sc have ret: "runWithModelFallback sampleEnv [?A, ?B, ?C] 0 =
                       (Returned ''ok from c'' ''google'' ''c'' ?atts, ?fin)"
    by (simp add: prod_eq_iff sampleEnv_def cand_def normalizeError_def sampleCoerce_def)
  from inst[THEN conjunct2, THEN conjunct1, THEN mp, OF ret]
  have "\<exists>k<length [?A, ?B, ?C]. ''google'' = provider ([?A, ?B, ?C] ! k) \<and>
          ''c'' = model ([?A, ?B, ?C] ! k) \<and> ?atts = attempts ?fin \<and> length ?atts = k \<and>
          (\<exists>xs. runCalls ?fin = xs @ [k] \<and> sorted_wrt (<) xs \<and> (\<forall>x\<in>set xs. x < k)) \<and>
          (\<exists>wa. run sampleEnv wa ''google'' ''c'' = (Inr ''ok from c'', world ?fin))" .
  then have idx: "\<exists>k<3. ''google'' = provider ([?A, ?B, ?C] ! k) \<and> k = 2"
    by auto
  let ?st = "snd (fallbackLoop sampleEnv 3 0 [?B] (initialLoopState 0))"
  have len: "length ([?B] @ ?C # [?A]) = 3" by simp
  have reach: "fallbackLoop sampleEnv (length ([?B] @ ?C # [?A])) 0 [?B] (initialLoopState 0) = (None, ?st)"
    unfolding len by (simp add: sample_simps)
  have fhyp: "\<not> cooldownSkip sampleEnv (world ?st) ?C \<and>
              run sampleEnv (world ?st) (provider ?C) (model ?C) = (Inr ''ok from c'', 2)"
    by (simp add: sample_simps)
  note fwd = fallback_returns_first_success[where env=sampleEnv and pre="[?B]" and c="?C"
      and rest="[?A]" and ws=0 and st="?st" and rv="''ok from c''" and wr=2,
      THEN conjunct1, THEN mp, OF conjI[OF reach fhyp]]
  note f1 = fwd[THEN conjunct1]
  have fa: "fst (fallbackLoop sampleEnv 3 0 [?B] (initialLoopState 0)) = None"
    by (simp add: sample_simps)
  have rn: "run sampleEnv 1 ''google'' ''c'' = (Inr ''ok from c'', 2)"
    by (simp add: sampleEnv_def sampleRun_def)
  have va: "fst (runWithModelFallback sampleEnv [?B, ?C, ?A] 0) =
     Returned ''ok from c'' ''google'' ''c''
       [failedAttempt ?B (sampleDescribe (FailoverErr ''timed out'' ''timeout''))]"
    using f1 by (simp add: sample_simps)
  have vb: "runCalls (snd (runWithModelFallback sampleEnv [?B, ?C, ?A] 0)) = [0, 1]"
    using f1 by (simp add: sample_simps)
  show ?thesis
    by (rule conjI[OF ret conjI[OF calls conjI[OF idx conjI[OF fa conjI[OF rn conjI[OF va vb]]]]]])
qed


text \<open>
  Claim C6 at a cancellation thrown by the second of three candidates, and at a timeout
  thrown by the first of two.
\<close>

theorem abort_rethrown_without_fallback_witness:
  "fst (fallbackLoop sampleEnv 3 0 [cand ''anthropic'' ''a''] (initialLoopState 0)) = None \<and>
   shouldRethrowAbort sampleEnv (PlainError ''AbortError'' ''aborted by user'') \<and>
   fst (runWithModelFallback sampleEnv
          [cand ''anthropic'' ''a'', cand ''cancel'' ''b'', cand ''google'' ''c''] 0) =
     Rethrown (PlainError ''AbortError'' ''aborted by user'') \<and>
   runCalls (snd (runWithModelFallback sampleEnv
          [cand ''anthropic'' ''a'', cand ''cancel'' ''b'', cand ''google'' ''c''] 0)) = [0, 1] \<and>
   length (attempts (snd (runWithModelFallback sampleEnv
          [cand ''anthropic'' ''a'', cand ''cancel'' ''b'', cand ''google'' ''c''] 0))) = 1 \<and>
   isTimeoutError sampleEnv (PlainError ''TimeoutError'' ''timed out'') \<and>
   \<not> shouldRethrowAbort sampleEnv (PlainError ''TimeoutError'' ''timed out'') \<and>
   fst (fallbackLoop sampleEnv 2 0 [cand ''openai'' ''b'', cand ''google'' ''c''] (initialLoopState 0)) =
     Some (Returned ''ok from c'' ''google'' ''c''
             [failedAttempt (cand ''openai'' ''b'') (sampleDescribe (FailoverErr ''timed out'' ''timeout''))])"
proof -
  let ?A = "cand ''anthropic'' ''a''"
  let ?X = "cand ''cancel'' ''b''"
  let ?T = "cand ''openai'' ''b''"
  let ?C = "cand ''google'' ''c''"
  let ?abort = "PlainError ''AbortError'' ''aborted by user''"
  let ?timeout = "PlainError ''TimeoutError'' ''timed out''"
  let ?st = "snd (fallbackLoop sampleEnv 3 0 [?A] (initialLoopState 0))"
  let ?sa = "initialLoopState 0 :: (sample_error, nat) loop_state"
  have len: "length ([?A] @ ?X # [?C]) = 3" by simp
  have reach: "fallbackLoop sampleEnv (length ([?A] @ ?X # [?C])) 0 [?A] (initialLoopState 0) = (None, ?st)"
    unfolding len by (simp add: sample_simps)
  have hyp: "\<not> cooldownSkip sampleEnv (world ?st) ?X \<and>
             run sampleEnv (world ?st) (provider ?X) (model ?X) = (Inl ?abort, 2) \<and>
             shouldRethrowAbort sampleEnv ?abort"
    by (simp add: sample_simps)
  from abort_rethrown_without_fallback[where env=sampleEnv and pre="[?A]" and c="?X" and rest="[?C]"
      and w=0 and st="?st" and err="?abort" and wb=2] reach hyp
  have ra: "runWithModelFallback sampleEnv ([?A] @ ?X # [?C]) 0 = (Rethrown ?abort, afterRun ?st 2 (length [?A]))"
    by blast
  have va: "fst (runWithModelFallback sampleEnv [?A, ?X, ?C] 0) = Rethrown ?abort"
    using ra by simp
  have vb: "runCalls (snd (runWithModelFallback sampleEnv [?A, ?X, ?C] 0)) = [0, 1]"
    using ra by (simp add: sample_simps)
  have vc: "length (attempts (snd (runWithModelFallback sampleEnv [?A, ?X, ?C] 0))) = 1"
    using ra by (simp add: sample_simps)
  have lent: "length ([] @ ?T # [?C]) = 2" by simp
  have reacht: "fallbackLoop sampleEnv (length ([] @ ?T # [?C])) 0 [] ?sa = (None, ?sa)"
    by simp
  have hypt: "\<not> cooldownSkip sampleEnv (world ?sa) ?T \<and>
              run sampleEnv (world ?sa) (provider ?T) (model ?T) = (Inl ?timeout, 1) \<and>
              isTimeoutError sampleEnv ?timeout \<and>
              isFailoverError sampleEnv (normalizeError sampleEnv ?timeout ?T) \<and>
              notifyError sampleEnv ?T (normalizeError sampleEnv ?timeout ?T) (length ([]::ModelCandidate list))
                 (length ([] @ ?T # [?C])) 1 = (None, 1)"
    by (simp add: sample_simps)
  from abort_rethrown_without_fallback[where env=sampleEnv and pre="[]" and c="?T" and rest="[?C]"
      and w=0 and st="?sa" and err="?timeout" and wb=1 and wc=1] reacht hypt
  have adv: "fallbackLoop sampleEnv (length ([] @ ?T # [?C])) 0 ([] @ ?T # [?C]) ?sa =
        fallbackLoop sampleEnv (length ([] @ ?T # [?C])) (Suc (length ([]::ModelCandidate list))) [?C]
          (afterNotify sampleEnv (recordFailure sampleEnv ?T (normalizeError sampleEnv ?timeout ?T)
             (afterRun ?sa 1 (length ([]::ModelCandidate list)))) 1 (length ([]::ModelCandidate list)))"
    and nt: "\<not> shouldRethrowAbort sampleEnv ?timeout"
    by blast+
  have vt: "fst (fallbackLoop sampleEnv 2 0 [?T, ?C] ?sa) =
     Some (Returned ''ok from c'' ''google'' ''c''
             [failedAttempt ?T (sampleDescribe (FailoverErr ''timed out'' ''timeout''))])"
    using adv by (simp add: sample_simps)
  have fa: "fst (fallbackLoop sampleEnv 3 0 [?A] (initialLoopState 0)) = None"
    by (simp add: sample_simps)
  from hyp hypt have sa: "shouldRethrowAbort sampleEnv ?abort" and it: "isTimeoutError sampleEnv ?timeout"
    by blast+
  show ?thesis
    by (rule conjI[OF fa conjI[OF sa conjI[OF va conjI[OF vb conjI[OF vc conjI[OF it conjI[OF nt vt]]]]]]])
qed

text \<open>
  Claim C7 as stated fails: in a call without a configuration no auth store is loaded,
  and \<^verbatim>\<open>run\<close> is invoked for the candidate \<^verbatim>\<open>cooled/x\<close> although its provider has two
  auth profiles, both in cooldown. No cooldown attempt is recorded (the run throws an
  error that is not failover-eligible, which is rethrown).
\<close>

theorem cooldown_unchecked_without_auth_store_counterexample:
  "resolveAuthProfileOrder sampleEnvNoStore 0 ''cooled'' = [''cooled:default'', ''cooled:backup''] \<and>
   isProfileInCooldown sampleEnvNoStore 0 ''cooled:default'' \<and>
   isProfileInCooldown sampleEnvNoStore 0 ''cooled:backup'' \<and>
   runCalls (snd (runWithModelFallback sampleEnvNoStore
       [cand ''cooled'' ''x'', cand ''google'' ''c''] 0)) = [0] \<and>
   attempts (snd (runWithModelFallback sampleEnvNoStore
       [cand ''cooled'' ''x'', cand ''google'' ''c''] 0)) = [] \<and>
   fst (runWithModelFallback sampleEnvNoStore [cand ''cooled'' ''x'', cand ''google'' ''c''] 0) =
     Rethrown (PlainError ''TypeError'' ''bad input'')"
  by (simp add: sample_simps sampleEnvNoStore_def)

text \<open>
  The amended claim C7 at four candidates, the second and the third with all their
  profiles in cooldown and the fourth with an available profile; and at a candidate with
  all its profiles in cooldown when no auth store is loaded.
\<close>

theorem cooldown_candidate_skipped_witness:
  "fst (fallbackLoop sampleEnv 4 0 [cand ''anthropic'' ''a''] (initialLoopState 0)) = None \<and>
   hasAuthStore sampleEnv \<and>
   resolveAuthProfileOrder sampleEnv 1 ''cooled'' = [''cooled:default'', ''cooled:backup''] \<and>
   isProfileInCooldown sampleEnv 1 ''cooled:default'' \<and>
   isProfileInCooldown sampleEnv 1 ''cooled:backup'' \<and>
   resolveAuthProfileOrder sampleEnv 1 ''google'' = [''google:default''] \<and>
   \<not> isProfileInCooldown sampleEnv 1 ''google:default'' \<and>
   1 \<notin> set (runCalls (snd (runWithModelFallback sampleEnv
          [cand ''anthropic'' ''a'', cand ''cooled'' ''x'', cand ''cooled'' ''y'', cand ''google'' ''c'']
          0))) \<and>
   2 \<notin> set (runCalls (snd (runWithModelFallback sampleEnv
          [cand ''anthropic'' ''a'', cand ''cooled'' ''x'', cand ''cooled'' ''y'', cand ''google'' ''c'']
          0))) \<and>
   3 \<in> set (runCalls (snd (runWithModelFallback sampleEnv
          [cand ''anthropic'' ''a'', cand ''cooled'' ''x'', cand ''cooled'' ''y'', cand ''google'' ''c'']
          0))) \<and>
   attempts (snd (runWithModelFallback sampleEnv
          [cand ''anthropic'' ''a'', cand ''cooled'' ''x'', cand ''cooled'' ''y'', cand ''google'' ''c'']
          0)) ! 1 = cooldownAttempt (cand ''cooled'' ''x'') \<and>
   \<not> hasAuthStore sampleEnvNoStore \<and>
   0 \<in> set (runCalls (snd (runWithModelFallback sampleEnvNoStore
          [cand ''cooled'' ''x'', cand ''google'' ''c''] 0)))"
proof -
  let ?A = "cand ''anthropic'' ''a''"
  let ?X = "cand ''cooled'' ''x''"
  let ?Y = "cand ''cooled'' ''y''"
  let ?C = "cand ''google'' ''c''"
  let ?st = "snd (fallbackLoop sampleEnv 4 0 [?A] (initialLoopState 0))"
  let ?fin = "snd (runWithModelFallback sampleEnv ([?A] @ ?X # [?Y, ?C]) 0)"
  let ?sa = "initialLoopState 0 :: (sample_error, nat) loop_state"
  have len: "length ([?A] @ ?X # [?Y, ?C]) = 4" by simp
  have reach: "fallbackLoop sampleEnv (length ([?A] @ ?X # [?Y, ?C])) 0 [?A] (initialLoopState 0) = (None, ?st)"
    unfolding len by (simp add: sample_simps)
  have w: "world ?st = 1" by (simp add: sample_simps)
  have hyp: "hasAuthStore sampleEnv \<and>
             resolveAuthProfileOrder sampleEnv (world ?st) (provider ?X) \<noteq> [] \<and>
             (\<forall>pid\<in>set (resolveAuthProfileOrder sampleEnv (world ?st) (provider ?X)).
                 isProfileInCooldown sampleEnv (world ?st) pid)"
    unfolding w by (simp add: sampleEnv_def cand_def)
  have pr: "resolveAuthProfileOrder sampleEnv 1 ''cooled'' = [''cooled:default'', ''cooled:backup'']"
    by (simp add: sampleEnv_def)
  have cd: "isProfileInCooldown sampleEnv 1 ''cooled:default''"
    by (simp add: sampleEnv_def)
  have cb: "isProfileInCooldown sampleEnv 1 ''cooled:backup''"
    by (simp add: sampleEnv_def)
  have pg: "resolveAuthProfileOrder sampleEnv 1 ''google'' = [''google:default'']"
    by (simp add: sampleEnv_def)
  have av: "\<not> isProfileInCooldown sampleEnv 1 ''google:default''"
    by (simp add: sampleEnv_def)
  have nxt: "[?Y, ?C] = [?Y] @ ?C # [] \<and>
             (\<forall>m\<in>set [?Y].
                 resolveAuthProfileOrder sampleEnv (world ?st) (provider m) \<noteq> [] \<and>
                 (\<forall>pid\<in>set (resolveAuthProfileOrder sampleEnv (world ?st) (provider m)).
                     isProfileInCooldown sampleEnv (world ?st) pid)) \<and>
             (\<exists>pid\<in>set (resolveAuthProfileOrder sampleEnv (world ?st) (provider ?C)).
                 \<not> isProfileInCooldown sampleEnv (world ?st) pid)"
    unfolding w by (simp add: sampleEnv_def cand_def)
  note inst = cooldown_candidate_skipped[where env=sampleEnv and pre="[?A]" and c="?X"
      and rest="[?Y, ?C]" and w=0 and st="?st", THEN conjunct1, THEN mp, OF conjI[OF reach hyp]]
  note c1 = inst[THEN conjunct2, THEN conjunct2, THEN conjunct2, THEN conjunct2, THEN conjunct1]
  note c2 = inst[THEN conjunct2, THEN conjunct2, THEN conjunct2, THEN conjunct2, THEN conjunct2,
      THEN conjunct1]
  note c3 = inst[THEN conjunct2, THEN conjunct2, THEN conjunct2, THEN conjunct2, THEN conjunct2,
      THEN conjunct2, THEN spec, THEN spec, THEN spec, THEN mp, OF nxt]
  have reachn: "fallbackLoop sampleEnvNoStore (length ([] @ ?X # [?C])) 0 [] ?sa = (None, ?sa)"
    by simp
  have ns: "\<not> hasAuthStore sampleEnvNoStore"
    by (simp add: sampleEnvNoStore_def)
  note c4 = cooldown_candidate_skipped[where env=sampleEnvNoStore and pre="[]" and c="?X"
      and rest="[?C]" and w=0 and st="?sa", THEN conjunct2, THEN mp, OF conjI[OF reachn ns]]
  have fa: "fst (fallbackLoop sampleEnv 4 0 [?A] (initialLoopState 0)) = None"
    by (simp add: sample_simps)
  from hyp have ha: "hasAuthStore sampleEnv" by blast
  from c1 have d1: "1 \<notin> set (runCalls (snd (runWithModelFallback sampleEnv [?A, ?X, ?Y, ?C] 0)))"
    by simp
  from c3[THEN conjunct2, THEN spec, of 2]
  have d2': "2 \<notin> set (runCalls (snd (runWithModelFallback sampleEnv [?A, ?X, ?Y, ?C] 0)))"
    by simp
  from c3[THEN conjunct1]
  have d3: "3 \<in> set (runCalls (snd (runWithModelFallback sampleEnv [?A, ?X, ?Y, ?C] 0)))"
    by (simp add: numeral_3_eq_3)
  from c2 have d2: "attempts (snd (runWithModelFallback sampleEnv [?A, ?X, ?Y, ?C] 0)) ! 1 =
     cooldownAttempt ?X"
    by simp
  from c4 have d4: "0 \<in> set (runCalls (snd (runWithModelFallback sampleEnvNoStore [?X, ?C] 0)))"
    by simp
  show ?thesis
    by (rule conjI[OF fa conjI[OF ha conjI[OF pr conjI[OF cd conjI[OF cb conjI[OF pg conjI[OF av
          conjI[OF d1 conjI[OF d2' conjI[OF d3 conjI[OF d2 conjI[OF ns d4]]]]]]]]]]]])
qed

section \<open>Gateway RPC client: properties\<close>

lemma callInv_initial: "callInv initialCallState"
  by (simp add: callInv_def initialCallState_def)

lemma callInv_step: "callInv s \<Longrightarrow> callInv (gwStep details t s ev)"
  by (cases ev) (auto simp: callInv_def stop_def clientStop_def)

lemma callInv_run: "callInv s \<Longrightarrow> callInv (foldl (gwStep details t) s evs)"
  by (induction evs arbitrary: s) (simp_all add: callInv_step)

lemma settled_step:
  "settled s \<Longrightarrow> settled (gwStep details t s ev) \<and> outcome (gwStep details t s ev) = outcome s"
  by (cases ev) (auto simp: stop_def clientStop_def)

lemma settled_run:
  "settled s \<Longrightarrow>
   settled (foldl (gwStep details t) s evs) \<and> outcome (foldl (gwStep details t) s evs) = outcome s"
proof (induction evs arbitrary: s)
  case Nil
  then show ?case by simp
next
  case (Cons ev evs)
  from settled_step[OF Cons.prems, of details t ev]
  have a: "settled (gwStep details t s ev)" and b: "outcome (gwStep details t s ev) = outcome s"
    by blast+
  from Cons.IH[OF a] b show ?case by simp
qed

lemma close_unsettled:
  "callInv s \<Longrightarrow> \<not> settled s \<Longrightarrow>
   outcome (gwStep details t s (ConnectionClosed code reason)) =
     Some (Rejected (NewError (formatCloseError details code reason))) \<and>
   settled (gwStep details t s (ConnectionClosed code reason))"
  by (auto simp: callInv_def stop_def clientStop_def)

lemma callGateway_Inr:
  "callGateway config optUrl optT evs = Inr s \<Longrightarrow>
   s = foldl (gwStep (buildGatewayConnectionDetails config (trimmedNonEmpty optUrl))
               (case optT of None \<Rightarrow> 10000 | Some t \<Rightarrow> t)) initialCallState evs \<and>
   (\<forall>evs'. callGateway config optUrl optT evs' =
      Inr (foldl (gwStep (buildGatewayConnectionDetails config (trimmedNonEmpty optUrl))
               (case optT of None \<Rightarrow> 10000 | Some t \<Rightarrow> t)) initialCallState evs'))"
  by (auto simp: callGateway_def Let_def split: if_splits)

lemma string_of_nat_1000: "string_of_nat 1000 = ''1000''"
  by (simp add: string_of_nat.simps digit_char_def)

text \<open>
  Claim C8. For every call that got past the configuration check and every sequence of
  callbacks so far: if the call has not settled, a connection close rejects it with the
  close error, whose message carries the close code, the (trimmed) close reason and the
  connection details, also for the normal close code 1000; and if the call has settled,
  its outcome is fixed: whatever callbacks follow (close, timer, request completion), the
  outcome stays the same. The call has an outcome exactly when it is settled.
\<close>

theorem close_before_settle_rejects:
  "(callGateway config optUrl optT evs = Inr s \<and> \<not> settled s \<longrightarrow>
      (\<exists>s'. callGateway config optUrl optT (evs @ [ConnectionClosed code reason]) = Inr s' \<and>
            settled s' \<and>
            outcome s' =
              Some (Rejected (NewError
                (formatCloseError (buildGatewayConnectionDetails config (trimmedNonEmpty optUrl))
                   code reason))))) \<and>
   formatCloseError details code reason =
     ''gateway closed ('' @ string_of_nat code @
     (if code = 1006 then '' abnormal closure (no close frame)''
      else if code = 1000 then '' normal closure'' else []) @
     ''): '' @
     (case reason of
        None \<Rightarrow> ''no close reason''
      | Some x \<Rightarrow> if trim x = [] then ''no close reason'' else trim x) @
     newline @ gcd_message details \<and>
   (trim r \<noteq> [] \<longrightarrow>
      formatCloseError details 1000 (Some r) =
        ''gateway closed (1000 normal closure): '' @ trim r @ newline @ gcd_message details) \<and>
   (callGateway config optUrl optT evs = Inr s \<and> settled s \<longrightarrow>
      outcome s \<noteq> None \<and>
      (\<forall>more. \<exists>s'. callGateway config optUrl optT (evs @ more) = Inr s' \<and>
                    settled s' \<and> outcome s' = outcome s)) \<and>
   (callGateway config optUrl optT evs = Inr s \<longrightarrow> (settled s \<longleftrightarrow> outcome s \<noteq> None))"
proof (intro conjI impI)
  let ?d = "buildGatewayConnectionDetails config (trimmedNonEmpty optUrl)"
  let ?t = "case optT of None \<Rightarrow> 10000 | Some t \<Rightarrow> t"
  {
    assume a: "callGateway config optUrl optT evs = Inr s \<and> \<not> settled s"
    from callGateway_Inr[of config optUrl optT evs s] a
    have s: "s = foldl (gwStep ?d ?t) initialCallState evs"
      and all: "\<And>evs'. callGateway config optUrl optT evs' = Inr (foldl (gwStep ?d ?t) initialCallState evs')"
      by blast+
    have inv: "callInv s" unfolding s by (rule callInv_run[OF callInv_initial])
    have "callGateway config optUrl optT (evs @ [ConnectionClosed code reason]) =
            Inr (gwStep ?d ?t s (ConnectionClosed code reason))"
      by (simp add: all s)
    with close_unsettled[OF inv, of ?d ?t code reason] a
    show "\<exists>s'. callGateway config optUrl optT (evs @ [ConnectionClosed code reason]) = Inr s' \<and>
            settled s' \<and>
            outcome s' = Some (Rejected (NewError (formatCloseError ?d code reason)))"
      by blast
  }
  show "formatCloseError details code reason =
     ''gateway closed ('' @ string_of_nat code @
     (if code = 1006 then '' abnormal closure (no close frame)''
      else if code = 1000 then '' normal closure'' else []) @
     ''): '' @
     (case reason of
        None \<Rightarrow> ''no close reason''
      | Some x \<Rightarrow> if trim x = [] then ''no close reason'' else trim x) @
     newline @ gcd_message details"
    by (simp add: formatCloseError_def Let_def split: option.splits)
  {
    assume "trim r \<noteq> []"
    then show "formatCloseError details 1000 (Some r) =
        ''gateway closed (1000 normal closure): '' @ trim r @ newline @ gcd_message details"
      by (simp add: formatCloseError_def Let_def string_of_nat_1000)
  }
  {
    assume a: "callGateway config optUrl optT evs = Inr s \<and> settled s"
    from callGateway_Inr[of config optUrl optT evs s] a
    have s: "s = foldl (gwStep ?d ?t) initialCallState evs"
      and all: "\<And>evs'. callGateway config optUrl optT evs' = Inr (foldl (gwStep ?d ?t) initialCallState evs')"
      by blast+
    have inv: "callInv s" unfolding s by (rule callInv_run[OF callInv_initial])
    with a show "outcome s \<noteq> None" by (simp add: callInv_def)
    show "\<forall>more. \<exists>s'. callGateway config optUrl optT (evs @ more) = Inr s' \<and>
                    settled s' \<and> outcome s' = outcome s"
    proof
      fix more
      have "callGateway config optUrl optT (evs @ more) = Inr (foldl (gwStep ?d ?t) s more)"
        by (simp add: all s)
      with settled_run[of s ?d ?t more] a
      show "\<exists>s'. callGateway config optUrl optT (evs @ more) = Inr s' \<and>
                    settled s' \<and> outcome s' = outcome s"
        by blast
    qed
  }
  {
    assume a: "callGateway config optUrl optT evs = Inr s"
    from callGateway_Inr[OF a]
    have s: "s = foldl (gwStep ?d ?t) initialCallState evs" by blast
    have inv: "callInv s" unfolding s by (rule callInv_run[OF callInv_initial])
    then show "settled s \<longleftrightarrow> outcome s \<noteq> None" by (simp add: callInv_def)
  }
qed

text \<open>
  Claim C8 at a local configuration: a close with code 1000 on the pending call, and a
  close and a timer after the request has completed.
\<close>

theorem close_before_settle_rejects_witness:
  "callGateway sampleGatewayConfig None (Some 5000) [] = Inr (initialCallState :: (nat, nat) call_state) \<and>
   \<not> settled (initialCallState :: (nat, nat) call_state) \<and>
   (\<exists>s'. callGateway sampleGatewayConfig None (Some 5000) [ConnectionClosed 1000 (Some '' bye '')] =
            Inr (s' :: (nat, nat) call_state) \<and>
          outcome s' = Some (Rejected (NewError
            ''gateway closed (1000 normal closure): bye\<newline>Gateway target: ws://127.0.0.1:18789\<newline>Source: local loopback\<newline>Config: /home/u/.clawdbot/config.json\<newline>Bind: loopback''))) \<and>
   (\<exists>s. callGateway sampleGatewayConfig None (Some 5000) [RequestFulfilled 7] =
            Inr (s :: (nat, nat) call_state) \<and> settled s \<and>
        (\<exists>s'. callGateway sampleGatewayConfig None (Some 5000)
                 ([RequestFulfilled 7] @ [ConnectionClosed 1000 (Some '' bye ''), TimerFired]) =
                 Inr (s' :: (nat, nat) call_state) \<and>
              outcome s' = Some (Resolved (Some 7))))"
proof -
  let ?cfg = sampleGatewayConfig
  let ?d = "buildGatewayConnectionDetails ?cfg (trimmedNonEmpty None)"
  let ?s = "foldl (gwStep ?d 5000) (initialCallState :: (nat, nat) call_state) [RequestFulfilled 7]"
  have a: "callGateway ?cfg None (Some 5000) [] = Inr (initialCallState :: (nat, nat) call_state)"
    by (simp add: callGateway_def sampleGatewayConfig_def Let_def)
  have na: "\<not> settled (initialCallState :: (nat, nat) call_state)"
    by (simp add: initialCallState_def)
  have b: "callGateway ?cfg None (Some 5000) [RequestFulfilled 7] = Inr ?s"
    by (simp add: callGateway_def sampleGatewayConfig_def Let_def)
  have sb: "settled ?s" "outcome ?s = Some (Resolved (Some 7))"
    by (simp_all add: stop_def clientStop_def initialCallState_def)
  have tr: "trim '' bye '' = ''bye''"
    by (simp add: trim_def isSpace_def)
  have msg: "gcd_message ?d =
    ''Gateway target: ws://127.0.0.1:18789\<newline>Source: local loopback\<newline>Config: /home/u/.clawdbot/config.json\<newline>Bind: loopback''"
    by (simp add: buildGatewayConnectionDetails_def sampleGatewayConfig_def trimmedNonEmpty_def
        Let_def filterBoolean_def newline_def string_of_nat.simps digit_char_def)
  note inst = close_before_settle_rejects[where config="?cfg" and optUrl=None and optT="Some 5000"
      and code=1000 and reason="Some '' bye ''" and r="'' bye ''" and details="?d"]
  from inst[where evs="[]" and s=initialCallState] a na
  obtain s' :: "(nat, nat) call_state" where
    c: "callGateway ?cfg None (Some 5000) ([] @ [ConnectionClosed 1000 (Some '' bye '')]) = Inr s'"
       "outcome s' = Some (Rejected (NewError (formatCloseError ?d 1000 (Some '' bye ''))))"
    by blast
  have tne: "trim '' bye '' \<noteq> []" unfolding tr by simp
  have f: "formatCloseError ?d 1000 (Some '' bye '') =
             ''gateway closed (1000 normal closure): '' @ trim '' bye '' @ newline @ gcd_message ?d"
    by (rule inst[where evs="[]" and s="initialCallState :: (nat, nat) call_state",
          THEN conjunct2, THEN conjunct2, THEN conjunct1, THEN mp, OF tne])
  have c': "outcome s' = Some (Rejected (NewError
            ''gateway closed (1000 normal closure): bye\<newline>Gateway target: ws://127.0.0.1:18789\<newline>Source: local loopback\<newline>Config: /home/u/.clawdbot/config.json\<newline>Bind: loopback''))"
    unfolding c(2) f tr msg by (simp add: newline_def)
  from inst[where evs="[RequestFulfilled 7]" and s="?s"] b sb(1)
  have "\<forall>more. \<exists>s'. callGateway ?cfg None (Some 5000) ([RequestFulfilled 7] @ more) = Inr s' \<and>
                    settled s' \<and> outcome s' = outcome ?s"
    by blast
  then obtain s'' :: "(nat, nat) call_state" where
    e: "callGateway ?cfg None (Some 5000)
          ([RequestFulfilled 7] @ [ConnectionClosed 1000 (Some '' bye ''), TimerFired]) = Inr s''"
       "outcome s'' = outcome ?s"
    by blast
  from e(2) sb(2) have e': "outcome s'' = Some (Resolved (Some 7))" by simp
  from c(1) have c1: "callGateway ?cfg None (Some 5000) [ConnectionClosed 1000 (Some '' bye '')] = Inr s'"
    by simp
  have p3: "\<exists>s'. callGateway ?cfg None (Some 5000) [ConnectionClosed 1000 (Some '' bye '')] =
            Inr (s' :: (nat, nat) call_state) \<and>
          outcome s' = Some (Rejected (NewError
            ''gateway closed (1000 normal closure): bye\<newline>Gateway target: ws://127.0.0.1:18789\<newline>Source: local loopback\<newline>Config: /home/u/.clawdbot/config.json\<newline>Bind: loopback''))"
    by (rule exI[of _ s'], rule conjI[OF c1 c'])
  have p4: "\<exists>s. callGateway ?cfg None (Some 5000) [RequestFulfilled 7] =
            Inr (s :: (nat, nat) call_state) \<and> settled s \<and>
        (\<exists>s'. callGateway ?cfg None (Some 5000)
                 ([RequestFulfilled 7] @ [ConnectionClosed 1000 (Some '' bye ''), TimerFired]) =
                 Inr (s' :: (nat, nat) call_state) \<and>
              outcome s' = Some (Resolved (Some 7)))"
    by (rule exI[of _ ?s], intro conjI b sb(1), rule exI[of _ s''], rule conjI[OF e(1) e'])
  show ?thesis
    by (rule conjI[OF a conjI[OF na conjI[OF p3 p4]]])
qed

section \<open>Session store: properties\<close>

subsection \<open>Objects\<close>

lemma map_of_setProp: "map_of (setProp obj k v) k' = (if k' = k then Some v else map_of obj k')"
  by (induction obj) auto

lemma map_of_deleteProp: "map_of (deleteProp obj k) k' = (if k' = k then None else map_of obj k')"
  by (induction obj) (auto simp: deleteProp_def)

lemma getProp_setProp: "getProp (setProp obj k v) k' = (if k' = k then v else getProp obj k')"
  by (simp add: getProp_def map_of_setProp)

lemma getProp_deleteProp:
  "getProp (deleteProp obj k) k' = (if k' = k then JUndefined else getProp obj k')"
  by (simp add: getProp_def map_of_deleteProp)

lemma hasProp_setProp: "hasProp (setProp obj k v) k' = (k' = k \<or> hasProp obj k')"
  by (simp add: hasProp_def map_of_setProp)

lemma hasProp_deleteProp: "hasProp (deleteProp obj k) k' = (k' \<noteq> k \<and> hasProp obj k')"
  by (simp add: hasProp_def map_of_deleteProp)

lemma map_of_spread:
  "map_of (spread a b) k = (case map_of (rev b) k of Some v \<Rightarrow> Some v | None \<Rightarrow> map_of a k)"
proof (induction b arbitrary: a)
  case Nil
  show ?case by (simp add: spread_def)
next
  case (Cons kv b)
  obtain k0 v0 where kv: "kv = (k0, v0)" by (cases kv)
  have step: "spread a (kv # b) = spread (setProp a k0 v0) b" by (simp add: spread_def kv)
  have last: "map_of (rev (kv # b)) k =
                (case map_of (rev b) k of Some v \<Rightarrow> Some v | None \<Rightarrow> if k = k0 then Some v0 else None)"
    by (simp add: kv map_add_def split: option.splits)
  show ?case
    unfolding step Cons.IH last by (simp add: map_of_setProp split: option.splits)
qed

lemma getProp_spread_absent:
  "k \<notin> fst ` set b \<Longrightarrow> getProp (spread a b) k = getProp a k"
proof -
  assume "k \<notin> fst ` set b"
  then have "map_of (rev b) k = None" by (simp add: map_of_eq_None_iff)
  then show ?thesis by (simp add: getProp_def map_of_spread)
qed

lemma getProp_spread_present:
  "map_of (rev b) k = Some v \<Longrightarrow> getProp (spread a b) k = v"
  by (simp add: getProp_def map_of_spread)

subsection \<open>Migration\<close>

lemma isString_iff: "isString x \<longleftrightarrow> (\<exists>s. x = JStr s)"
  by (cases x) (simp_all add: isString_def)


lemma isString_simps [simp]:
  "isString (JStr s)" "\<not> isString JUndefined" "\<not> isString JNull"
  by (simp_all add: isString_def)

lemma migrateRecord_no_room: "\<not> hasProp (migrateRecord raw) ''room''"
  unfolding migrateRecord_def Let_def
  by (simp add: hasProp_setProp hasProp_deleteProp)

lemma migrateRecord_provider:
  "isString (getProp (migrateRecord raw) ''provider'') \<Longrightarrow>
   isString (getProp (migrateRecord raw) ''channel'')"
  unfolding migrateRecord_def Let_def
  by (simp add: getProp_setProp getProp_deleteProp split: if_splits)

lemma migrateRecord_lastProvider:
  "isString (getProp (migrateRecord raw) ''lastProvider'') \<Longrightarrow>
   isString (getProp (migrateRecord raw) ''lastChannel'')"
  unfolding migrateRecord_def Let_def
  by (simp add: getProp_setProp getProp_deleteProp split: if_splits)


lemma migrateEntry_migrated: "entryMigrated (migrateEntry entry)"
proof (cases entry)
  case (JObj raw)
  then show ?thesis
    using migrateRecord_no_room[of raw] migrateRecord_provider[of raw]
      migrateRecord_lastProvider[of raw]
    by (simp add: migrateEntry_def entryMigrated_def)
qed (simp_all add: migrateEntry_def entryMigrated_def)

lemma migrateStore_migrated: "storeMigrated (migrateStore store)"
  by (induction store) (auto simp: storeMigrated_def migrateStore_def migrateEntry_migrated)

lemma fst_loadFromDisk:
  "fst (loadFromDisk env storePath skipCache w) = migrateStore (fst (readStoreFile env storePath w))"
  by (simp add: loadFromDisk_def Let_def split: prod.splits)

lemma cacheMigrated_invalidate:
  "cacheMigrated w \<Longrightarrow> cacheMigrated (invalidateSessionStoreCache storePath w)"
  by (simp add: cacheMigrated_def invalidateSessionStoreCache_def)

lemma cacheMigrated_loadFromDisk:
  "cacheMigrated w \<Longrightarrow> cacheMigrated (snd (loadFromDisk env storePath skipCache w))"
  by (auto simp: cacheMigrated_def loadFromDisk_def Let_def migrateStore_migrated split: prod.splits)

lemma loadSessionStore_cases:
  "loadSessionStore env storePath skipCache w = loadFromDisk env storePath skipCache w \<or>
   loadSessionStore env storePath skipCache w =
     loadFromDisk env storePath skipCache (invalidateSessionStoreCache storePath w) \<or>
   (\<exists>cached. \<not> skipCache \<and> cacheEnabled env \<and> cache w storePath = Some cached \<and>
      isSessionStoreCacheValid env w cached \<and> getFileMtimeMs w storePath = c_mtimeMs cached \<and>
      loadSessionStore env storePath skipCache w = (c_store cached, w))"
  by (auto simp: loadSessionStore_def split: option.splits)

lemma loadSessionStore_migrated:
  assumes "cacheMigrated w"
  shows "storeMigrated (fst (loadSessionStore env storePath skipCache w)) \<and>
         cacheMigrated (snd (loadSessionStore env storePath skipCache w))"
  using loadSessionStore_cases[of env storePath skipCache w]
proof (elim disjE exE)
  assume "loadSessionStore env storePath skipCache w = loadFromDisk env storePath skipCache w"
  then show ?thesis
    using assms by (simp add: fst_loadFromDisk migrateStore_migrated cacheMigrated_loadFromDisk)
next
  assume "loadSessionStore env storePath skipCache w =
     loadFromDisk env storePath skipCache (invalidateSessionStoreCache storePath w)"
  then show ?thesis
    using assms
    by (simp add: fst_loadFromDisk migrateStore_migrated cacheMigrated_loadFromDisk
          cacheMigrated_invalidate)
next
  fix cached
  assume "\<not> skipCache \<and> cacheEnabled env \<and> cache w storePath = Some cached \<and>
      isSessionStoreCacheValid env w cached \<and> getFileMtimeMs w storePath = c_mtimeMs cached \<and>
      loadSessionStore env storePath skipCache w = (c_store cached, w)"
  then show ?thesis using assms by (auto simp: cacheMigrated_def)
qed

lemma migrateRecord_legacy_provider:
  "\<not> isString (getProp raw ''channel'') \<Longrightarrow> getProp raw ''provider'' = JStr p \<Longrightarrow>
   getProp (migrateRecord raw) ''channel'' = JStr p \<and> \<not> hasProp (migrateRecord raw) ''provider''"
  unfolding migrateRecord_def Let_def
  by (simp add: getProp_setProp getProp_deleteProp hasProp_setProp hasProp_deleteProp)

lemma migrateRecord_legacy_room:
  "\<not> isString (getProp raw ''groupChannel'') \<Longrightarrow> getProp raw ''room'' = JStr r \<Longrightarrow>
   getProp (migrateRecord raw) ''groupChannel'' = JStr r \<and> \<not> hasProp (migrateRecord raw) ''room''"
  unfolding migrateRecord_def Let_def
  by (simp add: getProp_setProp getProp_deleteProp hasProp_setProp hasProp_deleteProp)

lemma migrateRecord_channel_kept:
  "isString (getProp raw ''channel'') \<Longrightarrow>
   getProp (migrateRecord raw) ''channel'' = getProp raw ''channel'' \<and>
   getProp (migrateRecord raw) ''provider'' = getProp raw ''provider''"
  unfolding migrateRecord_def Let_def
  by (simp add: getProp_setProp getProp_deleteProp)


text \<open>
  Claim C3, as amended. An entry with a string \<^verbatim>\<open>provider\<close> and no string \<^verbatim>\<open>channel\<close>
  loads with \<^verbatim>\<open>channel\<close> set to it and \<^verbatim>\<open>provider\<close> removed; an entry with a string
  \<^verbatim>\<open>room\<close> and no string \<^verbatim>\<open>groupChannel\<close> loads with \<^verbatim>\<open>groupChannel\<close> set to it and
  \<^verbatim>\<open>room\<close> removed. No loaded entry carries \<^verbatim>\<open>room\<close> at all. A loaded entry carries
  a string \<^verbatim>\<open>provider\<close> only next to a string \<^verbatim>\<open>channel\<close>: when the file's entry already
  has a string \<^verbatim>\<open>channel\<close>, both properties are kept as they are (likewise
  \<^verbatim>\<open>lastProvider\<close> and \<^verbatim>\<open>lastChannel\<close>). This holds for a load from disk and, the cache
  holding only stores that were loaded, for a load served from the cache.
\<close>

theorem legacy_fields_migrated_on_load:
  "(cacheMigrated w \<and> loadSessionStore env storePath skipCache w = (store, w') \<and>
    (sessionKey, JObj loaded) \<in> set store \<longrightarrow>
      \<not> hasProp loaded ''room'' \<and>
      (isString (getProp loaded ''provider'') \<longrightarrow> isString (getProp loaded ''channel'')) \<and>
      (isString (getProp loaded ''lastProvider'') \<longrightarrow> isString (getProp loaded ''lastChannel'')) \<and>
      cacheMigrated w') \<and>
   (loadFromDisk env storePath skipCache w = (store, w') \<and>
    (sessionKey, JObj raw) \<in> set (fst (readStoreFile env storePath w)) \<longrightarrow>
      (sessionKey, JObj (migrateRecord raw)) \<in> set store) \<and>
   (\<not> isString (getProp raw ''channel'') \<and> getProp raw ''provider'' = JStr p \<longrightarrow>
      getProp (migrateRecord raw) ''channel'' = JStr p \<and>
      \<not> hasProp (migrateRecord raw) ''provider'') \<and>
   (\<not> isString (getProp raw ''groupChannel'') \<and> getProp raw ''room'' = JStr r \<longrightarrow>
      getProp (migrateRecord raw) ''groupChannel'' = JStr r \<and>
      \<not> hasProp (migrateRecord raw) ''room'') \<and>
   (isString (getProp raw ''channel'') \<longrightarrow>
      getProp (migrateRecord raw) ''channel'' = getProp raw ''channel'' \<and>
      getProp (migrateRecord raw) ''provider'' = getProp raw ''provider'')"
proof (intro conjI impI)
  assume a: "cacheMigrated w \<and> loadSessionStore env storePath skipCache w = (store, w') \<and>
    (sessionKey, JObj loaded) \<in> set store"
  from loadSessionStore_migrated[of w env storePath skipCache] a
  have sm: "storeMigrated store" and cm: "cacheMigrated w'" by simp_all
  from sm a have em: "entryMigrated (JObj loaded)"
    by (auto simp: storeMigrated_def list_all_iff)
  from em show "\<not> hasProp loaded ''room''" by (simp add: entryMigrated_def)
  from cm show "cacheMigrated w'" .
  {
    assume "isString (getProp loaded ''provider'')"
    with em show "isString (getProp loaded ''channel'')" by (simp add: entryMigrated_def)
  }
  {
    assume "isString (getProp loaded ''lastProvider'')"
    with em show "isString (getProp loaded ''lastChannel'')" by (simp add: entryMigrated_def)
  }
next
  assume a: "loadFromDisk env storePath skipCache w = (store, w') \<and>
    (sessionKey, JObj raw) \<in> set (fst (readStoreFile env storePath w))"
  then have "store = migrateStore (fst (readStoreFile env storePath w))"
    using fst_loadFromDisk[of env storePath skipCache w] by simp
  moreover have "(sessionKey, migrateEntry (JObj raw)) \<in> set (migrateStore (fst (readStoreFile env storePath w)))"
    using a by (force simp: migrateStore_def)
  ultimately show "(sessionKey, JObj (migrateRecord raw)) \<in> set store"
    by (simp add: migrateEntry_def)
next
  assume "\<not> isString (getProp raw ''channel'') \<and> getProp raw ''provider'' = JStr p"
  then show "getProp (migrateRecord raw) ''channel'' = JStr p"
    and "\<not> hasProp (migrateRecord raw) ''provider''"
    using migrateRecord_legacy_provider[of raw p] by simp_all
next
  assume "\<not> isString (getProp raw ''groupChannel'') \<and> getProp raw ''room'' = JStr r"
  then show "getProp (migrateRecord raw) ''groupChannel'' = JStr r"
    and "\<not> hasProp (migrateRecord raw) ''room''"
    using migrateRecord_legacy_room[of raw r] by simp_all
next
  assume "isString (getProp raw ''channel'')"
  then show "getProp (migrateRecord raw) ''channel'' = getProp raw ''channel''"
    and "getProp (migrateRecord raw) ''provider'' = getProp raw ''provider''"
    using migrateRecord_channel_kept[of raw] by simp_all
qed

lemmas store_sample_simps =
  sampleStoreEnv_def legacyWorld_def freshWorld_def staleCacheWorld_def
  counterStore_def counterEntry_def counterOf_def bumpEntry_def bumpStore_def
  otherProcessWrites_def timePasses_def
  loadSessionStore_def loadFromDisk_def readStoreFile_def getFileMtimeMs_def
  isSessionStoreRecord_def isSessionStoreCacheValid_def invalidateSessionStoreCache_def
  migrateStore_def migrateEntry_def migrateRecord_def
  getProp_def hasProp_def deleteProp_def propsOf_def jsGet_def spread_def jsTruthy_def
  nullishToUndefined_def isString_def strictEquals_def
  normalizeSessionEntryDelivery_def normalizeSessionStore_def saveSessionStoreUnlocked_def
  withSessionStoreLock_def acquireLock.simps mergeSessionEntry_def
  updateSessionStoreLocked_def updateSessionStore_def
  updateSessionStoreEntryLocked_def updateSessionStoreEntry_def
  updatedAtOrZero_def updateLastRouteLocked_def updateLastRoute_def
  Let_def

text \<open>
  Claim C3 as stated fails: the entry \<^verbatim>\<open>both\<close> of the file has a string \<^verbatim>\<open>channel\<close> and a
  string \<^verbatim>\<open>provider\<close>, and loads with both.
\<close>

theorem legacy_provider_left_beside_channel_counterexample:
  "getProp (fst (loadSessionStore sampleStoreEnv ''sessions.json'' False legacyWorld)) ''both'' =
     JObj [(''channel'', JStr ''telegram''), (''provider'', JStr ''whatsapp'')] \<and>
   hasProp [(''channel'', JStr ''telegram''), (''provider'', JStr ''whatsapp'')] ''channel'' \<and>
   hasProp [(''channel'', JStr ''telegram''), (''provider'', JStr ''whatsapp'')] ''provider''"
  by (simp add: store_sample_simps)

text \<open>The amended claim C3 at a store file with a legacy entry.\<close>

theorem legacy_fields_migrated_on_load_witness:
  "cacheMigrated legacyWorld \<and>
   (''old'', JObj [(''channel'', JStr ''whatsapp''), (''groupChannel'', JStr ''lobby'')]) \<in>
     set (fst (loadSessionStore sampleStoreEnv ''sessions.json'' False legacyWorld)) \<and>
   \<not> hasProp [(''channel'', JStr ''whatsapp''), (''groupChannel'', JStr ''lobby'')] ''room'' \<and>
   getProp (migrateRecord [(''provider'', JStr ''whatsapp''), (''room'', JStr ''lobby'')]) ''channel'' =
     JStr ''whatsapp'' \<and>
   getProp (migrateRecord [(''provider'', JStr ''whatsapp''), (''room'', JStr ''lobby'')]) ''groupChannel'' =
     JStr ''lobby'' \<and>
   getProp (migrateRecord [(''channel'', JStr ''telegram''), (''provider'', JStr ''whatsapp'')]) ''provider'' =
     JStr ''whatsapp''"
proof -
  let ?old = "[(''provider'', JStr ''whatsapp''), (''room'', JStr ''lobby'')]"
  let ?both = "[(''channel'', JStr ''telegram''), (''provider'', JStr ''whatsapp'')]"
  let ?new = "[(''channel'', JStr ''whatsapp''), (''groupChannel'', JStr ''lobby'')]"
  let ?r = "loadSessionStore sampleStoreEnv ''sessions.json'' False legacyWorld"
  have cm: "cacheMigrated legacyWorld"
    by (simp add: cacheMigrated_def legacyWorld_def)
  have ld: "loadSessionStore sampleStoreEnv ''sessions.json'' False legacyWorld = (fst ?r, snd ?r)"
    by simp
  have mem: "(''old'', JObj ?new) \<in> set (fst ?r)"
    by (simp add: store_sample_simps)
  note inst = legacy_fields_migrated_on_load[where w=legacyWorld and env=sampleStoreEnv
      and storePath="''sessions.json''" and skipCache=False and store="fst ?r" and w'="snd ?r"
      and sessionKey="''old''" and loaded="?new"]
  from inst[where raw="?old" and p="''whatsapp''" and r="''lobby''"] cm ld mem
  have noroom: "\<not> hasProp ?new ''room''" by blast
  have h1: "\<not> isString (getProp ?old ''channel'') \<and> getProp ?old ''provider'' = JStr ''whatsapp''"
    by (simp add: getProp_def isString_def)
  have h2: "\<not> isString (getProp ?old ''groupChannel'') \<and> getProp ?old ''room'' = JStr ''lobby''"
    by (simp add: getProp_def isString_def)
  have h3: "isString (getProp ?both ''channel'')"
    by (simp add: getProp_def isString_def)
  from inst[where raw="?old" and p="''whatsapp''" and r="''lobby''"] h1 h2
  have c1: "getProp (migrateRecord ?old) ''channel'' = JStr ''whatsapp''"
    and c2: "getProp (migrateRecord ?old) ''groupChannel'' = JStr ''lobby''"
    by blast+
  from inst[where raw="?both" and p="''whatsapp''" and r="''lobby''"] h3
  have "getProp (migrateRecord ?both) ''provider'' = getProp ?both ''provider''" by blast
  then have c3: "getProp (migrateRecord ?both) ''provider'' = JStr ''whatsapp''"
    by (simp add: getProp_def)
  show ?thesis
    by (rule conjI[OF cm conjI[OF mem conjI[OF noroom conjI[OF c1 conjI[OF c2 c3]]]]])
qed

subsection \<open>What the lock and the read leave alone\<close>

lemma acquireLock_free:
  "files w lockPath = None \<Longrightarrow>
   acquireLock env lockPath startedAt w =
     (None,
      w\<lparr>files := (files w)(lockPath \<mapsto>
           \<lparr> f_content =
               json_stringify env
                 (JObj [(''pid'', JNum (processPid env)), (''startedAt'', JNum (clock w))]),
             f_mtimeMs = clock w \<rparr>)\<rparr>)"
  by (simp add: acquireLock.simps)


lemma loadFromDisk_frame:
  "files (snd (loadFromDisk env storePath skipCache w)) = files w \<and>
   clock (snd (loadFromDisk env storePath skipCache w)) = clock w"
  by (simp add: loadFromDisk_def Let_def split: prod.splits)

lemma loadSessionStore_frame:
  "files (snd (loadSessionStore env storePath skipCache w)) = files w \<and>
   clock (snd (loadSessionStore env storePath skipCache w)) = clock w"
  using loadSessionStore_cases[of env storePath skipCache w]
  by (auto simp: loadFromDisk_frame invalidateSessionStoreCache_def)



lemma readStoreFile_cache:
  "files w' = files w \<Longrightarrow> readStoreFile env storePath w' = readStoreFile env storePath w"
proof -
  assume a: "files w' = files w"
  show ?thesis unfolding readStoreFile_def getFileMtimeMs_def a ..
qed

lemma loadSessionStore_skipCache:
  "loadSessionStore env storePath True w = (migrateStore (fst (readStoreFile env storePath w)), w)"
  by (simp add: loadSessionStore_def loadFromDisk_def Let_def split: prod.splits)


subsection \<open>Claims on the locked mutations\<close>

lemma lockPath_neq: "storePath @ ''.lock'' \<noteq> storePath"
  by simp

text \<open>
  The transaction reads from disk whatever the cache holds: the store it hands to the
  mutator is the migrated content of the file.
\<close>

lemma updateSessionStoreLocked_reads_disk:
  "updateSessionStoreLocked env storePath mutator w =
     (case mutator (migrateStore (fst (readStoreFile env storePath w))) of
        Inl thrown \<Rightarrow> (Inl (CallbackError thrown), w)
      | Inr (result, store') \<Rightarrow>
          (Inr result, snd (saveSessionStoreUnlocked env storePath store' w)))"
  by (simp add: updateSessionStoreLocked_def loadSessionStore_skipCache split: sum.splits prod.splits)

text \<open>
  Claim C1 fails for \<^verbatim>\<open>updateSessionStoreEntry\<close>. In the world where this process has
  cached the store (counter 1) and another process has since replaced the file within the
  same millisecond (counter 2), the file and the cache disagree, the cache entry is
  within its TTL and the modification time is unchanged. The locked entry update takes
  the cached entry as its basis: it returns and writes counter 2, and the other process's
  write is lost. The transaction \<^verbatim>\<open>updateSessionStore\<close> in the same world reads the file and
  writes counter 3.
\<close>

theorem updateSessionStoreEntry_reads_stale_cache:
  "files staleCacheWorld ''sessions.json'' =
     Some \<lparr> f_content = JsonText (JObj (counterStore 2 1000)), f_mtimeMs = 1000 \<rparr> \<and>
   cache staleCacheWorld ''sessions.json'' =
     Some \<lparr> c_store = counterStore 1 900, c_loadedAt = 1000, c_storePath = ''sessions.json'',
            c_mtimeMs = Some 1000 \<rparr> \<and>
   fst (updateSessionStoreEntry sampleStoreEnv ''sessions.json'' ''main'' bumpEntry staleCacheWorld) =
     (Inr (Some (counterEntry 2 900)) :: unit store_error + jsval option) \<and>
   files (snd (updateSessionStoreEntry sampleStoreEnv ''sessions.json'' ''main'' bumpEntry staleCacheWorld
            :: (unit store_error + jsval option) \<times> sample_text store_world)) ''sessions.json'' =
     Some \<lparr> f_content = JsonText (JObj (counterStore 2 900)), f_mtimeMs = 1010 \<rparr> \<and>
   files (snd (updateSessionStore sampleStoreEnv ''sessions.json'' bumpStore staleCacheWorld
            :: (unit store_error + unit) \<times> sample_text store_world)) ''sessions.json'' =
     Some \<lparr> f_content = JsonText (JObj (counterStore 3 1000)), f_mtimeMs = 1010 \<rparr>"
  by (simp add: store_sample_simps)





subsection \<open>The timestamp written by \<^verbatim>\<open>updateLastRoute\<close>\<close>

lemma keys_setProp:
  "map fst (setProp obj k v) = (if k \<in> fst ` set obj then map fst obj else map fst obj @ [k])"
  by (induction obj) force+

lemma map_of_rev_distinct:
  "distinct (map fst xs) \<Longrightarrow> map_of (rev xs) k = map_of xs k"
proof (induction xs)
  case Nil
  show ?case by simp
next
  case (Cons x xs)
  then have nin: "fst x \<notin> fst ` set xs" and d: "distinct (map fst xs)" by auto
  from nin have none: "map_of xs (fst x) = None" by (simp add: map_of_eq_None_iff)
  show ?case
  proof (cases "k = fst x")
    case True
    with Cons.IH[OF d] none show ?thesis
      by (cases x) (simp add: map_add_def split: option.splits)
  next
    case False
    with Cons.IH[OF d] show ?thesis
      by (cases x) (simp add: map_add_def split: option.splits)
  qed
qed

lemma distinct_setProp: "distinct (map fst obj) \<Longrightarrow> distinct (map fst (setProp obj k v))"
  by (simp add: keys_setProp)

lemma distinct_spread: "distinct (map fst a) \<Longrightarrow> distinct (map fst (spread a b))"
proof (induction b arbitrary: a)
  case Nil
  then show ?case by (simp add: spread_def)
next
  case (Cons kv b)
  obtain k v where kv: "kv = (k, v)" by (cases kv)
  have "spread a (kv # b) = spread (setProp a k v) b" by (simp add: spread_def kv)
  with Cons.IH[OF distinct_setProp[OF Cons.prems, of k v]] show ?case by simp
qed

lemma getProp_spread_distinct:
  "distinct (map fst b) \<Longrightarrow> map_of b k = Some v \<Longrightarrow> getProp (spread a b) k = v"
  by (simp add: getProp_spread_present map_of_rev_distinct)

lemma jsGet_normalizeSessionEntryDelivery_updatedAt:
  "jsGet (normalizeSessionEntryDelivery env (JObj obj)) ''updatedAt'' = getProp obj ''updatedAt''"
  by (simp add: normalizeSessionEntryDelivery_def Let_def jsGet_def propsOf_def getProp_spread_absent)

lemma getProp_normalizeSessionStore:
  "getProp (normalizeSessionStore env store) k =
     (case map_of store k of
        None \<Rightarrow> JUndefined
      | Some entry \<Rightarrow> if \<not> jsTruthy entry then entry else normalizeSessionEntryDelivery env entry)"
  by (induction store) (auto simp: getProp_def normalizeSessionStore_def)

lemma mathMax_numbers: "mathMax env (JNum a) (JNum b) = JNum (max a b)"
  by (simp add: mathMax_def toNumber_def)

lemma updatedAtOrZero_number:
  "getProp obj ''updatedAt'' = JNum n \<Longrightarrow> updatedAtOrZero (JObj obj) = JNum n"
  by (simp add: updatedAtOrZero_def jsGet_def)

text \<open>
  What \<^verbatim>\<open>updateLastRoute\<close> does with the entry it has read: when the lock is acquired and
  the session key has an entry (an object) in the store that the read under the lock
  returns, the entry returned and written has as \<^verbatim>\<open>updatedAt\<close> the \<^verbatim>\<open>Math.max\<close> of that
  entry's \<^verbatim>\<open>updatedAt\<close> (0 when missing) and the current time, provided the metadata patch
  carries no \<^verbatim>\<open>updatedAt\<close> of its own. The timestamp is computed from the entry read, so
  it is the read that decides whether the stored timestamp can go down.
\<close>

lemma updateLastRoute_updatedAt_of_read:
  "acquireLock env (rp_storePath params @ ''.lock'') (clock w) w = (None :: 'x store_error option, wa) \<and>
   loadSessionStore env (rp_storePath params) False wa = (store, wb) \<and>
   getProp store (rp_sessionKey params) = JObj existing \<and>
   (\<forall>ctx mp. rp_ctx params = Some ctx \<and>
      deriveSessionMetaPatch env ctx (rp_sessionKey params) (JObj existing) (rp_groupResolution params) =
        Some mp \<longrightarrow> ''updatedAt'' \<notin> fst ` set mp) \<longrightarrow>
   (\<exists>next written w'.
      (updateLastRoute env params w :: ('x store_error + jsval) \<times> 'txt store_world) = (Inr next, w') \<and>
      jsGet next ''updatedAt'' = mathMax env (updatedAtOrZero (JObj existing)) (JNum (clock wa)) \<and>
      files w' (rp_storePath params) =
        Some \<lparr> f_content = json_stringify env (JObj written), f_mtimeMs = clock wa \<rparr> \<and>
      jsGet (getProp written (rp_sessionKey params)) ''updatedAt'' =
        mathMax env (updatedAtOrZero (JObj existing)) (JNum (clock wa)))"
proof (intro impI)
  let ?p = "rp_storePath params"
  let ?k = "rp_sessionKey params"
  let ?lock = "?p @ ''.lock''"
  let ?m = "mathMax env (updatedAtOrZero (JObj existing)) (JNum (clock wa))"
  assume h: "acquireLock env ?lock (clock w) w = (None :: 'x store_error option, wa) \<and>
   loadSessionStore env ?p False wa = (store, wb) \<and>
   getProp store ?k = JObj existing \<and>
   (\<forall>ctx mp. rp_ctx params = Some ctx \<and>
      deriveSessionMetaPatch env ctx ?k (JObj existing) (rp_groupResolution params) = Some mp \<longrightarrow>
      ''updatedAt'' \<notin> fst ` set mp)"
  from loadSessionStore_frame[of env ?p False wa] h
  have fb: "files wb = files wa" "clock wb = clock wa" by simp_all
  have ne: "?p \<noteq> ?lock" by simp
  define normalized where "normalized =
    normalizeSessionDeliveryFields env
      (JObj [(''deliveryContext'',
         JObj [(''channel'', jsGet (mergeDeliveryContext env
                   (mergeDeliveryContext env (normalizeDeliveryContext env (rp_deliveryContext params))
                      (normalizeDeliveryContext env
                         (JObj [(''channel'', rp_channel params), (''to'', rp_to params),
                                (''accountId'', rp_accountId params), (''threadId'', rp_threadId params)])))
                   (deliveryContextFromSession env (JObj existing))) ''channel''),
               (''to'', jsGet (mergeDeliveryContext env
                   (mergeDeliveryContext env (normalizeDeliveryContext env (rp_deliveryContext params))
                      (normalizeDeliveryContext env
                         (JObj [(''channel'', rp_channel params), (''to'', rp_to params),
                                (''accountId'', rp_accountId params), (''threadId'', rp_threadId params)])))
                   (deliveryContextFromSession env (JObj existing))) ''to''),
               (''accountId'', jsGet (mergeDeliveryContext env
                   (mergeDeliveryContext env (normalizeDeliveryContext env (rp_deliveryContext params))
                      (normalizeDeliveryContext env
                         (JObj [(''channel'', rp_channel params), (''to'', rp_to params),
                                (''accountId'', rp_accountId params), (''threadId'', rp_threadId params)])))
                   (deliveryContextFromSession env (JObj existing))) ''accountId''),
               (''threadId'', jsGet (mergeDeliveryContext env
                   (mergeDeliveryContext env (normalizeDeliveryContext env (rp_deliveryContext params))
                      (normalizeDeliveryContext env
                         (JObj [(''channel'', rp_channel params), (''to'', rp_to params),
                                (''accountId'', rp_accountId params), (''threadId'', rp_threadId params)])))
                   (deliveryContextFromSession env (JObj existing))) ''threadId'')])])"
  define basePatch where "basePatch =
    [(''updatedAt'', ?m),
     (''deliveryContext'', jsGet normalized ''deliveryContext''),
     (''lastChannel'', jsGet normalized ''lastChannel''),
     (''lastTo'', jsGet normalized ''lastTo''),
     (''lastAccountId'', jsGet normalized ''lastAccountId''),
     (''lastThreadId'', jsGet normalized ''lastThreadId'')]"
  define metaPatch where "metaPatch =
    (case rp_ctx params of
       Some ctx \<Rightarrow> deriveSessionMetaPatch env ctx ?k (JObj existing) (rp_groupResolution params)
     | None \<Rightarrow> None)"
  define patch where "patch = (case metaPatch of Some mp \<Rightarrow> spread basePatch mp | None \<Rightarrow> basePatch)"
  define nextObj where "nextObj = spread existing patch"
  define written where "written = normalizeSessionStore env (setProp store ?k (JObj nextObj))"
  have dbase: "distinct (map fst basePatch)" by (simp add: basePatch_def)
  have mbase: "map_of basePatch ''updatedAt'' = Some ?m" by (simp add: basePatch_def)
  have dpatch: "distinct (map fst patch)"
    by (simp add: patch_def dbase distinct_spread split: option.splits)
  have mpatch: "map_of patch ''updatedAt'' = Some ?m"
  proof (cases metaPatch)
    case None
    then show ?thesis by (simp add: patch_def mbase)
  next
    case (Some mp)
    then obtain ctx where c: "rp_ctx params = Some ctx"
      "deriveSessionMetaPatch env ctx ?k (JObj existing) (rp_groupResolution params) = Some mp"
      by (auto simp: metaPatch_def split: option.splits)
    with h have "''updatedAt'' \<notin> fst ` set mp" by blast
    then have "map_of (rev mp) ''updatedAt'' = None" by (simp add: map_of_eq_None_iff)
    then show ?thesis by (simp add: patch_def Some map_of_spread mbase)
  qed
  have nx: "getProp nextObj ''updatedAt'' = ?m"
    unfolding nextObj_def by (rule getProp_spread_distinct[OF dpatch mpatch])
  from h have acq: "acquireLock env ?lock (clock w) w = (None :: 'x store_error option, wa)"
    and ld: "loadSessionStore env ?p False wa = (store, wb)"
    and ex: "getProp store ?k = JObj existing"
    by simp_all
  have locked: "(updateLastRouteLocked env params wa :: ('x store_error + jsval) \<times> 'txt store_world) =
      (Inr (JObj nextObj), snd (saveSessionStoreUnlocked env ?p (setProp store ?k (JObj nextObj)) wb))"
    unfolding updateLastRouteLocked_def ld prod.case Let_def ex fb(2) mergeSessionEntry_def propsOf_def
      jsval.case nextObj_def patch_def metaPatch_def basePatch_def normalized_def
    by (simp add: case_prod_beta)
  have run: "(updateLastRoute env params w :: ('x store_error + jsval) \<times> 'txt store_world) =
      (Inr (JObj nextObj),
       (snd (saveSessionStoreUnlocked env ?p (setProp store ?k (JObj nextObj)) wb))
         \<lparr>files := (files (snd (saveSessionStoreUnlocked env ?p (setProp store ?k (JObj nextObj)) wb)))
                     (?lock := None)\<rparr>)"
    unfolding updateLastRoute_def withSessionStoreLock_def Let_def acq prod.case option.case locked
    by simp
  have fw: "files (snd (saveSessionStoreUnlocked env ?p (setProp store ?k (JObj nextObj)) wb)) ?p =
              Some \<lparr> f_content = json_stringify env (JObj written), f_mtimeMs = clock wa \<rparr>"
    by (simp add: saveSessionStoreUnlocked_def Let_def invalidateSessionStoreCache_def written_def fb)
  have gw: "getProp written ?k = normalizeSessionEntryDelivery env (JObj nextObj)"
    by (simp add: written_def getProp_normalizeSessionStore map_of_setProp jsTruthy_def)
  have uw: "jsGet (getProp written ?k) ''updatedAt'' = ?m"
    unfolding gw by (simp add: jsGet_normalizeSessionEntryDelivery_updatedAt nx)
  have "(updateLastRoute env params w :: ('x store_error + jsval) \<times> 'txt store_world) =
          (Inr (JObj nextObj),
           (snd (saveSessionStoreUnlocked env ?p (setProp store ?k (JObj nextObj)) wb))
             \<lparr>files := (files (snd (saveSessionStoreUnlocked env ?p (setProp store ?k (JObj nextObj)) wb)))
                         (?lock := None)\<rparr>) \<and>
      jsGet (JObj nextObj) ''updatedAt'' = ?m \<and>
      files ((snd (saveSessionStoreUnlocked env ?p (setProp store ?k (JObj nextObj)) wb))
             \<lparr>files := (files (snd (saveSessionStoreUnlocked env ?p (setProp store ?k (JObj nextObj)) wb)))
                         (?lock := None)\<rparr>) ?p =
        Some \<lparr> f_content = json_stringify env (JObj written), f_mtimeMs = clock wa \<rparr> \<and>
      jsGet (getProp written ?k) ''updatedAt'' = ?m"
    using run fw uw nx ne by (simp add: jsGet_def)
  then show "\<exists>next written w'.
      (updateLastRoute env params w :: ('x store_error + jsval) \<times> 'txt store_world) = (Inr next, w') \<and>
      jsGet next ''updatedAt'' = ?m \<and>
      files w' ?p = Some \<lparr> f_content = json_stringify env (JObj written), f_mtimeMs = clock wa \<rparr> \<and>
      jsGet (getProp written ?k) ''updatedAt'' = ?m"
    by blast
qed

lemmas route_sample_simps =
  staleFutureWorld_def futureWorld_def sampleRouteParams_def routedEntry_def storedEntry_def
  mathMax_def toNumber_def

text \<open>
  Claim C10 fails on a cached snapshot. \<^verbatim>\<open>updateLastRoute\<close> reads the store under the
  lock through the cache. In the world where this process has cached the store (entry
  timestamp 900) and another process has since replaced the file within the same
  millisecond (entry timestamp 5000, in the future), the cache entry is within its TTL
  and the modification time is unchanged; at time 1010 the call takes the cached entry as
  the previous one and writes the timestamp 1010: the stored timestamp goes down from
  5000 to 1010 (and the other process's counter 2 is overwritten by 1). With nothing
  cached, the same stored entry keeps its timestamp 5000.
\<close>

theorem updateLastRoute_lowers_stored_timestamp:
  "files staleFutureWorld ''sessions.json'' =
     Some \<lparr> f_content = JsonText (JObj (counterStore 2 5000)), f_mtimeMs = 1000 \<rparr> \<and>
   cache staleFutureWorld ''sessions.json'' =
     Some \<lparr> c_store = counterStore 1 900, c_loadedAt = 1000, c_storePath = ''sessions.json'',
            c_mtimeMs = Some 1000 \<rparr> \<and>
   clock staleFutureWorld = 1010 \<and>
   jsGet (storedEntry staleFutureWorld ''sessions.json'' ''main'') ''updatedAt'' = JNum 5000 \<and>
   fst (updateLastRoute sampleStoreEnv sampleRouteParams staleFutureWorld) =
     (Inr (routedEntry 1 1010) :: unit store_error + jsval) \<and>
   jsGet (storedEntry
            (snd (updateLastRoute sampleStoreEnv sampleRouteParams staleFutureWorld
                    :: (unit store_error + jsval) \<times> sample_text store_world))
            ''sessions.json'' ''main'') ''updatedAt'' = JNum 1010 \<and>
   jsGet (storedEntry
            (snd (updateLastRoute sampleStoreEnv sampleRouteParams staleFutureWorld
                    :: (unit store_error + jsval) \<times> sample_text store_world))
            ''sessions.json'' ''main'') ''counter'' = JNum 1 \<and>
   jsGet (storedEntry futureWorld ''sessions.json'' ''main'') ''updatedAt'' = JNum 5000 \<and>
   jsGet (storedEntry
            (snd (updateLastRoute sampleStoreEnv sampleRouteParams futureWorld
                    :: (unit store_error + jsval) \<times> sample_text store_world))
            ''sessions.json'' ''main'') ''updatedAt'' = JNum 5000"
  by (simp add: store_sample_simps route_sample_simps)

end
